(* ===== verification/Prelude.thy ===== *)
theory Prelude
  imports Complex_Main "HOL-Library.Word" "HOL-Library.AList" "HOL-Library.Multiset"
    "HOL-Library.Char_ord" "HOL-Library.List_Lexorder" "HOL-Library.Product_Lexorder"
begin

text \<open>
  What every component of the development shares: the types that stand for Go's types, the
  outcome of a call that may panic, Go's truncating integer division, maps as association
  lists, string helpers, and the helpers of \<open>pkg/utils/utils.go\<close> the components call.

  \<^item> \<open>uint64\<close>, \<open>uint8\<close>, \<open>byte\<close>: machine words, so additions wrap as they do in Go.
  \<^item> \<open>float64\<close>: exact rationals. Rounding, infinities and NaN are not modelled; the
    definitions that would produce a NaN or an infinity in Go say so where they occur.
  \<^item> \<open>go_error\<close>: the \<open>error\<close> interface; \<open>None\<close> is \<open>nil\<close>, \<open>Some\<close> carries the message.
  \<^item> \<open>'a go\<close>: the outcome of code that may panic (nil dereference, index out of range,
    write to a nil map, integer division by zero) or run forever (\<open>Hang\<close>).
  \<^item> \<open>('k, 'v) gomap\<close>: a Go map as an association list without duplicate keys; reads are
    \<open>map_of\<close>, writes \<open>AList.update\<close>, \<open>delete\<close> is \<open>AList.delete\<close>. Go's iteration order is
    arbitrary: the list order is one of the orders an iteration may take.
\<close>

type_synonym uint64 = "64 word"
type_synonym uint32 = "32 word"
type_synonym uint8 = "8 word"
type_synonym byte = "8 word"
type_synonym float64 = rat
type_synonym go_error = "string option"
type_synonym ('k, 'v) gomap = "('k \<times> 'v) list"

named_theorems gomap_simps "reads of a map after a write, delete or rebuild"
named_theorems go_simps "evaluation of the Go helpers"

subsection \<open>Outcomes: a value, a panic, or no return\<close>

datatype 'a go = Ret 'a | Panic | Hang

fun go_bind :: "'a go \<Rightarrow> ('a \<Rightarrow> 'b go) \<Rightarrow> 'b go" where
  "go_bind (Ret x) f = f x"
| "go_bind Panic f = Panic"
| "go_bind Hang f = Hang"

lemma go_bind_Ret_iff: "go_bind m f = Ret y \<longleftrightarrow> (\<exists>x. m = Ret x \<and> f x = Ret y)"
  by (cases m) auto

lemma go_bind_Panic_iff: "go_bind m f = Panic \<longleftrightarrow> m = Panic \<or> (\<exists>x. m = Ret x \<and> f x = Panic)"
  by (cases m) auto

text \<open>A loop over a slice whose body may panic; the accumulator is the state.\<close>

fun go_foldM :: "('s \<Rightarrow> 'a \<Rightarrow> 's go) \<Rightarrow> 's \<Rightarrow> 'a list \<Rightarrow> 's go" where
  "go_foldM f s [] = Ret s"
| "go_foldM f s (x # xs) = go_bind (f s x) (\<lambda>s'. go_foldM f s' xs)"

lemma go_foldM_invariant:
  assumes "go_foldM f s xs = Ret t" and "P s"
    and "\<And>s x s'. x \<in> set xs \<Longrightarrow> P s \<Longrightarrow> f s x = Ret s' \<Longrightarrow> P s'"
  shows "P t"
  using assms
proof (induction xs arbitrary: s)
  case (Cons x xs)
  then obtain s' where "f s x = Ret s'" and "go_foldM f s' xs = Ret t"
    by (auto simp: go_bind_Ret_iff)
  with Cons show ?case by (meson list.set_intros)
qed simp

lemma go_foldM_total:
  assumes "P s" and "\<And>s x. x \<in> set xs \<Longrightarrow> P s \<Longrightarrow> \<exists>s'. f s x = Ret s' \<and> P s'"
  shows "\<exists>t. go_foldM f s xs = Ret t \<and> P t"
  using assms
proof (induction xs arbitrary: s)
  case (Cons x xs)
  then obtain s' where "f s x = Ret s'" and "P s'" by (meson list.set_intros(1))
  then show ?case using Cons.IH [of s'] Cons.prems(2) by auto
qed simp

subsection \<open>Integers\<close>

text \<open>Go's \<open>/\<close> on signed integers truncates towards zero.\<close>

definition go_div :: "int \<Rightarrow> int \<Rightarrow> int" where
  "go_div a b = sgn a * sgn b * (\<bar>a\<bar> div \<bar>b\<bar>)"

lemma go_div_nonneg [go_simps]: "0 \<le> a \<Longrightarrow> 0 < b \<Longrightarrow> go_div a b = a div b"
  by (cases "a = 0") (auto simp: go_div_def sgn_if)

lemma go_div_mono: "a \<le> a' \<Longrightarrow> 0 < b \<Longrightarrow> go_div a b \<le> go_div a' b"
proof -
  assume le: "a \<le> a'" and b: "0 < b"
  have flip: "(- y) div b \<le> (- x) div b" if "x \<le> y" for x y
    using that b by (intro zdiv_mono1) auto
  have "go_div a b \<le> 0" if "a < 0" using that b
    by (auto simp: go_div_def sgn_if pos_imp_zdiv_nonneg_iff)
  moreover have "0 \<le> go_div a' b" if "0 \<le> a'" using that b
    by (simp add: go_div_nonneg pos_imp_zdiv_nonneg_iff)
  moreover have "go_div a b \<le> go_div a' b" if "a' < 0"
    using that le b flip [OF le] by (auto simp: go_div_def sgn_if)
  moreover have "go_div a b \<le> go_div a' b" if "0 \<le> a"
    using that le b by (simp add: go_div_nonneg zdiv_mono1)
  ultimately show ?thesis by linarith
qed

lemma unat_lt_uint64 [simp]: "unat (x :: uint64) < 18446744073709551616"
  by (rule order_less_le_trans [OF unsigned_less]) simp

lemma unat_of_nat_uint64: "n < 2 ^ 64 \<Longrightarrow> unat (of_nat n :: uint64) = n"
  by (simp add: unsigned_of_nat take_bit_eq_mod)

lemma unat_minus_1_uint64 [simp]: "unat (- 1 :: uint64) = 18446744073709551615"
  by (simp add: unsigned_minus_1_eq_mask mask_eq_exp_minus_1)

lemma unat_add_uint64: "unat a + unat b < 2 ^ 64 \<Longrightarrow> unat (a + b :: uint64) = unat a + unat b"
  by (simp add: unat_word_ariths)

lemma unat_of_int_uint64: "0 \<le> i \<Longrightarrow> i < 2 ^ 64 \<Longrightarrow> unat (word_of_int i :: uint64) = nat i"
  by (simp add: unsigned_of_int take_bit_eq_mod)

definition SubUintChecked :: "uint64 \<Rightarrow> uint64 \<Rightarrow> uint64" where
  "SubUintChecked a b = (if a < b then 0 else a - b)"

lemma unat_SubUintChecked: "unat (SubUintChecked a b) = unat a - unat b"
proof (cases "a < b")
  case True
  then have "unat a < unat b" by (simp add: word_less_nat_alt)
  then show ?thesis by (simp add: SubUintChecked_def True)
next
  case False
  then have "b \<le> a" by simp
  then show ?thesis by (simp add: SubUintChecked_def False unat_sub)
qed

subsection \<open>Generic helpers of \<open>pkg/utils/utils.go\<close>\<close>

definition IfOr :: "bool \<Rightarrow> 'a \<Rightarrow> 'a \<Rightarrow> 'a" where
  "IfOr a x y = (if a then x else y)"

definition MapValuesToSlice :: "('k, 'v) gomap \<Rightarrow> 'v list" where
  "MapValuesToSlice m = map snd m"

definition MapKeysToSlice :: "('k, 'v) gomap \<Rightarrow> 'k list" where
  "MapKeysToSlice m = map fst m"

text \<open>\<open>slices.Compact\<close>: keep the first of each run of equal elements.\<close>

fun slices_Compact :: "'a list \<Rightarrow> 'a list" where
  "slices_Compact [] = []"
| "slices_Compact [x] = [x]"
| "slices_Compact (x # y # zs) = (if x = y then slices_Compact (y # zs) else x # slices_Compact (y # zs))"

definition Unique :: "'a::linorder list \<Rightarrow> 'a list" where
  "Unique xs = slices_Compact (sort xs)"

fun FirstError :: "go_error list \<Rightarrow> go_error" where
  "FirstError [] = None"
| "FirstError (e # es) = (case e of Some m \<Rightarrow> Some m | None \<Rightarrow> FirstError es)"

lemma set_slices_Compact [simp]: "set (slices_Compact xs) = set xs"
  by (induction xs rule: slices_Compact.induct) auto

lemma sorted_slices_Compact: "sorted xs \<Longrightarrow> sorted_wrt (<) (slices_Compact (xs :: 'a::linorder list))"
  by (induction xs rule: slices_Compact.induct) (auto simp: less_le)

lemma Unique_strict_sorted: "sorted_wrt (<) (Unique xs)"
  by (simp add: Unique_def sorted_slices_Compact)

lemma set_Unique [simp]: "set (Unique xs) = set xs"
  by (simp add: Unique_def)

subsection \<open>Go maps\<close>

definition gomap_ok :: "('k, 'v) gomap \<Rightarrow> bool" where
  "gomap_ok m \<longleftrightarrow> distinct (map fst m)"

lemma gomap_ok_Nil [simp, intro]: "gomap_ok []"
  by (simp add: gomap_ok_def)

lemma gomap_ok_update [simp, intro]: "gomap_ok m \<Longrightarrow> gomap_ok (AList.update k v m)"
  by (simp add: gomap_ok_def distinct_update)

lemma gomap_ok_delete [simp, intro]: "gomap_ok m \<Longrightarrow> gomap_ok (AList.delete k m)"
  by (simp add: gomap_ok_def distinct_delete)

lemma map_of_update [gomap_simps]: "map_of (AList.update k v m) = (map_of m)(k \<mapsto> v)"
  by (simp add: update_conv')

lemma map_of_delete [gomap_simps]: "map_of (AList.delete k m) = (map_of m)(k := None)"
  by (simp add: delete_conv')

lemma gomap_ok_lookup: "gomap_ok m \<Longrightarrow> (k, v) \<in> set m \<longleftrightarrow> map_of m k = Some v"
  by (auto simp: gomap_ok_def map_of_is_SomeI dest: map_of_SomeD)

lemma set_MapValuesToSlice:
  "gomap_ok m \<Longrightarrow> v \<in> set (MapValuesToSlice m) \<longleftrightarrow> (\<exists>k. map_of m k = Some v)"
  by (force simp: MapValuesToSlice_def gomap_ok_lookup [symmetric])

text \<open>\<open>delete(m, k)\<close> for every \<open>k\<close> of a slice, in turn.\<close>

definition delete_all :: "'k list \<Rightarrow> ('k, 'v) gomap \<Rightarrow> ('k, 'v) gomap" where
  "delete_all ks m = fold AList.delete ks m"

lemma delete_all_simps [simp]:
  "delete_all [] m = m" "delete_all (k # ks) m = delete_all ks (AList.delete k m)"
  by (simp_all add: delete_all_def)

lemma map_of_delete_all [gomap_simps]: "map_of (delete_all ks m) k = (if k \<in> set ks then None else map_of m k)"
  by (induction ks arbitrary: m) (auto simp: map_of_delete)

lemma gomap_ok_delete_all [simp, intro]: "gomap_ok m \<Longrightarrow> gomap_ok (delete_all ks m)"
  by (induction ks arbitrary: m) auto

text \<open>The zero value of a missing key, as in \<open>m[k]\<close>.\<close>

definition get_or :: "'v \<Rightarrow> ('k, 'v) gomap \<Rightarrow> 'k \<Rightarrow> 'v" where
  "get_or z m k = (case map_of m k of None \<Rightarrow> z | Some v \<Rightarrow> v)"

lemma get_or_update [gomap_simps]: "get_or z (AList.update k v m) j = (if j = k then v else get_or z m j)"
  by (simp add: get_or_def map_of_update)

lemma get_or_delete [gomap_simps]: "get_or z (AList.delete k m) j = (if j = k then z else get_or z m j)"
  by (simp add: get_or_def map_of_delete)

subsection \<open>Strings\<close>

text \<open>
  Go strings are byte strings, here \<open>string\<close>. \<open>strings.TrimSpace\<close> and \<open>strings.ToLower\<close> are
  modelled on ASCII: the multi-byte Unicode spaces and letters are left as they are.
\<close>

definition go_space :: "char \<Rightarrow> bool" where
  "go_space c \<longleftrightarrow> c = CHR '' '' \<or> c = CHR 0x09 \<or> c = CHR 0x0A \<or> c = CHR 0x0B \<or> c = CHR 0x0C \<or> c = CHR 0x0D"

definition TrimSpace :: "string \<Rightarrow> string" where
  "TrimSpace s = rev (dropWhile go_space (rev (dropWhile go_space s)))"

definition lower_char :: "char \<Rightarrow> char" where
  "lower_char c = (let n = (of_char c :: nat) in if 65 \<le> n \<and> n \<le> 90 then char_of (n + 32) else c)"

definition ToLower :: "string \<Rightarrow> string" where
  "ToLower = map lower_char"

definition HasSuffix :: "string \<Rightarrow> string \<Rightarrow> bool" where
  "HasSuffix s suf \<longleftrightarrow> length suf \<le> length s \<and> drop (length s - length suf) s = suf"

definition HasPrefix :: "string \<Rightarrow> string \<Rightarrow> bool" where
  "HasPrefix s pre \<longleftrightarrow> take (length pre) s = pre"

text \<open>\<open>strings.Split\<close> with a one-byte separator: always at least one part.\<close>

fun go_split :: "char \<Rightarrow> string \<Rightarrow> string list" where
  "go_split c [] = [[]]"
| "go_split c (x # xs) =
     (if x = c then [] # go_split c xs
      else (case go_split c xs of [] \<Rightarrow> [[x]] | p # ps \<Rightarrow> (x # p) # ps))"

lemma go_split_nonempty [simp]: "go_split c s \<noteq> []"
  by (cases s) (auto split: list.splits)

text \<open>Decimal digits of a number, as \<open>strconv.FormatUint\<close> and the \<open>%d\<close> verb write them.\<close>

fun show_nat :: "nat \<Rightarrow> string" where
  "show_nat n = (if n < 10 then [char_of (48 + n)] else show_nat (n div 10) @ [char_of (48 + n mod 10)])"

declare show_nat.simps [simp del]

definition show_uint :: "uint64 \<Rightarrow> string" where
  "show_uint x = show_nat (unat x)"

definition show_int :: "int \<Rightarrow> string" where
  "show_int i = (if i < 0 then CHR ''-'' # show_nat (nat (- i)) else show_nat (nat i))"

lemma of_char_digit: "d < 10 \<Longrightarrow> (of_char (char_of (48 + d) :: char) :: nat) = 48 + d"
  by (simp add: of_char_of)

lemma show_nat_inj_last:
  assumes "show_nat m = show_nat n"
  shows "m = n"
  using assms
proof (induction m arbitrary: n rule: show_nat.induct)
  case (1 m)
  have ne: "show_nat k \<noteq> []" "[] \<noteq> show_nat k" for k
    by (subst show_nat.simps, simp)+
  have dig: "a = b" if "char_of (48 + a) = (char_of (48 + b) :: char)" "a < 10" "b < 10" for a b :: nat
    using that of_char_digit [of a] of_char_digit [of b] by simp
  show ?case
  proof (cases "m < 10")
    case True
    with 1(2) ne have "n < 10" by (subst (asm) (1 2) show_nat.simps) (auto split: if_splits)
    with 1(2) True dig show ?thesis by (subst (asm) (1 2) show_nat.simps) auto
  next
    case False
    with 1(2) ne have n: "\<not> n < 10" by (subst (asm) (1 2) show_nat.simps) (auto split: if_splits)
    with 1(2) False have "show_nat (m div 10) = show_nat (n div 10)"
      and l: "char_of (48 + m mod 10) = (char_of (48 + n mod 10) :: char)"
      by (subst (asm) (1 2) show_nat.simps, auto)+
    with 1(1) False have "m div 10 = n div 10" by blast
    moreover from dig [OF l] have "m mod 10 = n mod 10" by simp
    ultimately show ?thesis by (metis div_mult_mod_eq)
  qed
qed

lemma show_uint_inj: "show_uint a = show_uint b \<longleftrightarrow> a = b"
  by (auto simp: show_uint_def dest: show_nat_inj_last intro: unsigned_word_eqI)

lemma show_nat_no_sep: "c \<in> set (show_nat n) \<Longrightarrow> 48 \<le> (of_char c :: nat) \<and> (of_char c :: nat) < 58"
proof (induction n rule: show_nat.induct)
  case (1 n)
  have "(of_char (char_of (48 + d) :: char) :: nat) = 48 + d" if "d < 10" for d
    using of_char_digit that .
  with 1 show ?case
    by (subst (asm) (2) show_nat.simps) (auto split: if_splits)
qed

definition digit_val :: "char \<Rightarrow> nat option" where
  "digit_val c = (let n = of_char c in if 48 \<le> n \<and> n \<le> 57 then Some (n - 48) else None)"

fun digits_val :: "nat \<Rightarrow> string \<Rightarrow> nat option" where
  "digits_val acc [] = Some acc" |
  "digits_val acc (c # cs) = (case digit_val c of None \<Rightarrow> None | Some d \<Rightarrow> digits_val (acc * 10 + d) cs)"

text \<open>\<open>strconv.ParseUint\<close> in base 10 with 64 bits.\<close>

definition ParseUint :: "string \<Rightarrow> uint64 option" where
  "ParseUint s = (if s = [] then None else case digits_val 0 s of None \<Rightarrow> None
     | Some n \<Rightarrow> if n < 2 ^ 64 then Some (of_nat n) else None)"

lemma digit_val_digit: "d < 10 \<Longrightarrow> digit_val (char_of (48 + d)) = Some d"
  by (simp add: digit_val_def of_char_digit Let_def)

lemma digits_val_append: "digits_val acc (xs @ [c]) = (case digits_val acc xs of None \<Rightarrow> None
    | Some n \<Rightarrow> map_option (\<lambda>d. n * 10 + d) (digit_val c))"
  by (induction xs arbitrary: acc) (auto split: option.split)

lemma digits_val_show: "digits_val 0 (show_nat n) = Some n"
proof (induction n rule: less_induct)
  case (less n)
  show ?case
  proof (cases "n < 10")
    case True
    then show ?thesis using digit_val_digit [OF True] by (subst show_nat.simps) simp
  next
    case False
    have lt: "n div 10 < n" using False by simp
    show ?thesis using False digit_val_digit [of "n mod 10"] less [OF lt]
      by (subst show_nat.simps) (simp add: digits_val_append del: show_nat.simps)
  qed
qed

lemma show_nat_nonempty: "show_nat n \<noteq> []"
  by (subst show_nat.simps) simp

lemma ParseUint_show: "ParseUint (show_uint k) = Some k"
  using digits_val_show [of "unat k"] by (simp add: ParseUint_def show_uint_def show_nat_nonempty del: show_nat.simps)

text \<open>A slice expression \<open>xs[i:j]\<close>: out of range it panics.\<close>

definition go_slice :: "'a list \<Rightarrow> int \<Rightarrow> int \<Rightarrow> 'a list go" where
  "go_slice xs i j = (if 0 \<le> i \<and> i \<le> j \<and> j \<le> int (length xs)
     then Ret (take (nat (j - i)) (drop (nat i) xs)) else Panic)"

subsection \<open>Counting lemmas\<close>

lemma length_filter_partition:
  "length (filter P xs) + length (filter (\<lambda>x. \<not> P x) xs) = length xs"
  by (induction xs) auto

lemma sort_key_cong_mset:
  assumes "mset xs = mset ys" and "inj_on k (set xs)"
  shows "sort_key k xs = sort_key k ys"
proof (rule properties_for_sort_key)
  show "mset (sort_key k ys) = mset xs" by (simp add: assms)
  show "sorted (map k (sort_key k ys))" by simp
  fix x assume "x \<in> set (sort_key k ys)"
  have set_eq: "set ys = set xs" using assms(1) by (metis set_mset_mset)
  have fe: "filter (\<lambda>y. k x = k y) zs = replicate (count (mset zs) x) x"
    if "set zs = set xs" "x \<in> set xs" for zs
  proof -
    have "filter (\<lambda>y. k x = k y) zs = filter (\<lambda>y. x = y) zs"
      using that assms(2) by (intro filter_cong) (auto simp: inj_on_def)
    moreover have "filter (\<lambda>y. x = y) zs = replicate (count (mset zs) x) x"
      by (induction zs) auto
    ultimately show ?thesis by simp
  qed
  show "filter (\<lambda>y. k x = k y) (sort_key k ys) = filter (\<lambda>y. k x = k y) xs"
    using fe [of "sort_key k ys"] fe [of xs] set_eq \<open>x \<in> set (sort_key k ys)\<close> assms(1)
    by simp
qed

end
