(* ===== verification/Waf.thy ===== *)
theory Waf
  imports Prelude
begin

text \<open>
  The web application firewall: the table \<open>nz_waf\<close> of \<open>model/waf.go\<close> and its operations, the
  gRPC interceptors of \<open>cmd/dashboard/rpc/rpc.go\<close> that consult it, and the online users of
  \<open>service/singleton/online_user.go\<close> whose connections a manual block closes.

  The table is the list of its rows; every SQL statement of the source is the list operation its
  text denotes, and the error the database may report for a statement is an argument
  (\<open>None\<close> when it succeeds). \<open>parse\<close> stands for \<open>netip.ParseAddr\<close> followed by \<open>As16\<close>,
  \<open>canon\<close> for \<open>netip.ParseAddr\<close> followed by \<open>String\<close>. Times are Unix seconds.
\<close>

subsection \<open>Reasons and block identifiers\<close>

definition WAFBlockReasonTypeLoginFail :: uint8 where "WAFBlockReasonTypeLoginFail = 1"
definition WAFBlockReasonTypeBruteForceToken :: uint8 where "WAFBlockReasonTypeBruteForceToken = 2"
definition WAFBlockReasonTypeAgentAuthFail :: uint8 where "WAFBlockReasonTypeAgentAuthFail = 3"
definition WAFBlockReasonTypeManual :: uint8 where "WAFBlockReasonTypeManual = 4"
definition WAFBlockReasonTypeBruteForceOauth2 :: uint8 where "WAFBlockReasonTypeBruteForceOauth2 = 5"

definition BlockIDgRPC :: int where "BlockIDgRPC = -127"
definition BlockIDToken :: int where "BlockIDToken = -126"
definition BlockIDUnknownUser :: int where "BlockIDUnknownUser = -125"
definition BlockIDManual :: int where "BlockIDManual = -124"

lemmas waf_consts = WAFBlockReasonTypeLoginFail_def WAFBlockReasonTypeBruteForceToken_def
  WAFBlockReasonTypeAgentAuthFail_def WAFBlockReasonTypeManual_def
  WAFBlockReasonTypeBruteForceOauth2_def BlockIDgRPC_def BlockIDToken_def
  BlockIDUnknownUser_def BlockIDManual_def

record waf_row =
  w_ip :: "byte list"
  w_ident :: int
  w_reason :: uint8
  w_stamp :: uint64
  w_count :: uint64

type_synonym waf_db = "waf_row list"
type_synonym ip_parser = "string \<Rightarrow> string + byte list"

subsection \<open>The ban length\<close>

definition powAdd :: "uint64 \<Rightarrow> uint64 \<Rightarrow> uint64 \<Rightarrow> uint64" where
  "powAdd x y z =
     (let result = unat x ^ unat y + unat z
      in if 2 ^ 64 \<le> result then - 1
         else (let ret = (of_nat result :: uint64) in IfOr (ret < z + 3) (z + 3) ret))"

subsection \<open>The table operations\<close>

definition rows_of_ip :: "byte list \<Rightarrow> waf_db \<Rightarrow> waf_db" where
  "rows_of_ip b db = filter (\<lambda>r. w_ip r = b) db"

definition newest_stamp :: "waf_db \<Rightarrow> uint64" where
  "newest_stamp rows = foldr max (map w_stamp rows) 0"

text \<open>\<open>SUM(count)\<close>: SQLite reports an error when the sum leaves the signed 64-bit range.\<close>

definition sum_count :: "waf_db \<Rightarrow> nat" where
  "sum_count rows = sum_list (map (unat \<circ> w_count) rows)"

definition waf_blocked :: string where
  "waf_blocked = ''you were blocked by nezha WAF''"

definition CheckIP :: "ip_parser \<Rightarrow> waf_db \<Rightarrow> go_error \<Rightarrow> go_error \<Rightarrow> int \<Rightarrow> string \<Rightarrow> go_error" where
  "CheckIP parse db e1 e2 now ip =
     (if ip = [] then None
      else (case parse ip of
         Inl err \<Rightarrow> Some err
       | Inr b \<Rightarrow>
          (let rows = rows_of_ip b db
           in if e1 \<noteq> None then e1
              else if rows = [] then None
              else if e2 \<noteq> None then e2
              else if 2 ^ 63 \<le> sum_count rows then Some ''integer overflow''
              else if powAdd (of_nat (sum_count rows)) 4 (newest_stamp rows) > word_of_int now
                   then Some waf_blocked
              else None)))"

definition UnblockIP :: "ip_parser \<Rightarrow> waf_db \<Rightarrow> go_error \<Rightarrow> string \<Rightarrow> int \<Rightarrow> go_error \<times> waf_db" where
  "UnblockIP parse db e ip uid =
     (if ip = [] then (None, db)
      else (case parse ip of
         Inl err \<Rightarrow> (Some err, db)
       | Inr b \<Rightarrow> (if e \<noteq> None then (e, db)
           else (None, filter (\<lambda>r. \<not> (w_ip r = b \<and> w_ident r = uid)) db))))"

fun parsed_ips :: "ip_parser \<Rightarrow> string list \<Rightarrow> byte list list" where
  "parsed_ips parse [] = []"
| "parsed_ips parse (s # ss) =
     (case parse s of Inl _ \<Rightarrow> parsed_ips parse ss | Inr b \<Rightarrow> b # parsed_ips parse ss)"

definition BatchUnblockIP :: "ip_parser \<Rightarrow> waf_db \<Rightarrow> go_error \<Rightarrow> string list \<Rightarrow> go_error \<times> waf_db" where
  "BatchUnblockIP parse db e ips =
     (if length ips < 1 then (None, db)
      else if e \<noteq> None then (e, db)
      else (None, filter (\<lambda>r. w_ip r \<notin> set (parsed_ips parse ips)) db))"

text \<open>
  \<open>tx.Where(&w)\<close> of gorm ignores the zero fields of \<open>w\<close>, so an identifier 0 is not a condition.
\<close>

definition first_or_create :: "byte list \<Rightarrow> int \<Rightarrow> uint8 \<Rightarrow> uint64 \<Rightarrow> waf_db \<Rightarrow> waf_db" where
  "first_or_create b uid reason now db =
     (if (\<exists>r\<in>set db. w_ip r = b \<and> (uid = 0 \<or> w_ident r = uid)) then db
      else db @ [\<lparr>w_ip = b, w_ident = uid, w_reason = reason, w_stamp = now, w_count = 0\<rparr>])"

definition bump_row :: "byte list \<Rightarrow> int \<Rightarrow> uint8 \<Rightarrow> uint64 \<Rightarrow> waf_row \<Rightarrow> waf_row" where
  "bump_row b uid reason now r =
     (if w_ip r = b \<and> w_ident r = uid
      then r\<lparr>w_count := (if reason = WAFBlockReasonTypeManual then 99999 else w_count r + 1),
             w_reason := reason, w_stamp := now\<rparr>
      else r)"

definition BlockIP ::
  "ip_parser \<Rightarrow> waf_db \<Rightarrow> go_error \<Rightarrow> go_error \<Rightarrow> int \<Rightarrow> string \<Rightarrow> uint8 \<Rightarrow> int \<Rightarrow> go_error \<times> waf_db" where
  "BlockIP parse db e1 e2 now ip reason uid =
     (if ip = [] then (None, db)
      else (case parse ip of
         Inl err \<Rightarrow> (Some err, db)
       | Inr b \<Rightarrow>
          (if e1 \<noteq> None then (e1, db)
           else if e2 \<noteq> None then (e2, db)
           else (None, map (bump_row b uid reason (word_of_int now))
                       (first_or_create b uid reason (word_of_int now) db)))))"

subsection \<open>The gRPC interceptors\<close>

definition ConfigUsePeerIP :: string where
  "ConfigUsePeerIP = ''NZ::Use-Peer-IP''"

record rpc_ctx =
  ctx_connecting :: string
  ctx_real :: "string option"

definition GetIPFromHeader :: "(string \<Rightarrow> string + string) \<Rightarrow> string \<Rightarrow> string + string" where
  "GetIPFromHeader canon h = canon (TrimSpace (last (go_split (CHR '','') h)))"

text \<open>
  \<open>peer\<close> is the parsed peer address (\<open>None\<close> when there is none or it does not parse);
  \<open>vals\<close> are the values of the configured metadata key.
\<close>

definition getRealIp ::
  "(string \<Rightarrow> string + string) \<Rightarrow> string \<Rightarrow> string option \<Rightarrow> string list \<Rightarrow> string + rpc_ctx" where
  "getRealIp canon header peer vals =
     (let connectingIp = (case peer of None \<Rightarrow> [] | Some a \<Rightarrow> a)
      in if header = [] then Inr \<lparr>ctx_connecting = connectingIp, ctx_real = None\<rparr>
         else if header = ConfigUsePeerIP then
           (if connectingIp = [] then Inl ''connecting ip not found''
            else Inr \<lparr>ctx_connecting = connectingIp, ctx_real = Some []\<rparr>)
         else (case vals of
             [] \<Rightarrow> Inl ''real ip header not found''
           | v # _ \<Rightarrow> (case GetIPFromHeader canon v of
                Inl err \<Rightarrow> Inl err
              | Inr ip \<Rightarrow> Inr \<lparr>ctx_connecting = connectingIp, ctx_real = Some ip\<rparr>)))"

definition waf_intercept :: "ip_parser \<Rightarrow> waf_db \<Rightarrow> go_error \<Rightarrow> go_error \<Rightarrow> int \<Rightarrow> rpc_ctx \<Rightarrow> string + rpc_ctx" where
  "waf_intercept parse db e1 e2 now ctx =
     (let realip = (case ctx_real ctx of None \<Rightarrow> [] | Some ip \<Rightarrow> ip)
      in (case CheckIP parse db e1 e2 now realip of Some err \<Rightarrow> Inl err | None \<Rightarrow> Inr ctx))"

text \<open>\<open>grpc.ChainUnaryInterceptor(getRealIp, waf)\<close>: \<open>Inr\<close> is the context the handler runs in.\<close>

definition rpc_unary ::
  "ip_parser \<Rightarrow> (string \<Rightarrow> string + string) \<Rightarrow> waf_db \<Rightarrow> go_error \<Rightarrow> go_error \<Rightarrow> int
   \<Rightarrow> string \<Rightarrow> string option \<Rightarrow> string list \<Rightarrow> string + rpc_ctx" where
  "rpc_unary parse canon db e1 e2 now header peer vals =
     (case getRealIp canon header peer vals of
        Inl err \<Rightarrow> Inl err
      | Inr ctx \<Rightarrow> waf_intercept parse db e1 e2 now ctx)"

subsection \<open>Online users\<close>

text \<open>\<open>ou_conn\<close> is \<open>None\<close> for a nil connection, otherwise whether it is still open.\<close>

record online_user =
  ou_user :: uint64
  ou_at :: int
  ou_addr :: string
  ou_conn :: "bool option"

type_synonym online_map = "(string, online_user) gomap"

definition AddOnlineUser :: "online_map \<Rightarrow> string \<Rightarrow> online_user \<Rightarrow> online_map" where
  "AddOnlineUser m connId u = AList.update connId u m"

definition RemoveOnlineUser :: "online_map \<Rightarrow> string \<Rightarrow> online_map" where
  "RemoveOnlineUser m connId = AList.delete connId m"

definition close_conn :: "string \<Rightarrow> online_user \<Rightarrow> online_user" where
  "close_conn ip u = (if ou_addr u = ip \<and> ou_conn u \<noteq> None then u\<lparr>ou_conn := Some False\<rparr> else u)"

text \<open>\<open>err ip\<close> gives the errors of the two statements of the transaction for \<open>ip\<close>.\<close>

fun BlockByIPs ::
  "ip_parser \<Rightarrow> (string \<Rightarrow> go_error \<times> go_error) \<Rightarrow> int \<Rightarrow> string list \<Rightarrow> waf_db \<Rightarrow> online_map
   \<Rightarrow> go_error \<times> waf_db \<times> online_map" where
  "BlockByIPs parse err now [] db m = (None, db, m)"
| "BlockByIPs parse err now (ip # ips) db m =
     (case BlockIP parse db (fst (err ip)) (snd (err ip)) now ip WAFBlockReasonTypeManual BlockIDManual of
        (Some e, db') \<Rightarrow> (Some e, db', m)
      | (None, db') \<Rightarrow> BlockByIPs parse err now ips db' (map (\<lambda>(k, u). (k, close_conn ip u)) m))"

definition GetOnlineUsers :: "online_map \<Rightarrow> int \<Rightarrow> int \<Rightarrow> online_user list go" where
  "GetOnlineUsers m limit offset =
     (let users = sort_key ou_at (MapValuesToSlice m)
      in if offset > int (length users) then Ret []
         else if offset + limit > int (length users) then go_slice users offset (int (length users))
         else go_slice users offset (offset + limit))"

definition GetOnlineUserCount :: "online_map \<Rightarrow> int" where
  "GetOnlineUserCount m = int (length m)"

subsection \<open>Lemmas on the ban length\<close>

lemma powAdd_exact:
  assumes "unat x ^ unat y + unat z < 2 ^ 64" and "unat z + 3 < 2 ^ 64"
  shows "unat (powAdd x y z) = unat z + max 3 (unat x ^ unat y)"
proof -
  let ?r = "unat x ^ unat y + unat z"
  have r: "unat (of_nat ?r :: uint64) = ?r" using assms(1) by (intro unat_of_nat_uint64)
  have z3: "unat (z + 3) = unat z + 3" using assms(2) by (simp add: unat_word_ariths)
  have "(of_nat ?r :: uint64) < z + 3 \<longleftrightarrow> ?r < unat z + 3"
    by (simp only: word_less_nat_alt r z3)
  with assms r z3 show ?thesis by (auto simp: powAdd_def IfOr_def Let_def)
qed

lemma powAdd_overflow: "2 ^ 64 \<le> unat x ^ unat y + unat z \<Longrightarrow> powAdd x y z = - 1"
  by (simp add: powAdd_def)

lemma powAdd_gt:
  assumes "unat z + 3 < 2 ^ 64" and "w \<le> z"
  shows "w < powAdd x y z"
proof (cases "2 ^ 64 \<le> unat x ^ unat y + unat z")
  case True
  have "unat w < unat (- 1 :: uint64)" using assms
    by (simp add: word_le_nat_alt)
  then show ?thesis by (simp add: powAdd_overflow [OF True] word_less_nat_alt)
next
  case False
  with assms have "unat (powAdd x y z) = unat z + max 3 (unat x ^ unat y)"
    by (intro powAdd_exact) auto
  with assms(2) show ?thesis by (simp add: word_less_nat_alt word_le_nat_alt)
qed

lemma newest_stamp_ge: "r \<in> set rows \<Longrightarrow> w_stamp r \<le> newest_stamp rows"
  by (induction rows) (auto simp: newest_stamp_def max.coboundedI2)

lemma newest_stamp_le: "(\<And>r. r \<in> set rows \<Longrightarrow> w_stamp r \<le> t) \<Longrightarrow> newest_stamp rows \<le> t"
  by (induction rows) (auto simp: newest_stamp_def)

subsection \<open>Lemmas on the table\<close>

definition waf_pk :: "waf_db \<Rightarrow> bool" where
  "waf_pk db \<longleftrightarrow> distinct (map (\<lambda>r. (w_ip r, w_ident r)) db)"

lemma bump_row_key [simp]: "w_ip (bump_row b uid re now r) = w_ip r" "w_ident (bump_row b uid re now r) = w_ident r"
  by (simp_all add: bump_row_def)

lemma waf_pk_first_or_create: "waf_pk db \<Longrightarrow> waf_pk (first_or_create b uid re now db)"
  by (auto simp: waf_pk_def first_or_create_def)

lemma waf_pk_map_bump: "waf_pk (map (bump_row b uid re now) db) = waf_pk db"
  by (simp add: waf_pk_def o_def)

lemma waf_pk_filter: "waf_pk db \<Longrightarrow> waf_pk (filter P db)"
  by (simp add: waf_pk_def distinct_map_filter)

lemma BlockIP_cases:
  "BlockIP parse db e1 e2 now ip re uid = (None, db') \<Longrightarrow> ip \<noteq> [] \<Longrightarrow> parse ip = Inr b \<Longrightarrow>
   db' = map (bump_row b uid re (word_of_int now)) (first_or_create b uid re (word_of_int now) db)"
  by (auto simp: BlockIP_def split: if_splits)

lemma BlockIP_row:
  assumes "BlockIP parse db e1 e2 now ip re uid = (None, db')" and "ip \<noteq> []" and "parse ip = Inr b"
    and "uid \<noteq> 0"
  shows "\<exists>r \<in> set (rows_of_ip b db'). w_ident r = uid \<and> w_stamp r = word_of_int now \<and> w_reason r = re"
proof -
  have "\<exists>r \<in> set (first_or_create b uid re (word_of_int now) db). w_ip r = b \<and> w_ident r = uid"
    using assms(4) by (auto simp: first_or_create_def)
  then obtain r where r: "r \<in> set (first_or_create b uid re (word_of_int now) db)" "w_ip r = b" "w_ident r = uid"
    by blast
  let ?r = "bump_row b uid re (word_of_int now) r"
  from r BlockIP_cases [OF assms(1-3)] have "?r \<in> set db'" by simp
  with r have "?r \<in> set (rows_of_ip b db')" by (simp add: rows_of_ip_def)
  moreover from r have "w_ident ?r = uid" "w_stamp ?r = word_of_int now" "w_reason ?r = re"
    by (simp_all add: bump_row_def)
  ultimately show ?thesis by blast
qed

lemma powAdd_ge: "unat z + 3 < 2 ^ 64 \<Longrightarrow> z + 3 \<le> powAdd x y z"
proof (cases "2 ^ 64 \<le> unat x ^ unat y + unat z")
  case True
  then show ?thesis by (simp only: powAdd_overflow) simp
next
  case False
  assume z: "unat z + 3 < 2 ^ 64"
  with False have "unat (powAdd x y z) = unat z + max 3 (unat x ^ unat y)"
    by (intro powAdd_exact) auto
  moreover have "unat (z + 3) = unat z + 3" using z by (simp add: unat_word_ariths)
  ultimately show ?thesis by (simp only: word_le_nat_alt)
qed

lemma CheckIP_refuses:
  assumes "ip \<noteq> []" and "parse ip = Inr b" and "rows_of_ip b db \<noteq> []"
    and "powAdd (of_nat (sum_count (rows_of_ip b db))) 4 (newest_stamp (rows_of_ip b db)) > word_of_int t"
  shows "CheckIP parse db e1 e2 t ip \<noteq> None"
  using assms by (auto simp: CheckIP_def Let_def)

lemma CheckIP_other:
  assumes "ip \<noteq> []" and "parse ip = Inr b" and "rows_of_ip b db = []"
  shows "CheckIP parse db None e2 t ip = None"
  using assms by (simp add: CheckIP_def)

lemma rows_of_ip_map_bump:
  "rows_of_ip b (map (bump_row b' uid re now) db) = map (bump_row b' uid re now) (rows_of_ip b db)"
  by (simp add: rows_of_ip_def filter_map o_def)

lemma rows_of_ip_first_or_create:
  "rows_of_ip b (first_or_create b uid re now db) = first_or_create b uid re now (rows_of_ip b db)"
  by (auto simp: rows_of_ip_def first_or_create_def)

lemma BlockIP_stamps:
  assumes "BlockIP parse db e1 e2 now ip re uid = (None, db')" and "ip \<noteq> []" and "parse ip = Inr b"
    and "\<forall>r \<in> set db. w_stamp r \<le> word_of_int now" and "r \<in> set db'"
  shows "w_stamp r \<le> word_of_int now"
proof -
  have bump: "w_stamp r' \<le> n \<Longrightarrow> w_stamp (bump_row b uid re n r') \<le> n" for r' n
    by (simp add: bump_row_def)
  have "\<forall>r' \<in> set (first_or_create b uid re (word_of_int now) db). w_stamp r' \<le> word_of_int now"
    using assms(4) by (simp add: first_or_create_def)
  with bump assms(5) show ?thesis unfolding BlockIP_cases [OF assms(1-3)] by auto
qed

subsection \<open>Runs of automatic blocks\<close>

definition block_all ::
  "ip_parser \<Rightarrow> string \<Rightarrow> uint8 \<Rightarrow> int \<Rightarrow> int list \<Rightarrow> waf_db \<Rightarrow> waf_db" where
  "block_all parse ip re uid ts db = fold (\<lambda>t db. snd (BlockIP parse db None None t ip re uid)) ts db"

lemma block_all_rows:
  assumes "ip \<noteq> []" and "parse ip = Inr b" and "uid \<noteq> 0" and "re \<noteq> WAFBlockReasonTypeManual"
    and "rows_of_ip b db = []" and "ts \<noteq> []" and "length ts < 2 ^ 63"
  shows "rows_of_ip b (block_all parse ip re uid ts db) =
    [\<lparr>w_ip = b, w_ident = uid, w_reason = re, w_stamp = word_of_int (last ts), w_count = of_nat (length ts)\<rparr>]"
  using assms(6,7)
proof (induction ts rule: rev_induct)
  case (snoc t ts)
  let ?d = "block_all parse ip re uid ts db"
  have step: "rows_of_ip b (block_all parse ip re uid (ts @ [t]) db) =
      map (bump_row b uid re (word_of_int t)) (first_or_create b uid re (word_of_int t) (rows_of_ip b ?d))"
    using assms(1,2)
    by (simp add: block_all_def BlockIP_def rows_of_ip_map_bump rows_of_ip_first_or_create)
  show ?case
  proof (cases "ts = []")
    case True
    with assms(4,5) step show ?thesis
      by (simp add: block_all_def first_or_create_def bump_row_def)
  next
    case False
    with snoc assms(4) step show ?thesis
      by (simp add: first_or_create_def bump_row_def add.commute)
  qed
qed simp

subsection \<open>Manual blocks\<close>

definition manually_blocked :: "int \<Rightarrow> byte list \<Rightarrow> waf_db \<Rightarrow> bool" where
  "manually_blocked now b db \<longleftrightarrow>
     (\<exists>r \<in> set (rows_of_ip b db). w_ident r = BlockIDManual \<and> w_reason r = WAFBlockReasonTypeManual
         \<and> w_stamp r = word_of_int now)"

lemma BlockIP_manual:
  assumes "BlockIP parse db e1 e2 now ip WAFBlockReasonTypeManual BlockIDManual = (None, db')" and "ip \<noteq> []"
  shows "\<exists>b. parse ip = Inr b \<and> manually_blocked now b db'"
proof -
  from assms obtain b where b: "parse ip = Inr b" by (auto simp: BlockIP_def split: sum.splits)
  from BlockIP_row [OF assms b] have "manually_blocked now b db'"
    by (auto simp: waf_consts manually_blocked_def)
  with b show ?thesis by blast
qed

lemma BlockIP_keeps_manual:
  assumes "BlockIP parse db e1 e2 now ip WAFBlockReasonTypeManual BlockIDManual = (None, db')"
    and "manually_blocked now b db"
  shows "manually_blocked now b db'"
proof (cases "ip = []")
  case True
  with assms show ?thesis by (simp add: BlockIP_def)
next
  case False
  from assms(1) False obtain c where c: "parse ip = Inr c" by (auto simp: BlockIP_def split: sum.splits)
  from assms(2) obtain r where r: "r \<in> set db" "w_ip r = b" "w_ident r = BlockIDManual"
    "w_reason r = WAFBlockReasonTypeManual" "w_stamp r = word_of_int now"
    by (auto simp: manually_blocked_def rows_of_ip_def)
  let ?r = "bump_row c BlockIDManual WAFBlockReasonTypeManual (word_of_int now) r"
  have "?r \<in> set db'" using r(1) unfolding BlockIP_cases [OF assms(1) False c]
    by (auto simp: first_or_create_def)
  moreover have "w_reason ?r = WAFBlockReasonTypeManual" "w_stamp ?r = word_of_int now"
    using r by (simp_all add: bump_row_def)
  ultimately show ?thesis using r by (auto simp: manually_blocked_def rows_of_ip_def)
qed

lemma BlockByIPs_keeps:
  "BlockByIPs parse err now ips db m = (None, db', m') \<Longrightarrow> manually_blocked now b db \<Longrightarrow> manually_blocked now b db'"
  by (induction ips arbitrary: db m)
     (auto split: prod.splits option.splits dest: BlockIP_keeps_manual)

subsection \<open>Reachable tables\<close>

text \<open>The tables the operations can produce from the empty one, whatever they are called with.\<close>

inductive waf_reachable :: "ip_parser \<Rightarrow> waf_db \<Rightarrow> bool" for parse where
  waf_start: "waf_reachable parse []"
| waf_block: "waf_reachable parse db \<Longrightarrow> waf_reachable parse (snd (BlockIP parse db e1 e2 now ip re uid))"
| waf_unblock: "waf_reachable parse db \<Longrightarrow> waf_reachable parse (snd (UnblockIP parse db e ip uid))"
| waf_batch: "waf_reachable parse db \<Longrightarrow> waf_reachable parse (snd (BatchUnblockIP parse db e ips))"

lemma BlockIP_pk: "waf_pk db \<Longrightarrow> waf_pk (snd (BlockIP parse db e1 e2 now ip re uid))"
  by (auto simp: BlockIP_def waf_pk_map_bump waf_pk_first_or_create split: sum.splits)

lemma UnblockIP_pk: "waf_pk db \<Longrightarrow> waf_pk (snd (UnblockIP parse db e ip uid))"
  by (auto simp: UnblockIP_def waf_pk_filter split: sum.splits)

lemma BatchUnblockIP_pk: "waf_pk db \<Longrightarrow> waf_pk (snd (BatchUnblockIP parse db e ips))"
  by (auto simp: BatchUnblockIP_def waf_pk_filter)

subsection \<open>Properties\<close>

lemma CheckIP_exact:
  assumes "ip \<noteq> []" and "parse ip = Inr b" and "rows_of_ip b db \<noteq> []"
    and "sum_count (rows_of_ip b db) ^ 4 + unat (newest_stamp (rows_of_ip b db)) < 2 ^ 64"
    and "unat (newest_stamp (rows_of_ip b db)) + 3 < 2 ^ 64"
    and "0 \<le> t" and "t < 2 ^ 63"
  shows "CheckIP parse db None None t ip =
     (if nat t < unat (newest_stamp (rows_of_ip b db)) + max 3 (sum_count (rows_of_ip b db) ^ 4)
      then Some waf_blocked else None)"
proof -
  let ?n = "sum_count (rows_of_ip b db)" and ?z = "newest_stamp (rows_of_ip b db)"
  have "?n ^ 4 < 2 ^ 64" using assms(4) by simp
  then have n: "?n < 2 ^ 16" using power_less_imp_less_base [of ?n 4 "2 ^ 16"] by simp
  then have un: "unat (of_nat ?n :: uint64) = ?n" by (intro unat_of_nat_uint64) simp
  have p: "unat (powAdd (of_nat ?n) 4 ?z) = unat ?z + max 3 (?n ^ 4)"
    using assms(4,5) un by (subst powAdd_exact) auto
  have t: "unat (word_of_int t :: uint64) = nat t"
    using assms(6,7) by (intro unat_of_int_uint64) auto
  have "powAdd (of_nat ?n) 4 ?z > word_of_int t \<longleftrightarrow> nat t < unat ?z + max 3 (?n ^ 4)"
    by (simp only: word_less_nat_alt p t)
  with assms(1-3) n show ?thesis by (simp add: CheckIP_def Let_def)
qed

text \<open>C17: \<open>CheckIP\<close> blocks an address exactly until the newest block time plus the larger of three
  seconds and the fourth power of the total failure count, as long as that time fits 64 bits.\<close>

theorem CheckIP_window:
  assumes "ip \<noteq> []" and "parse ip = Inr b" and "rows_of_ip b db \<noteq> []"
    and "sum_count (rows_of_ip b db) ^ 4 + unat (newest_stamp (rows_of_ip b db)) < 2 ^ 64"
    and "unat (newest_stamp (rows_of_ip b db)) + 3 < 2 ^ 64"
    and "0 \<le> t" and "t < 2 ^ 63"
  shows "CheckIP parse db None None t ip =
     (if nat t < unat (newest_stamp (rows_of_ip b db)) + max 3 (sum_count (rows_of_ip b db) ^ 4)
      then Some waf_blocked else None)"
  using assms by (rule CheckIP_exact)

theorem CheckIP_window_witness:
  "CheckIP (\<lambda>_. Inr [1]) [\<lparr>w_ip = [1], w_ident = -127, w_reason = 3, w_stamp = 100, w_count = 2\<rparr>]
     None None 115 ''a'' = Some waf_blocked"
  by (subst CheckIP_window [of _ _ "[1]"])
     (simp_all add: rows_of_ip_def sum_count_def newest_stamp_def)

lemma BlockIP_refuses:
  assumes "BlockIP parse db e1 e2 now ip re uid = (None, db')"
    and "ip \<noteq> []" and "parse ip = Inr b" and "uid \<noteq> 0"
    and "\<forall>r \<in> set db. w_stamp r \<le> word_of_int now"
    and "0 \<le> now" and "now + 3 < 2 ^ 63" and "0 \<le> t" and "t \<le> now + 2"
  shows "CheckIP parse db' e3 e4 t ip \<noteq> None"
proof -
  let ?rows = "rows_of_ip b db'" and ?n = "word_of_int now :: uint64"
  have n: "unat ?n = nat now" using assms(6,7) by (intro unat_of_int_uint64) auto
  obtain r where r: "r \<in> set ?rows" "w_stamp r = ?n"
    using BlockIP_row [OF assms(1-4)] by blast
  have "w_stamp r' \<le> ?n" if "r' \<in> set ?rows" for r'
    using BlockIP_stamps [OF assms(1-3,5)] that by (simp add: rows_of_ip_def)
  with r have z: "newest_stamp ?rows = ?n"
    by (intro order_antisym newest_stamp_le) (metis newest_stamp_ge)+
  have "unat (word_of_int t :: uint64) = nat t"
    using assms(7-9) by (intro unat_of_int_uint64) auto
  moreover have "unat (?n + 3) = nat now + 3"
    using n assms(6,7) by (simp add: unat_word_ariths)
  ultimately have "word_of_int t < ?n + 3" using assms(6,8,9) by (simp add: word_less_nat_alt)
  also have "\<dots> \<le> powAdd (of_nat (sum_count ?rows)) 4 ?n"
    using n assms(6,7) by (intro powAdd_ge) simp
  finally show ?thesis
    using r(1) z assms(2,3) by (intro CheckIP_refuses [of ip parse b]) auto
qed

text \<open>once \<open>BlockIP\<close> has succeeded for an address, \<open>CheckIP\<close> refuses it in that second and the two
  that follow, whatever the identifier or the reason, whatever the other rows are, and even
  when the database fails the check (the check fails closed).\<close>

lemma BlockIP_then_CheckIP:
  assumes "BlockIP parse db e1 e2 now ip re uid = (None, db')"
    and "ip \<noteq> []" and "parse ip = Inr b" and "uid \<noteq> 0"
    and "\<forall>r \<in> set db. w_stamp r \<le> word_of_int now"
    and "0 \<le> now" and "now + 3 < 2 ^ 63" and "0 \<le> t" and "t \<le> now + 2"
  shows "CheckIP parse db' e3 e4 t ip \<noteq> None"
  using assms by (rule BlockIP_refuses)

lemma BlockIP_then_CheckIP_witness:
  "CheckIP (\<lambda>_. Inr [1]) (snd (BlockIP (\<lambda>_. Inr [1]) [] None None 100 ''a'' 3 BlockIDgRPC)) None None 102 ''a'' \<noteq> None"
  by (rule BlockIP_then_CheckIP [of "\<lambda>_. Inr [1]" "[]" None None 100 "''a''" 3 BlockIDgRPC _ "[1]"])
     (simp_all add: BlockIP_def waf_consts)

text \<open>repeated automatic blocks escalate: after \<open>k\<close> failed attempts of an address under one identifier,
  on a table without rows for it, \<open>CheckIP\<close> blocks it for \<open>k\<close> to the fourth power seconds (at least
  three) after the last attempt, and lets it pass from then on.\<close>

lemma BlockIP_escalates:
  assumes "ip \<noteq> []" and "parse ip = Inr b" and "uid \<noteq> 0" and "re \<noteq> WAFBlockReasonTypeManual"
    and "rows_of_ip b db = []" and "ts \<noteq> []" and "0 \<le> last ts" and "last ts < 2 ^ 62"
    and "length ts < 2 ^ 15" and "0 \<le> t" and "t < 2 ^ 63"
  shows "CheckIP parse (block_all parse ip re uid ts db) None None t ip =
     (if t < last ts + max 3 (int (length ts) ^ 4) then Some waf_blocked else None)"
proof -
  let ?d = "block_all parse ip re uid ts db"
  have rows: "rows_of_ip b ?d = [\<lparr>w_ip = b, w_ident = uid, w_reason = re,
      w_stamp = word_of_int (last ts), w_count = of_nat (length ts)\<rparr>]"
    using assms by (intro block_all_rows) auto
  have l: "unat (of_nat (length ts) :: uint64) = length ts"
    using assms(9) by (intro unat_of_nat_uint64) simp
  have z: "unat (word_of_int (last ts) :: uint64) = nat (last ts)"
    using assms(7,8) by (intro unat_of_int_uint64) auto
  have c: "sum_count (rows_of_ip b ?d) = length ts" by (simp add: rows sum_count_def l)
  have s: "newest_stamp (rows_of_ip b ?d) = word_of_int (last ts)"
    by (simp add: rows newest_stamp_def)
  have "length ts ^ 4 < (2 ^ 15) ^ 4" using assms(9) by (intro power_strict_mono) auto
  then have b: "length ts ^ 4 < 2 ^ 60" by simp
  have "CheckIP parse ?d None None t ip =
     (if nat t < nat (last ts) + max 3 (length ts ^ 4) then Some waf_blocked else None)"
    using assms(1,2,7,8,10,11) b
    by (subst CheckIP_exact [of ip parse b]) (simp_all add: c s z, simp_all add: rows)
  moreover have "nat t < nat (last ts) + max 3 (length ts ^ 4) \<longleftrightarrow> t < last ts + max 3 (int (length ts) ^ 4)"
    using assms(7,10) by (auto simp: max_def nat_less_iff of_nat_power [symmetric] simp del: of_nat_power)
  ultimately show ?thesis by simp
qed

lemma BlockIP_escalates_witness:
  "CheckIP (\<lambda>_. Inr [1]) (block_all (\<lambda>_. Inr [1]) ''a'' WAFBlockReasonTypeAgentAuthFail BlockIDgRPC [100, 101, 105] [])
     None None 185 ''a'' = Some waf_blocked
   \<and> CheckIP (\<lambda>_. Inr [1]) (block_all (\<lambda>_. Inr [1]) ''a'' WAFBlockReasonTypeAgentAuthFail BlockIDgRPC [100, 101, 105] [])
     None None 186 ''a'' = None"
  by (subst BlockIP_escalates [of _ _ "[1]"], simp_all add: waf_consts rows_of_ip_def)
     (subst BlockIP_escalates [of _ _ "[1]"], simp_all add: waf_consts rows_of_ip_def)

text \<open>the primary key of \<open>nz_waf\<close> (address and identifier) stays unique in every table the operations
  \<open>BlockIP\<close>, \<open>UnblockIP\<close> and \<open>BatchUnblockIP\<close> can produce, so a repeated block updates its row and never adds one.\<close>

lemma waf_primary_key: "waf_reachable parse db \<Longrightarrow> waf_pk db"
proof (induction rule: waf_reachable.induct)
  case waf_start
  show ?case by (simp add: waf_pk_def)
qed (auto intro: BlockIP_pk UnblockIP_pk BatchUnblockIP_pk)

lemma waf_primary_key_witness:
  "waf_pk (snd (BlockIP (\<lambda>_. Inr [1]) [] None None 5 ''a'' 3 (-127)))"
  by (rule waf_primary_key [OF waf_block [OF waf_start]])

text \<open>with the agent's real-IP header set to the peer-address mode, the interceptors let every call with a
  peer address through, whatever the table holds: the real IP they put in the context is empty, and
  \<open>CheckIP\<close> accepts the empty address. The same calls are refused when the header names a metadata key
  and the address it carries is blocked.\<close>

lemma peer_mode_bypasses_waf:
  assumes "a \<noteq> []"
  shows "rpc_unary parse canon db e1 e2 now ConfigUsePeerIP (Some a) vals =
     Inr \<lparr>ctx_connecting = a, ctx_real = Some []\<rparr>
    \<and> (header \<noteq> [] \<and> header \<noteq> ConfigUsePeerIP \<and> GetIPFromHeader canon v = Inr a
      \<and> CheckIP parse db e1 e2 now a = Some err
      \<longrightarrow> rpc_unary parse canon db e1 e2 now header (Some a) (v # vs) = Inl err)"
  using assms by (simp_all add: rpc_unary_def getRealIp_def waf_intercept_def CheckIP_def ConfigUsePeerIP_def Let_def)

lemma peer_mode_bypasses_waf_witness:
  "rpc_unary (\<lambda>_. Inr [1]) Inr [\<lparr>w_ip = [1], w_ident = -127, w_reason = 3, w_stamp = 100, w_count = 2\<rparr>]
     None None 101 ConfigUsePeerIP (Some ''a'') [] = Inr \<lparr>ctx_connecting = ''a'', ctx_real = Some []\<rparr>"
  by (rule peer_mode_bypasses_waf [THEN conjunct1]) simp

text \<open>a manual block that succeeds closes the connection of every online user at a listed address, touches
  no other user, and leaves a row with the manual reason and the given time for each address that parses.\<close>

lemma BlockByIPs_effect:
  assumes "BlockByIPs parse err now ips db m = (None, db', m')"
  shows "m' = map (\<lambda>(k, u). (k, if ou_addr u \<in> set ips \<and> ou_conn u \<noteq> None then u\<lparr>ou_conn := Some False\<rparr> else u)) m
    \<and> (\<forall>ip \<in> set ips. ip = [] \<or> (\<exists>b. parse ip = Inr b \<and> manually_blocked now b db'))"
  using assms
proof (induction ips arbitrary: db m)
  case Nil
  then show ?case by (auto simp: case_prod_beta)
next
  case (Cons ip ips)
  let ?m1 = "map (\<lambda>(k, u). (k, close_conn ip u)) m"
  from Cons.prems obtain db1 where
    b1: "BlockIP parse db (fst (err ip)) (snd (err ip)) now ip WAFBlockReasonTypeManual BlockIDManual = (None, db1)"
    and rest: "BlockByIPs parse err now ips db1 ?m1 = (None, db', m')"
    by (auto split: prod.splits option.splits)
  have keep: "manually_blocked now b db'" if "manually_blocked now b db1" for b
    using BlockByIPs_keeps [OF rest that] .
  have "ip = [] \<or> (\<exists>b. parse ip = Inr b \<and> manually_blocked now b db1)"
    using BlockIP_manual [OF b1] by blast
  with Cons.IH [OF rest] keep show ?case
    by (auto simp: close_conn_def)
qed

lemma BlockByIPs_effect_witness:
  "fst (BlockByIPs (\<lambda>_. Inr [1]) (\<lambda>_. (None, None)) 7 [''a''] [] [(''c'', \<lparr>ou_user = 1, ou_at = 0, ou_addr = ''a'', ou_conn = Some True\<rparr>)]) = None
   \<and> snd (snd (BlockByIPs (\<lambda>_. Inr [1]) (\<lambda>_. (None, None)) 7 [''a''] [] [(''c'', \<lparr>ou_user = 1, ou_at = 0, ou_addr = ''a'', ou_conn = Some True\<rparr>)]))
     = [(''c'', \<lparr>ou_user = 1, ou_at = 0, ou_addr = ''a'', ou_conn = Some False\<rparr>)]"
proof -
  let ?p = "\<lambda>_ :: string. (Inr [1] :: string + byte list)" and ?e = "\<lambda>_ :: string. (None, None) :: go_error \<times> go_error"
    and ?m = "[(''c'', \<lparr>ou_user = 1, ou_at = 0, ou_addr = ''a'', ou_conn = Some True\<rparr>)]"
  obtain d m where r: "BlockByIPs ?p ?e 7 [''a''] [] ?m = (None, d, m)"
    by (simp add: BlockIP_def)
  from BlockByIPs_effect [OF r] have "m = [(''c'', \<lparr>ou_user = 1, ou_at = 0, ou_addr = ''a'', ou_conn = Some False\<rparr>)]"
    by (simp del: not_None_eq)
  with r show ?thesis by simp
qed

end
