(* ===== verification/Port_Pool.thy ===== *)
theory Port_Pool
  imports Prelude
begin

text \<open>
  The public port pool of the tunnel server (\<open>internal/xtpro/server/server.go\<close>, the fields
  \<open>publicPortStart\<close>, \<open>publicPortEnd\<close>, \<open>availablePorts\<close> and \<open>usedPorts\<close>) and its contract as the
  locale \<open>port_allocator\<close>. \<open>usedPorts\<close> is a \<open>map[int]bool\<close> that only ever holds \<open>true\<close>: it is
  the set of its keys.
\<close>

record port_pool =
  pp_start :: int
  pp_end :: int
  pp_avail :: "int list"
  pp_used :: "int set"

text \<open>The part of \<open>newServer\<close> that fills the pool.\<close>

definition new_pool :: "int \<Rightarrow> int \<Rightarrow> port_pool" where
  "new_pool lo hi = \<lparr>pp_start = lo, pp_end = hi, pp_avail = [lo..hi], pp_used = {}\<rparr>"

definition spare_port :: int where
  "spare_port = 10000"

definition getNextPublicPort :: "port_pool \<Rightarrow> int \<Rightarrow> int \<times> port_pool" where
  "getNextPublicPort p requestedPort =
     (if pp_start p \<le> requestedPort \<and> requestedPort \<le> pp_end p \<and> requestedPort \<notin> pp_used p
      then (requestedPort, p\<lparr>pp_avail := remove1 requestedPort (pp_avail p),
                             pp_used := insert requestedPort (pp_used p)\<rparr>)
      else (case pp_avail p of
          [] \<Rightarrow> (spare_port, p)
        | port # rest \<Rightarrow> (port, p\<lparr>pp_avail := rest, pp_used := insert port (pp_used p)\<rparr>)))"

definition releasePort :: "port_pool \<Rightarrow> int \<Rightarrow> port_pool" where
  "releasePort p port =
     (if port \<notin> pp_used p then p
      else p\<lparr>pp_used := pp_used p - {port}, pp_avail := sort (pp_avail p @ [port])\<rparr>)"

subsection \<open>The pool invariant\<close>

definition pool_inv :: "port_pool \<Rightarrow> bool" where
  "pool_inv p \<longleftrightarrow> sorted (pp_avail p) \<and> distinct (pp_avail p)
     \<and> set (pp_avail p) \<inter> pp_used p = {}
     \<and> set (pp_avail p) \<union> pp_used p = {pp_start p .. pp_end p}"

lemma pool_inv_new: "pool_inv (new_pool lo hi)"
  by (simp add: pool_inv_def new_pool_def)

lemma used_new_pool [simp]: "pp_used (new_pool lo hi) = {}"
  by (simp add: new_pool_def)

lemma pool_inv_alloc: "pool_inv p \<Longrightarrow> pool_inv (snd (getNextPublicPort p r))"
  by (auto simp: pool_inv_def getNextPublicPort_def sorted_remove1 set_remove1_eq
      split: list.splits)

lemma pool_inv_release: "pool_inv p \<Longrightarrow> pool_inv (releasePort p port)"
  by (auto simp: pool_inv_def releasePort_def)

lemma pool_range_alloc [simp]:
  "pp_start (snd (getNextPublicPort p r)) = pp_start p" "pp_end (snd (getNextPublicPort p r)) = pp_end p"
  by (simp_all add: getNextPublicPort_def split: list.split)

lemma pool_range_release [simp]: "pp_start (releasePort p n) = pp_start p" "pp_end (releasePort p n) = pp_end p"
  by (simp_all add: releasePort_def)

lemma alloc_used:
  assumes "pool_inv p" and "getNextPublicPort p r = (n, p')"
  shows "(n \<notin> pp_used p \<and> pp_used p' = insert n (pp_used p)) \<or> (n = spare_port \<and> p' = p)"
  using assms by (auto simp: getNextPublicPort_def pool_inv_def split: if_splits list.splits)

lemma alloc_fresh:
  assumes "pool_inv p" and "pp_avail p \<noteq> []" and "getNextPublicPort p r = (n, p')"
  shows "n \<notin> pp_used p \<and> pp_start p \<le> n \<and> n \<le> pp_end p \<and> pp_used p' = insert n (pp_used p)"
  using assms by (auto simp: getNextPublicPort_def pool_inv_def split: if_splits list.splits)

lemma release_used: "pp_used (releasePort p n) = pp_used p - {n}"
  by (auto simp: releasePort_def)

lemma release_alloc_again:
  assumes "pool_inv p" and "n \<in> pp_used p"
  shows "fst (getNextPublicPort (releasePort p n) n) = n"
  using assms by (auto simp: getNextPublicPort_def releasePort_def pool_inv_def)

subsection \<open>The contract of an allocator\<close>

text \<open>
  \<open>ports_held spare used own\<close>: every owner's port, the spare one apart, is marked used and has no
  other owner.
\<close>

definition ports_held :: "int \<Rightarrow> int set \<Rightarrow> ('k \<Rightarrow> int option) \<Rightarrow> bool" where
  "ports_held spare used own \<longleftrightarrow>
     (\<forall>k n. own k = Some n \<and> n \<noteq> spare \<longrightarrow> n \<in> used \<and> (\<forall>k'. own k' = Some n \<longrightarrow> k' = k))"

locale port_allocator =
  fixes alloc :: "'p \<Rightarrow> int \<Rightarrow> int \<times> 'p"
    and release :: "'p \<Rightarrow> int \<Rightarrow> 'p"
    and used :: "'p \<Rightarrow> int set"
    and spare :: int
    and invar :: "'p \<Rightarrow> bool"
  assumes invar_alloc: "invar p \<Longrightarrow> alloc p r = (n, p') \<Longrightarrow> invar p'"
    and invar_release: "invar p \<Longrightarrow> invar (release p n)"
    and used_alloc: "invar p \<Longrightarrow> alloc p r = (n, p') \<Longrightarrow>
          (n \<notin> used p \<and> used p' = insert n (used p)) \<or> (n = spare \<and> used p' = used p)"
    and used_release: "invar p \<Longrightarrow> used (release p n) = used p - {n}"
begin

lemma held_none: "ports_held spare U (\<lambda>_. None)"
  by (simp add: ports_held_def)

lemma held_alloc:
  assumes "invar p" and "ports_held spare (used p) own" and "alloc p r = (n, p')"
  shows "ports_held spare (used p') (own(k \<mapsto> n))"
proof -
  consider "n \<notin> used p" "used p' = insert n (used p)" | "n = spare" "used p' = used p"
    using used_alloc [OF assms(1,3)] by blast
  then show ?thesis
  proof cases
    case 1
    with assms(2) show ?thesis unfolding ports_held_def by (auto split: if_splits)
  next
    case 2
    with assms(2) show ?thesis by (auto simp: ports_held_def split: if_splits)
  qed
qed

lemma held_drop: "ports_held spare U own \<Longrightarrow> ports_held spare U (own(k := None))"
  by (auto simp: ports_held_def)

lemma held_release:
  assumes "invar p" and "ports_held spare (used p) own" and "own k = Some n"
  shows "ports_held spare (used (release p n)) (own(k := None))"
  using assms by (auto simp: ports_held_def used_release split: if_splits)

end

interpretation pool: port_allocator getNextPublicPort releasePort pp_used spare_port pool_inv
proof unfold_locales
  show "pool_inv p'" if "pool_inv p" "getNextPublicPort p r = (n, p')" for p r n p'
    using pool_inv_alloc [of p r] that by simp
  show "pool_inv (releasePort p n)" if "pool_inv p" for p n
    using that by (rule pool_inv_release)
  show "(n \<notin> pp_used p \<and> pp_used p' = insert n (pp_used p)) \<or> (n = spare_port \<and> pp_used p' = pp_used p)"
    if "pool_inv p" "getNextPublicPort p r = (n, p')" for p r n p'
    using alloc_used [OF that] by auto
  show "pp_used (releasePort p n) = pp_used p - {n}" for p n
    by (rule release_used)
qed

subsection \<open>Properties\<close>

text \<open>The pools that allocations and releases can reach from a fresh pool.\<close>

inductive pool_reachable :: "int \<Rightarrow> int \<Rightarrow> port_pool \<Rightarrow> bool" for lo hi where
  pool_start: "pool_reachable lo hi (new_pool lo hi)"
| pool_alloc: "pool_reachable lo hi p \<Longrightarrow> pool_reachable lo hi (snd (getNextPublicPort p r))"
| pool_release: "pool_reachable lo hi p \<Longrightarrow> pool_reachable lo hi (releasePort p n)"

lemma pool_reachable_inv: "pool_reachable lo hi p \<Longrightarrow> pool_inv p \<and> pp_start p = lo \<and> pp_end p = hi"
  by (induction rule: pool_reachable.induct)
     (auto simp: pool_inv_new pool_inv_alloc pool_inv_release, auto simp: new_pool_def)

text \<open>in every reachable pool the free and the used ports partition the configured range, the free list is
  sorted and free of duplicates, and the next allocation either returns a port of the range that was
  not in use and marks it used, or finds no free port and returns the fixed spare port 10000
  without recording it.\<close>

lemma port_pool_partition:
  assumes "pool_reachable lo hi p" and "getNextPublicPort p r = (n, p')"
  shows "set (pp_avail p) \<union> pp_used p = {lo..hi} \<and> set (pp_avail p) \<inter> pp_used p = {}
    \<and> sorted (pp_avail p) \<and> distinct (pp_avail p)
    \<and> (if pp_avail p = [] then n = spare_port \<and> p' = p
       else lo \<le> n \<and> n \<le> hi \<and> n \<notin> pp_used p \<and> pp_used p' = insert n (pp_used p)
         \<and> (lo \<le> r \<and> r \<le> hi \<and> r \<notin> pp_used p \<longrightarrow> n = r))"
proof -
  have inv: "pool_inv p" and lo: "pp_start p = lo" and hi: "pp_end p = hi"
    using pool_reachable_inv [OF assms(1)] by auto
  have "n = spare_port \<and> p' = p" if "pp_avail p = []"
    using that assms(2) inv by (auto simp: getNextPublicPort_def pool_inv_def split: if_splits)
  moreover have "lo \<le> r \<and> r \<le> hi \<and> r \<notin> pp_used p \<Longrightarrow> n = r"
    using assms(2) lo hi by (auto simp: getNextPublicPort_def)
  ultimately show ?thesis
    using inv lo hi alloc_fresh [OF inv _ assms(2)] by (auto simp: pool_inv_def)
qed

lemma port_pool_partition_witness:
  "fst (getNextPublicPort (snd (getNextPublicPort (new_pool 8000 8002) 8001)) 8001) = 8000
   \<and> 8000 \<notin> pp_used (snd (getNextPublicPort (new_pool 8000 8002) 8001))"
proof -
  let ?p = "snd (getNextPublicPort (new_pool 8000 8002) 8001)"
  have a: "getNextPublicPort ?p 8001 = (8000, ?p\<lparr>pp_avail := [8002], pp_used := {8000, 8001}\<rparr>)"
    by (simp add: getNextPublicPort_def new_pool_def upto.simps)
  from port_pool_partition [OF pool_alloc [OF pool_start] a] a show ?thesis
    by (simp add: getNextPublicPort_def new_pool_def upto.simps)
qed

text \<open>A client that reconnects gets its port back: in every reachable pool, releasing a used port and
  requesting it again returns the same port.\<close>

lemma port_pool_reconnect:
  assumes "pool_reachable lo hi p" and "n \<in> pp_used p"
  shows "fst (getNextPublicPort (releasePort p n) n) = n
    \<and> pp_used (snd (getNextPublicPort (releasePort p n) n)) = pp_used p"
proof -
  have inv: "pool_inv p" using pool_reachable_inv [OF assms(1)] by blast
  with assms(2) show ?thesis
    by (auto simp: getNextPublicPort_def releasePort_def pool_inv_def)
qed

lemma port_pool_reconnect_witness:
  "fst (getNextPublicPort (releasePort (snd (getNextPublicPort (new_pool 1 3) 2)) 2) 2) = 2"
  by (rule port_pool_reconnect [OF pool_alloc [OF pool_start], THEN conjunct1])
     (simp add: getNextPublicPort_def new_pool_def)

end
