(* ===== verification/Udp_Wire.thy ===== *)
theory Udp_Wire
  imports Prelude
begin

text \<open>
  The datagrams of the tunnel's UDP control channel (\<open>buildUDPMessage\<close> and \<open>decodeUDPField\<close> of
  \<open>internal/xtpro/server/server.go\<close>) and the encryption frame of their payloads
  (\<open>internal/xtpro/tunnel/crypto.go\<close>).

  A packet is a string of bytes. The primitives of \<open>crypto/aes\<close> and \<open>crypto/cipher\<close> are the arguments
  \<open>seal\<close> and \<open>unseal\<close> (key, nonce and text), the outcome of drawing the nonce at random is an argument
  \<open>rnd\<close> too.
\<close>

type_synonym packet = string

definition udpMsgHandshake :: char where "udpMsgHandshake = CHR 0x01"
definition udpMsgData :: char where "udpMsgData = CHR 0x02"
definition udpMsgClose :: char where "udpMsgClose = CHR 0x03"
definition udpMsgPing :: char where "udpMsgPing = CHR 0x04"
definition udpMsgPong :: char where "udpMsgPong = CHR 0x05"

lemmas udp_msgs = udpMsgHandshake_def udpMsgData_def udpMsgClose_def udpMsgPing_def udpMsgPong_def

text \<open>\<open>binary.BigEndian.PutUint16(b, uint16(n))\<close>: the conversion keeps the low 16 bits.\<close>

definition put_uint16 :: "nat \<Rightarrow> packet" where
  "put_uint16 n = [char_of (n div 256 mod 256), char_of (n mod 256)]"

definition get_uint16 :: "packet \<Rightarrow> nat" where
  "get_uint16 b = of_char (b ! 0) * 256 + of_char (b ! 1)"

definition buildUDPMessage :: "char \<Rightarrow> string \<Rightarrow> string \<Rightarrow> packet \<Rightarrow> packet" where
  "buildUDPMessage msgType key ident payload =
     msgType # put_uint16 (length key) @ key
       @ (if msgType \<noteq> udpMsgHandshake then put_uint16 (length ident) @ ident else [])
       @ payload"

definition decodeUDPField :: "packet \<Rightarrow> nat \<Rightarrow> string \<times> nat \<times> bool" where
  "decodeUDPField packet offset =
     (if offset + 2 > length packet then ([], offset, False)
      else (let l = get_uint16 (take 2 (drop offset packet)); off = offset + 2
            in if off + l > length packet then ([], off, False)
               else (take l (drop off packet), off + l, True)))"

subsection \<open>Lemmas on the length prefix\<close>

lemma length_put_uint16 [simp]: "length (put_uint16 n) = 2"
  by (simp add: put_uint16_def)

lemma get_put_uint16: "get_uint16 (put_uint16 n) = n mod 65536"
proof -
  have "n mod 65536 = n div 256 mod 256 * 256 + n mod 256"
    using mod_mult2_eq [of n 256 256] by simp
  then show ?thesis by (simp add: get_uint16_def put_uint16_def of_char_of)
qed

lemma decode_field_at:
  assumes "length f < 65536" and "p = a @ put_uint16 (length f) @ f @ b"
  shows "decodeUDPField p (length a) = (f, length a + 2 + length f, True)"
proof -
  have "drop (length a + 2) (a @ put_uint16 (length f) @ f @ b) = f @ b"
    by (simp flip: drop_drop)
  moreover have "take 2 (drop (length a) p) = put_uint16 (length f)"
    using assms(2) by (simp add: put_uint16_def)
  ultimately show ?thesis
    using assms by (simp add: decodeUDPField_def get_put_uint16 Let_def)
qed

subsection \<open>The encryption frame\<close>

definition nonce_size :: nat where
  "nonce_size = 12"

definition valid_aes_key :: "string \<Rightarrow> bool" where
  "valid_aes_key key \<longleftrightarrow> length key = 16 \<or> length key = 24 \<or> length key = 32"

text \<open>\<open>EncryptUDP\<close>: the random nonce, then the sealed text; \<open>aes.NewCipher\<close> refuses other key lengths.\<close>

definition EncryptUDP ::
  "(string \<Rightarrow> string \<Rightarrow> string \<Rightarrow> string) \<Rightarrow> string + string \<Rightarrow> string \<Rightarrow> string \<Rightarrow> string + string" where
  "EncryptUDP seal rnd key plaintext =
     (if \<not> valid_aes_key key then Inl ''invalid key size''
      else (case rnd of Inl err \<Rightarrow> Inl err
            | Inr nonce \<Rightarrow> Inr (nonce @ seal key nonce plaintext)))"

definition DecryptUDP ::
  "(string \<Rightarrow> string \<Rightarrow> string \<Rightarrow> string option) \<Rightarrow> string \<Rightarrow> string \<Rightarrow> string + string" where
  "DecryptUDP unseal key ciphertext =
     (if \<not> valid_aes_key key then Inl ''invalid key size''
      else if length ciphertext < nonce_size then Inl ''ciphertext too short''
      else (case unseal key (take nonce_size ciphertext) (drop nonce_size ciphertext) of
              None \<Rightarrow> Inl ''message authentication failed''
            | Some pt \<Rightarrow> Inr pt))"

lemma udp_message_fields:
  assumes "length key < 65536" and "length ident < 65536"
  shows "decodeUDPField (buildUDPMessage t key ident payload) 1 = (key, 3 + length key, True)
    \<and> (if t = udpMsgHandshake
       then drop (3 + length key) (buildUDPMessage t key ident payload) = payload
       else decodeUDPField (buildUDPMessage t key ident payload) (3 + length key)
              = (ident, 5 + length key + length ident, True)
          \<and> drop (5 + length key + length ident) (buildUDPMessage t key ident payload) = payload)"
proof -
  let ?p = "buildUDPMessage t key ident payload"
  have k: "?p = [t] @ put_uint16 (length key) @ key
      @ ((if t \<noteq> udpMsgHandshake then put_uint16 (length ident) @ ident else []) @ payload)"
    by (simp add: buildUDPMessage_def)
  from decode_field_at [OF assms(1) k]
  have 1: "decodeUDPField ?p 1 = (key, 3 + length key, True)" by simp
  show ?thesis
  proof (cases "t = udpMsgHandshake")
    case True
    then have "drop (3 + length key) ?p = payload" by (simp add: buildUDPMessage_def put_uint16_def numeral_3_eq_3)
    with True 1 show ?thesis by simp
  next
    case False
    then have i: "?p = ([t] @ put_uint16 (length key) @ key) @ put_uint16 (length ident) @ ident @ payload"
      by (simp add: buildUDPMessage_def)
    from decode_field_at [OF assms(2) i]
    have 2: "decodeUDPField ?p (3 + length key) = (ident, 5 + length key + length ident, True)"
      by (simp add: numeral_eq_Suc)
    let ?a = "[t] @ put_uint16 (length key) @ key @ put_uint16 (length ident) @ ident"
    have "?p = ?a @ payload" and "length ?a = 5 + length key + length ident"
      using i by simp_all
    then have "drop (5 + length key + length ident) ?p = payload"
      by (metis append_eq_conv_conj)
    with 1 2 False show ?thesis by simp
  qed
qed

text \<open>The forms the handlers use.\<close>

lemma udp_message_decodes:
  assumes "length key < 65536" and "length ident < 65536" and "t \<noteq> udpMsgHandshake"
  shows "decodeUDPField (buildUDPMessage t key ident payload) (Suc 0) = (key, 3 + length key, True)"
    and "decodeUDPField (buildUDPMessage t key ident payload) (3 + length key) = (ident, 5 + length key + length ident, True)"
    and "drop (5 + length key + length ident) (buildUDPMessage t key ident payload) = payload"
  using udp_message_fields [OF assms(1,2), of t payload] assms(3) by simp_all

lemma buildUDPMessage_head [simp]: "buildUDPMessage t key ident payload ! 0 = t"
  by (simp add: buildUDPMessage_def)

lemma length_buildUDPMessage [simp]: "\<not> length (buildUDPMessage t key ident payload) < 3"
  by (simp add: buildUDPMessage_def)

lemma decrypt_sealed:
  assumes "unseal k nonce (seal k nonce p) = Some p" and "length nonce = nonce_size" and "valid_aes_key k"
  shows "DecryptUDP unseal k (nonce @ seal k nonce p) = Inr p"
  using assms by (simp add: DecryptUDP_def)

subsection \<open>Text encodings of the control plane\<close>

definition base64_alphabet :: string where
  "base64_alphabet = ''ABCDEFGHIJKLMNOPQRSTUVWXYZabcdefghijklmnopqrstuvwxyz0123456789+/''"

definition b64 :: "nat \<Rightarrow> char" where
  "b64 n = base64_alphabet ! (n mod 64)"

text \<open>\<open>base64.StdEncoding.EncodeToString\<close>.\<close>

fun base64_std :: "string \<Rightarrow> string" where
  "base64_std [] = []"
| "base64_std [a] = (let x = of_char a * 65536 in [b64 (x div 262144), b64 (x div 4096), CHR ''='', CHR ''=''])"
| "base64_std [a, b] = (let x = of_char a * 65536 + of_char b * 256
     in [b64 (x div 262144), b64 (x div 4096), b64 (x div 64), CHR ''=''])"
| "base64_std (a # b # c # xs) = (let x = of_char a * 65536 + of_char b * 256 + of_char c
     in [b64 (x div 262144), b64 (x div 4096), b64 (x div 64), b64 x] @ base64_std xs)"

definition hex_digits :: string where
  "hex_digits = ''0123456789abcdef''"

definition hex_string :: "string \<Rightarrow> string" where
  "hex_string bs = concat (map (\<lambda>c. [hex_digits ! (of_char c div 16), hex_digits ! (of_char c mod 16)]) bs)"

text \<open>\<open>GenerateID\<close>: the outcome of reading 16 random bytes, in hexadecimal.\<close>

definition GenerateID :: "string + string \<Rightarrow> string + string" where
  "GenerateID rnd = (case rnd of Inl err \<Rightarrow> Inl err | Inr bs \<Rightarrow> Inr (hex_string bs))"

lemma length_hex_string [simp]: "length (hex_string bs) = 2 * length bs"
  by (induction bs) (simp_all add: hex_string_def)

subsection \<open>Properties\<close>

text \<open>C19: a datagram built for any type but the handshake decodes to the key, the identifier and the payload it
  was built from, when both fields are shorter than 65536 bytes; a handshake decodes to its key and
  payload.\<close>

theorem udp_message_roundtrip:
  assumes "length key < 65536" and "length ident < 65536"
  shows "decodeUDPField (buildUDPMessage t key ident payload) 1 = (key, 3 + length key, True)
    \<and> (if t = udpMsgHandshake
       then drop (3 + length key) (buildUDPMessage t key ident payload) = payload
       else decodeUDPField (buildUDPMessage t key ident payload) (3 + length key)
              = (ident, 5 + length key + length ident, True)
          \<and> drop (5 + length key + length ident) (buildUDPMessage t key ident payload) = payload)"
  by (rule udp_message_fields [OF assms])

theorem udp_message_roundtrip_witness:
  "decodeUDPField (buildUDPMessage udpMsgData ''key'' ''id'' ''xyz'') 1 = (''key'', 6, True)"
  using udp_message_roundtrip [of "''key''" "''id''" udpMsgData "''xyz''"] by simp

text \<open>C20: decoding a field of an arbitrary packet never reads past its end: the returned offset lies within the
  packet, the field is exactly the bytes between the length prefix and that offset, and a field whose
  prefix claims more bytes than the packet has is refused.\<close>

theorem decodeUDPField_bounds:
  assumes "decodeUDPField p off = (f, nxt, ok)" and "off \<le> length p"
  shows "nxt \<le> length p
    \<and> (ok \<longrightarrow> nxt = off + 2 + length f \<and> f = take (nxt - (off + 2)) (drop (off + 2) p))
    \<and> (ok \<longleftrightarrow> off + 2 \<le> length p \<and> off + 2 + get_uint16 (take 2 (drop off p)) \<le> length p)"
  using assms by (auto simp: decodeUDPField_def Let_def split: if_splits)

theorem decodeUDPField_bounds_witness:
  "decodeUDPField [CHR 0x02, CHR 0x00, CHR 0x05, CHR ''a''] 1 = ([], 3, False) \<and> (3::nat) \<le> 4"
proof -
  have d: "decodeUDPField [CHR 0x02, CHR 0x00, CHR 0x05, CHR ''a''] 1 = ([], 3, False)"
    by (simp add: decodeUDPField_def get_uint16_def)
  from decodeUDPField_bounds [OF d] d show ?thesis by simp
qed

text \<open>what \<open>EncryptUDP\<close> frames, \<open>DecryptUDP\<close> with the same key opens to the same plaintext, whenever the
  cipher opens what it sealed under a nonce of the standard size.\<close>

lemma encrypt_udp_roundtrip:
  assumes "unseal key nonce (seal key nonce plaintext) = Some plaintext"
    and "length nonce = nonce_size" and "EncryptUDP seal (Inr nonce) key plaintext = Inr c"
  shows "DecryptUDP unseal key c = Inr plaintext"
  using assms by (auto simp: EncryptUDP_def DecryptUDP_def split: if_splits)

lemma encrypt_udp_roundtrip_witness:
  "DecryptUDP (\<lambda>k n c. if take 1 c = take 1 k then Some (drop 1 c) else None) (replicate 16 CHR ''k'')
     (replicate 12 CHR ''n'' @ CHR ''k'' # ''hi'') = Inr ''hi''"
  by (rule encrypt_udp_roundtrip [where seal = "\<lambda>k n t. take 1 k @ t" and nonce = "replicate 12 CHR ''n''"])
     (simp_all add: nonce_size_def EncryptUDP_def valid_aes_key_def)

end
