(* ===== verification/Tunnel_Server.thy ===== *)
theory Tunnel_Server
  imports Port_Pool Udp_Wire
begin

text \<open>
  The state of the tunnel server (\<open>internal/xtpro/server/server.go\<close>) and its TCP side: the control
  messages of \<open>tunnel/messages.go\<close>, registration, the control loop, the heartbeat, kicking, the
  proxy rendezvous, the byte counters and the dashboard views.

  Go's pointers to sessions are handles (natural numbers) into the stores \<open>ts_sess\<close> and \<open>ts_usess\<close>, so that
  \<open>existing == session\<close> compares handles and a session outlives its entry in \<open>clients\<close>. What the
  environment decides (random numbers, the outcome of an I/O call, the clock) is an argument. Times are
  nanoseconds.
\<close>

subsection \<open>Messages\<close>

record tunnel_msg =
  tm_Type :: string
  tm_Key :: string
  tm_ClientID :: string
  tm_RemotePort :: int
  tm_RequestedPort :: int
  tm_Target :: string
  tm_ID :: string
  tm_Error :: string
  tm_Version :: string
  tm_Protocol :: string
  tm_RemoteAddr :: string
  tm_Payload :: string
  tm_Subdomain :: string
  tm_Method :: string
  tm_Path :: string
  tm_Headers :: "(string, string) gomap"
  tm_Body :: string
  tm_StatusCode :: int
  tm_UDPSecret :: string
  tm_BaseDomain :: string

text \<open>The zero value \<open>tunnel.Message{}\<close>.\<close>

definition no_msg :: tunnel_msg where
  "no_msg = \<lparr>tm_Type = [], tm_Key = [], tm_ClientID = [], tm_RemotePort = 0, tm_RequestedPort = 0,
     tm_Target = [], tm_ID = [], tm_Error = [], tm_Version = [], tm_Protocol = [], tm_RemoteAddr = [],
     tm_Payload = [], tm_Subdomain = [], tm_Method = [], tm_Path = [], tm_Headers = [], tm_Body = [],
     tm_StatusCode = 0, tm_UDPSecret = [], tm_BaseDomain = []\<rparr>"

definition tunnel_Version :: string where
  "tunnel_Version = ''7.5''"

subsection \<open>State\<close>

record client_session =
  cs_clientID :: string
  cs_key :: string
  cs_target :: string
  cs_protocol :: string
  cs_publicPort :: int
  cs_lastSeen :: int
  cs_done :: bool
  cs_bytesUp :: uint64
  cs_bytesDown :: uint64
  cs_remoteIP :: string
  cs_publicListener :: bool
  cs_publicUDP :: bool
  cs_activeProxy :: int
  cs_udpSecret :: "string option"

record udp_session =
  us_id :: string
  us_clientKey :: string
  us_udpSecret :: "string option"
  us_owner :: "nat option"
  us_conn :: bool
  us_remoteAddr :: string
  us_clientAddr :: "string option"
  us_publicPeer :: "string option"
  us_closed :: bool
  us_lastActive :: int

record tunnel_server =
  ts_publicHost :: string
  ts_pool :: port_pool
  ts_clients :: "(string, nat) gomap"
  ts_sess :: "(nat, client_session) gomap"
  ts_next :: nat
  ts_proxyWaiting :: "(string, nat) gomap"
  ts_chan :: "(nat, nat list) gomap"
  ts_nextChan :: nat
  ts_totalConnections :: uint64
  ts_activeConnections :: int
  ts_totalBytesUp :: uint64
  ts_totalBytesDown :: uint64
  ts_udpServer :: bool
  ts_udpSessions :: "(string, nat) gomap"
  ts_usess :: "(nat, udp_session) gomap"
  ts_nextU :: nat
  ts_udpClientAddrs :: "(string, string) gomap"

definition newServer :: "string \<Rightarrow> int \<Rightarrow> int \<Rightarrow> tunnel_server" where
  "newServer host lo hi = \<lparr>ts_publicHost = host, ts_pool = new_pool lo hi, ts_clients = [], ts_sess = [],
     ts_next = 0, ts_proxyWaiting = [], ts_chan = [], ts_nextChan = 0, ts_totalConnections = 0,
     ts_activeConnections = 0, ts_totalBytesUp = 0, ts_totalBytesDown = 0, ts_udpServer = False,
     ts_udpSessions = [], ts_usess = [], ts_nextU = 0, ts_udpClientAddrs = []\<rparr>"

text \<open>Updating the session a handle points to.\<close>

definition upd_sess :: "nat \<Rightarrow> (client_session \<Rightarrow> client_session) \<Rightarrow> tunnel_server \<Rightarrow> tunnel_server" where
  "upd_sess sid f st = (case map_of (ts_sess st) sid of None \<Rightarrow> st
     | Some cs \<Rightarrow> st\<lparr>ts_sess := AList.update sid (f cs) (ts_sess st)\<rparr>)"

lemma upd_sess_simps [simp]:
  "ts_publicHost (upd_sess sid f st) = ts_publicHost st" "ts_pool (upd_sess sid f st) = ts_pool st"
  "ts_clients (upd_sess sid f st) = ts_clients st" "ts_next (upd_sess sid f st) = ts_next st"
  "ts_proxyWaiting (upd_sess sid f st) = ts_proxyWaiting st" "ts_chan (upd_sess sid f st) = ts_chan st"
  "ts_nextChan (upd_sess sid f st) = ts_nextChan st"
  "ts_totalConnections (upd_sess sid f st) = ts_totalConnections st"
  "ts_activeConnections (upd_sess sid f st) = ts_activeConnections st"
  "ts_totalBytesUp (upd_sess sid f st) = ts_totalBytesUp st"
  "ts_totalBytesDown (upd_sess sid f st) = ts_totalBytesDown st"
  "ts_udpServer (upd_sess sid f st) = ts_udpServer st"
  "ts_udpSessions (upd_sess sid f st) = ts_udpSessions st" "ts_usess (upd_sess sid f st) = ts_usess st"
  "ts_nextU (upd_sess sid f st) = ts_nextU st" "ts_udpClientAddrs (upd_sess sid f st) = ts_udpClientAddrs st"
  by (simp_all add: upd_sess_def split: option.split)

lemma map_of_upd_sess:
  "map_of (ts_sess (upd_sess sid f st)) k =
     (if k = sid then map_option f (map_of (ts_sess st) sid) else map_of (ts_sess st) k)"
  by (simp add: upd_sess_def map_of_update split: option.split)

lemma keys_upd_sess: "dom (map_of (ts_sess (upd_sess sid f st))) = dom (map_of (ts_sess st))"
  by (auto simp: map_of_upd_sess split: if_splits)

lemma map_of_upd_sess_port:
  assumes "\<And>cs. cs_publicPort (f cs) = cs_publicPort cs"
  shows "map_option cs_publicPort (map_of (ts_sess (upd_sess sid f st)) k) =
    map_option cs_publicPort (map_of (ts_sess st) k)"
  using assms by (simp add: map_of_upd_sess option.map_comp comp_def)

subsection \<open>Sessions\<close>

text \<open>\<open>Close\<close> of a client session; the \<open>sync.Once\<close> makes the second call do nothing.\<close>

definition session_Close :: "client_session \<Rightarrow> client_session" where
  "session_Close cs = (if cs_done cs then cs
     else cs\<lparr>cs_done := True, cs_publicListener := False, cs_publicUDP := False\<rparr>)"

definition addClient :: "nat \<Rightarrow> tunnel_server \<Rightarrow> tunnel_server" where
  "addClient sid st = (case map_of (ts_sess st) sid of None \<Rightarrow> st
     | Some cs \<Rightarrow> st\<lparr>ts_clients := AList.update (cs_clientID cs) sid (ts_clients st)\<rparr>)"

definition removeClient :: "nat \<Rightarrow> tunnel_server \<Rightarrow> tunnel_server" where
  "removeClient sid st = (case map_of (ts_sess st) sid of None \<Rightarrow> st
     | Some cs \<Rightarrow>
        upd_sess sid session_Close
          (if map_of (ts_clients st) (cs_clientID cs) = Some sid
           then st\<lparr>ts_clients := AList.delete (cs_clientID cs) (ts_clients st),
                   ts_pool := releasePort (ts_pool st) (cs_publicPort cs)\<rparr>
           else st))"

definition kickClient :: "string \<Rightarrow> tunnel_server \<Rightarrow> bool \<times> tunnel_server" where
  "kickClient clientID st =
     (let cid = TrimSpace clientID
      in if cid = [] then (False, st)
         else (case map_of (ts_clients st) cid of
             None \<Rightarrow> (False, st)
           | Some sid \<Rightarrow> (True, removeClient sid st)))"

text \<open>The literal of \<open>handleConnection\<close>.\<close>

definition new_session :: "int \<Rightarrow> string \<Rightarrow> client_session" where
  "new_session now host = \<lparr>cs_clientID = [], cs_key = [], cs_target = [], cs_protocol = ''tcp'',
     cs_publicPort = 0, cs_lastSeen = now, cs_done = False, cs_bytesUp = 0, cs_bytesDown = 0,
     cs_remoteIP = host, cs_publicListener = False, cs_publicUDP = False, cs_activeProxy = 0,
     cs_udpSecret = None\<rparr>"

text \<open>
  \<open>client_name\<close> is the choice of the client's name; its slice expression \<open>key[:8]\<close> may be out of range.
  \<open>registered\<close> is the part of \<open>handleClient\<close> between that choice and the control loop,
  up to the reply it sends.
\<close>

definition client_name :: "tunnel_msg \<Rightarrow> string \<Rightarrow> string go" where
  "client_name msg key =
     (if TrimSpace (tm_ClientID msg) = []
      then go_bind (go_slice key 0 8) (\<lambda>pre. Ret (''client-'' @ pre))
      else Ret (TrimSpace (tm_ClientID msg)))"

definition wanted_protocol :: "tunnel_msg \<Rightarrow> string" where
  "wanted_protocol msg = (let p = ToLower (TrimSpace (tm_Protocol msg)) in if p = [] then ''tcp'' else p)"

definition registered ::
  "string + string \<Rightarrow> nat \<Rightarrow> tunnel_msg \<Rightarrow> string \<Rightarrow> string \<Rightarrow> tunnel_server \<Rightarrow> tunnel_msg \<times> tunnel_server" where
  "registered keygen sid msg key cid st =
     (let (port, pool) = getNextPublicPort (ts_pool st) (tm_RequestedPort msg);
          secret = (case keygen of Inl _ \<Rightarrow> None | Inr k \<Rightarrow> Some k);
          st1 = upd_sess sid (\<lambda>cs. cs\<lparr>cs_clientID := cid, cs_key := key, cs_target := tm_Target msg,
                   cs_protocol := wanted_protocol msg, cs_publicPort := port, cs_udpSecret := secret\<rparr>)
                 (st\<lparr>ts_pool := pool\<rparr>)
      in (no_msg\<lparr>tm_Type := ''registered'', tm_Key := key, tm_ClientID := cid, tm_RemotePort := port,
            tm_Protocol := wanted_protocol msg, tm_Version := tunnel_Version,
            tm_UDPSecret := (case secret of None \<Rightarrow> [] | Some k \<Rightarrow> base64_std k)\<rparr>,
          addClient sid st1))"

text \<open>
  \<open>handleClient\<close> up to its control loop: \<open>rnd\<close> and \<open>keygen\<close> are the outcomes of the two random draws, \<open>enc\<close>
  the error of sending the reply.
\<close>

definition handleClient ::
  "string + string \<Rightarrow> string + string \<Rightarrow> go_error \<Rightarrow> nat \<Rightarrow> tunnel_msg \<Rightarrow> tunnel_server
    \<Rightarrow> ((string + tunnel_msg) \<times> tunnel_server) go" where
  "handleClient rnd keygen enc sid msg st =
     (case (if TrimSpace (tm_Key msg) = [] then GenerateID rnd else Inr (TrimSpace (tm_Key msg))) of
        Inl err \<Rightarrow> Ret (Inl err, st)
      | Inr key \<Rightarrow>
          go_bind (client_name msg key) (\<lambda>cid.
            (let (resp, st') = registered keygen sid msg key cid st
             in case enc of Some err \<Rightarrow> Ret (Inl err, st')
                | None \<Rightarrow> Ret (Inr resp, st'\<lparr>ts_activeConnections := ts_activeConnections st' + 1\<rparr>))))"

text \<open>
  The \<open>register\<close> case of \<open>handleConnection\<close>: a fresh session, then \<open>handleClient\<close>; when it fails before
  its loop the connection is closed and the session removed at once.
\<close>

definition handleConnection_register ::
  "string + string \<Rightarrow> string + string \<Rightarrow> go_error \<Rightarrow> int \<Rightarrow> string \<Rightarrow> tunnel_msg \<Rightarrow> tunnel_server
    \<Rightarrow> ((string + tunnel_msg) \<times> nat \<times> tunnel_server) go" where
  "handleConnection_register rnd keygen enc now host msg st =
     (let sid = ts_next st;
          st0 = st\<lparr>ts_sess := AList.update sid (new_session now host) (ts_sess st), ts_next := sid + 1\<rparr>
      in go_bind (handleClient rnd keygen enc sid msg st0) (\<lambda>(r, st').
           Ret (case r of Inl err \<Rightarrow> (Inl err, sid, removeClient sid st')
                | Inr resp \<Rightarrow> (Inr resp, sid, st'))))"

text \<open>The end of the control loop, on a decoding error: the deferred decrement, then \<open>removeClient\<close>.\<close>

definition client_loop_end :: "nat \<Rightarrow> tunnel_server \<Rightarrow> tunnel_server" where
  "client_loop_end sid st =
     removeClient sid (st\<lparr>ts_activeConnections := ts_activeConnections st - 1\<rparr>)"

subsection \<open>Heartbeat\<close>

definition clientIdleTimeout :: int where
  "clientIdleTimeout = 60 * 1000000000"

text \<open>One tick of \<open>heartbeatChecker\<close>; the second component says whether the checker goes on.\<close>

definition heartbeat_tick :: "int \<Rightarrow> nat \<Rightarrow> tunnel_server \<Rightarrow> tunnel_server \<times> bool" where
  "heartbeat_tick now sid st = (case map_of (ts_sess st) sid of None \<Rightarrow> (st, False)
     | Some cs \<Rightarrow>
        if now - cs_lastSeen cs > clientIdleTimeout then (upd_sess sid session_Close st, False)
        else (st, \<not> cs_done cs))"

subsection \<open>Public listeners\<close>

text \<open>\<open>startPublicListener\<close> and \<open>startPublicUDPListener\<close> up to their accept loops; \<open>ok\<close>: the port could be bound.\<close>

definition startPublicListener :: "bool \<Rightarrow> nat \<Rightarrow> tunnel_server \<Rightarrow> tunnel_server" where
  "startPublicListener ok sid st =
     (if ok then upd_sess sid (\<lambda>cs. if cs_done cs then cs else cs\<lparr>cs_publicListener := True\<rparr>) st else st)"

definition startPublicUDPListener :: "bool \<Rightarrow> nat \<Rightarrow> tunnel_server \<Rightarrow> tunnel_server" where
  "startPublicUDPListener ok sid st =
     (if ok then upd_sess sid (\<lambda>cs. if cs_done cs then cs else cs\<lparr>cs_publicUDP := True\<rparr>) st else st)"

text \<open>Which listeners \<open>handleClient\<close> starts.\<close>

definition listeners_of :: "string \<Rightarrow> bool \<times> bool" where
  "listeners_of protocol =
     (if protocol = ''tcp'' then (True, False) else if protocol = ''udp'' then (False, True)
      else if protocol = ''both'' then (True, True) else (False, False))"

subsection \<open>Proxy rendezvous\<close>

text \<open>
  \<open>handlePublicConnection\<close> in its phases: register a channel of capacity one under a fresh
  identifier and ask the client for a connection; then either take a connection from the channel or give up
  (timeout, or the session is done); in every case the deferred function deletes the identifier.
  Connections are numbers.
\<close>

definition proxy_wait :: "string \<Rightarrow> nat \<Rightarrow> tunnel_server \<Rightarrow> nat \<times> tunnel_msg \<times> tunnel_server" where
  "proxy_wait proxyID sid st =
     (let ch = ts_nextChan st; cs = map_of (ts_sess st) sid;
          msg = no_msg\<lparr>tm_Type := ''proxy'', tm_Key := (case cs of None \<Rightarrow> [] | Some s \<Rightarrow> cs_key s),
                  tm_ClientID := (case cs of None \<Rightarrow> [] | Some s \<Rightarrow> cs_clientID s), tm_ID := proxyID\<rparr>
      in (ch, msg, st\<lparr>ts_proxyWaiting := AList.update proxyID ch (ts_proxyWaiting st),
                      ts_chan := AList.update ch [] (ts_chan st), ts_nextChan := ch + 1\<rparr>))"

definition proxy_take :: "nat \<Rightarrow> tunnel_server \<Rightarrow> nat option \<times> tunnel_server" where
  "proxy_take ch st = (case get_or [] (ts_chan st) ch of
       [] \<Rightarrow> (None, st)
     | c # cs \<Rightarrow> (Some c, st\<lparr>ts_chan := AList.update ch cs (ts_chan st)\<rparr>))"

definition proxy_done :: "string \<Rightarrow> tunnel_server \<Rightarrow> tunnel_server" where
  "proxy_done proxyID st = st\<lparr>ts_proxyWaiting := AList.delete proxyID (ts_proxyWaiting st)\<rparr>"

text \<open>
  \<open>dispatchProxyConnection\<close>: the identifier is deleted with the lookup, the connection is sent to the
  channel; it is closed (the result is \<open>False\<close>) when nobody waits. A channel whose buffer is full would make
  the send wait ten seconds and then close the connection.
\<close>

definition dispatchProxyConnection :: "nat \<Rightarrow> string \<Rightarrow> tunnel_server \<Rightarrow> bool \<times> tunnel_server" where
  "dispatchProxyConnection conn proxyID st = (case map_of (ts_proxyWaiting st) proxyID of
       None \<Rightarrow> (False, st)
     | Some ch \<Rightarrow>
         (let st' = st\<lparr>ts_proxyWaiting := AList.delete proxyID (ts_proxyWaiting st)\<rparr>
          in if get_or [] (ts_chan st) ch = []
             then (True, st'\<lparr>ts_chan := AList.update ch [conn] (ts_chan st)\<rparr>)
             else (False, st')))"

subsection \<open>Byte counters\<close>

text \<open>\<open>handleProxyStream\<close>: its start, the end of each of the two copies, its end.\<close>

definition proxy_stream_begin :: "nat \<Rightarrow> tunnel_server \<Rightarrow> tunnel_server" where
  "proxy_stream_begin sid st =
     (upd_sess sid (\<lambda>cs. cs\<lparr>cs_activeProxy := cs_activeProxy cs + 1\<rparr>) st)
       \<lparr>ts_totalConnections := ts_totalConnections st + 1\<rparr>"

definition count_up :: "nat \<Rightarrow> uint64 \<Rightarrow> tunnel_server \<Rightarrow> tunnel_server" where
  "count_up sid n st =
     (upd_sess sid (\<lambda>cs. cs\<lparr>cs_bytesUp := cs_bytesUp cs + n\<rparr>) st)\<lparr>ts_totalBytesUp := ts_totalBytesUp st + n\<rparr>"

definition count_down :: "nat \<Rightarrow> uint64 \<Rightarrow> tunnel_server \<Rightarrow> tunnel_server" where
  "count_down sid n st =
     (upd_sess sid (\<lambda>cs. cs\<lparr>cs_bytesDown := cs_bytesDown cs + n\<rparr>) st)\<lparr>ts_totalBytesDown := ts_totalBytesDown st + n\<rparr>"

definition proxy_stream_end :: "nat \<Rightarrow> tunnel_server \<Rightarrow> tunnel_server" where
  "proxy_stream_end sid st = upd_sess sid (\<lambda>cs. cs\<lparr>cs_activeProxy := cs_activeProxy cs - 1\<rparr>) st"

definition handleProxyStream :: "nat \<Rightarrow> nat \<Rightarrow> nat \<Rightarrow> tunnel_server \<Rightarrow> tunnel_server" where
  "handleProxyStream sid up down st =
     proxy_stream_end sid (count_down sid (of_nat down) (count_up sid (of_nat up) (proxy_stream_begin sid st)))"

subsection \<open>Dashboard views\<close>

record tunnel_view =
  tv_ClientID :: string
  tv_Key :: string
  tv_Target :: string
  tv_Protocol :: string
  tv_PublicHost :: string
  tv_PublicPort :: int
  tv_RemoteIP :: string
  tv_LastSeen :: int
  tv_BytesUp :: uint64
  tv_BytesDown :: uint64
  tv_ActiveConnections :: int

record dashboard_snapshot =
  ds_ActiveTunnels :: nat
  ds_ActiveUsers :: nat
  ds_TotalConnections :: uint64
  ds_TotalBytesUp :: uint64
  ds_TotalBytesDown :: uint64
  ds_UptimeNanos :: int
  ds_Tunnels :: "tunnel_view list"

definition view_of :: "string \<Rightarrow> client_session \<Rightarrow> tunnel_view" where
  "view_of host cs = \<lparr>tv_ClientID = cs_clientID cs, tv_Key = cs_key cs, tv_Target = cs_target cs,
     tv_Protocol = cs_protocol cs, tv_PublicHost = host, tv_PublicPort = cs_publicPort cs,
     tv_RemoteIP = cs_remoteIP cs, tv_LastSeen = cs_lastSeen cs, tv_BytesUp = cs_bytesUp cs,
     tv_BytesDown = cs_bytesDown cs, tv_ActiveConnections = cs_activeProxy cs\<rparr>"

text \<open>
  \<open>dashboardSnapshot\<close>: the order of its \<open>sort.Slice\<close> is newest first, then by client name.
\<close>

definition snapshot_key :: "tunnel_view \<Rightarrow> int \<times> string" where
  "snapshot_key v = (- tv_LastSeen v, tv_ClientID v)"

definition live_sessions :: "tunnel_server \<Rightarrow> client_session list" where
  "live_sessions st = List.map_filter (map_of (ts_sess st)) (MapValuesToSlice (ts_clients st))"

definition dashboardSnapshot :: "int \<Rightarrow> int \<Rightarrow> tunnel_server \<Rightarrow> dashboard_snapshot" where
  "dashboardSnapshot now runtimeStart st =
     (let tunnels = sort_key snapshot_key (map (view_of (ts_publicHost st)) (live_sessions st))
      in \<lparr>ds_ActiveTunnels = length tunnels, ds_ActiveUsers = length tunnels,
          ds_TotalConnections = ts_totalConnections st, ds_TotalBytesUp = ts_totalBytesUp st,
          ds_TotalBytesDown = ts_totalBytesDown st, ds_UptimeNanos = now - runtimeStart,
          ds_Tunnels = tunnels\<rparr>)"

text \<open>The rows and the metrics \<open>sendDashboardUpdate\<close> writes, and the error of the first write that fails.\<close>

record tunnel_row =
  tr_Name :: string
  tr_Status :: string
  tr_Protocol :: string
  tr_PublicPort :: int
  tr_PublicHost :: string
  tr_BytesUp :: uint64
  tr_BytesDown :: uint64

record tunnel_metrics =
  tm_activeTunnels :: nat
  tm_activeProxy :: int
  tm_activeBytesUp :: uint64
  tm_activeBytesDown :: uint64
  tm_totalConnections :: uint64
  tm_totalBytesUp :: uint64
  tm_totalBytesDown :: uint64

definition row_of :: "string \<Rightarrow> client_session \<Rightarrow> tunnel_row" where
  "row_of host cs = \<lparr>tr_Name = cs_clientID cs, tr_Status = ''active'', tr_Protocol = cs_protocol cs,
     tr_PublicPort = cs_publicPort cs,
     tr_PublicHost = (if host \<noteq> [] then host else []) @ '':'' @ show_int (cs_publicPort cs),
     tr_BytesUp = cs_bytesUp cs, tr_BytesDown = cs_bytesDown cs\<rparr>"

definition dashboard_sessions :: "tunnel_server \<Rightarrow> client_session list" where
  "dashboard_sessions st = List.map_filter (\<lambda>k. Option.bind (map_of (ts_clients st) k) (map_of (ts_sess st)))
     (sort (MapKeysToSlice (ts_clients st)))"

definition sendDashboardUpdate ::
  "go_error \<Rightarrow> go_error \<Rightarrow> tunnel_server \<Rightarrow> tunnel_row list \<times> tunnel_metrics option \<times> go_error" where
  "sendDashboardUpdate e1 e2 st =
     (let ss = dashboard_sessions st; rows = map (row_of (ts_publicHost st)) ss
      in if e1 \<noteq> None then (rows, None, e1)
         else (rows, Some \<lparr>tm_activeTunnels = length (ts_clients st),
                  tm_activeProxy = sum_list (map cs_activeProxy ss),
                  tm_activeBytesUp = sum_list (map cs_bytesUp ss),
                  tm_activeBytesDown = sum_list (map cs_bytesDown ss),
                  tm_totalConnections = ts_totalConnections st,
                  tm_totalBytesUp = ts_totalBytesUp st,
                  tm_totalBytesDown = ts_totalBytesDown st\<rparr>, e2))"

end
