(* ===== verification/Udp_Relay.thy ===== *)
theory Udp_Relay
  imports Tunnel_Server
begin

text \<open>
  The UDP side of the tunnel server (\<open>internal/xtpro/server/server.go\<close>): datagrams that arrive at a public
  port, packets of the UDP control channel, sessions opened by an agent, and the traffic counters they keep.

  A handler returns the new state and the datagrams it sends: \<open>Control addr p\<close> on the control socket,
  \<open>Public peer p\<close> from a public port, \<open>Remote i p\<close> on the connected socket of session \<open>i\<close>.
  \<open>seal\<close>, \<open>unseal\<close> and \<open>rnd\<close> are the cipher and the nonce source of \<open>EncryptUDP\<close>; \<open>wr\<close> tells
  whether the write of a datagram succeeds.
\<close>

datatype udp_out =
    Control string packet
  | Public string packet
  | Remote nat packet

type_synonym seal_fun = "string \<Rightarrow> string \<Rightarrow> string \<Rightarrow> string"
type_synonym unseal_fun = "string \<Rightarrow> string \<Rightarrow> string \<Rightarrow> string option"

definition upd_usess :: "nat \<Rightarrow> (udp_session \<Rightarrow> udp_session) \<Rightarrow> tunnel_server \<Rightarrow> tunnel_server" where
  "upd_usess u f st = (case map_of (ts_usess st) u of None \<Rightarrow> st
     | Some us \<Rightarrow> st\<lparr>ts_usess := AList.update u (f us) (ts_usess st)\<rparr>)"

lemma upd_usess_simps [simp]:
  "ts_pool (upd_usess u f st) = ts_pool st" "ts_clients (upd_usess u f st) = ts_clients st"
  "ts_sess (upd_usess u f st) = ts_sess st" "ts_next (upd_usess u f st) = ts_next st"
  "ts_proxyWaiting (upd_usess u f st) = ts_proxyWaiting st" "ts_chan (upd_usess u f st) = ts_chan st"
  "ts_nextChan (upd_usess u f st) = ts_nextChan st"
  "ts_totalBytesUp (upd_usess u f st) = ts_totalBytesUp st"
  "ts_totalBytesDown (upd_usess u f st) = ts_totalBytesDown st"
  "ts_udpServer (upd_usess u f st) = ts_udpServer st"
  "ts_udpSessions (upd_usess u f st) = ts_udpSessions st" "ts_nextU (upd_usess u f st) = ts_nextU st"
  "ts_udpClientAddrs (upd_usess u f st) = ts_udpClientAddrs st"
  by (simp_all add: upd_usess_def split: option.split)

lemma map_of_upd_usess:
  "map_of (ts_usess (upd_usess u f st)) k =
     (if k = u then map_option f (map_of (ts_usess st) u) else map_of (ts_usess st) k)"
  by (simp add: upd_usess_def map_of_update split: option.split)

text \<open>The session an identifier names: the handle and what it points to.\<close>

definition find_usess :: "string \<Rightarrow> tunnel_server \<Rightarrow> (nat \<times> udp_session) option" where
  "find_usess sid st = (case map_of (ts_udpSessions st) sid of None \<Rightarrow> None
     | Some u \<Rightarrow> (case map_of (ts_usess st) u of None \<Rightarrow> None | Some us \<Rightarrow> Some (u, us)))"

definition udp_Close :: "udp_session \<Rightarrow> udp_session" where
  "udp_Close us = us\<lparr>us_closed := True\<rparr>"

definition handleUDPClose :: "string \<Rightarrow> tunnel_server \<Rightarrow> tunnel_server" where
  "handleUDPClose sid st =
     (if TrimSpace sid = [] then st
      else (case map_of (ts_udpSessions st) sid of None \<Rightarrow> st
        | Some u \<Rightarrow> upd_usess u udp_Close (st\<lparr>ts_udpSessions := AList.delete sid (ts_udpSessions st)\<rparr>)))"

definition writeUDP ::
  "(packet \<Rightarrow> bool) \<Rightarrow> char \<Rightarrow> string \<Rightarrow> string \<Rightarrow> packet \<Rightarrow> string \<Rightarrow> tunnel_server \<Rightarrow> go_error \<times> udp_out list" where
  "writeUDP wr msgType key ident payload addr st =
     (if \<not> ts_udpServer st then (Some ''udp server not available'', [])
      else (let buf = buildUDPMessage msgType key ident payload
            in if wr buf then (None, [Control addr buf]) else (Some ''write failed'', [])))"

definition sendUDPResponse ::
  "(packet \<Rightarrow> bool) \<Rightarrow> string \<Rightarrow> char \<Rightarrow> string \<Rightarrow> string \<Rightarrow> packet \<Rightarrow> tunnel_server \<Rightarrow> go_error \<times> udp_out list" where
  "sendUDPResponse wr addr msgType key ident payload st = writeUDP wr msgType key ident payload addr st"

text \<open>
  \<open>sendUDPData\<close>: the bytes are counted before anything is sent; the address is the one bound to the session or
  the last known one of the client, which is then cached.
\<close>

definition sendUDPData ::
  "seal_fun \<Rightarrow> string + string \<Rightarrow> (packet \<Rightarrow> bool) \<Rightarrow> string \<Rightarrow> string \<Rightarrow> packet \<Rightarrow> tunnel_server
    \<Rightarrow> go_error \<times> udp_out list \<times> tunnel_server" where
  "sendUDPData seal rnd wr clientKey sessionID payload st =
     (case find_usess sessionID st of
        None \<Rightarrow> (Some ''udp session not found'', [], st)
      | Some (u, us) \<Rightarrow>
         (let st1 = (case us_owner us of None \<Rightarrow> st | Some o1 \<Rightarrow> count_down o1 (of_nat (length payload)) st)
          in case (case us_udpSecret us of None \<Rightarrow> Inr payload | Some k \<Rightarrow> EncryptUDP seal rnd k payload) of
               Inl err \<Rightarrow> (Some err, [], st1)
             | Inr data \<Rightarrow>
                 (case us_clientAddr us of
                    Some addr \<Rightarrow> (let (e, out) = writeUDP wr udpMsgData clientKey sessionID data addr st1 in (e, out, st1))
                  | None \<Rightarrow>
                     (case map_of (ts_udpClientAddrs st1) clientKey of
                        None \<Rightarrow> (None, [], st1)
                      | Some addr \<Rightarrow>
                         (let st2 = upd_usess u (\<lambda>s. s\<lparr>us_clientAddr := Some addr\<rparr>) st1;
                              (e, out) = writeUDP wr udpMsgData clientKey sessionID data addr st2
                          in (e, out, st2))))))"

text \<open>
  \<open>handlePublicUDPDatagram\<close> for the client session \<open>sid\<close>: the fourth component is the \<open>udp_open\<close>
  message a new session makes it send to the agent.
\<close>

definition handlePublicUDPDatagram ::
  "seal_fun \<Rightarrow> string + string \<Rightarrow> (packet \<Rightarrow> bool) \<Rightarrow> int \<Rightarrow> nat \<Rightarrow> string \<Rightarrow> packet \<Rightarrow> tunnel_server
    \<Rightarrow> udp_out list \<times> tunnel_msg list \<times> tunnel_server" where
  "handlePublicUDPDatagram seal rnd wr now sid peer payload st =
     (case map_of (ts_sess st) sid of None \<Rightarrow> ([], [], st)
      | Some cs \<Rightarrow>
        (case map_of (ts_udpClientAddrs st) (cs_key cs) of
           None \<Rightarrow> ([], [], st)
         | Some clientAddr \<Rightarrow>
            (let sessionID = cs_key cs @ ''|'' @ peer;
                 created = (map_of (ts_udpSessions st) sessionID = None);
                 st1 = (if created
                   then st\<lparr>ts_udpSessions := AList.update sessionID (ts_nextU st) (ts_udpSessions st),
                           ts_usess := AList.update (ts_nextU st)
                             \<lparr>us_id = sessionID, us_clientKey = cs_key cs, us_udpSecret = cs_udpSecret cs,
                              us_owner = Some sid, us_conn = False, us_remoteAddr = [],
                              us_clientAddr = Some clientAddr, us_publicPeer = Some peer,
                              us_closed = False, us_lastActive = now\<rparr> (ts_usess st),
                           ts_nextU := ts_nextU st + 1\<rparr>
                   else st);
                 u = get_or 0 (ts_udpSessions st1) sessionID;
                 st2 = upd_usess u (\<lambda>us. us\<lparr>us_owner := (if us_owner us = None then Some sid else us_owner us),
                          us_publicPeer := Some peer, us_lastActive := now\<rparr>) st1;
                 msgs = (if created then [no_msg\<lparr>tm_Type := ''udp_open'', tm_ID := sessionID,
                            tm_RemoteAddr := peer\<rparr>] else []);
                 (e, out, st3) = sendUDPData seal rnd wr (cs_key cs) sessionID payload st2
             in (out, msgs, st3))))"

text \<open>
  \<open>handleUDPOpen\<close>: the addresses are resolved and dialled outside (\<open>dial\<close> gives the resolved address).
\<close>

definition handleUDPOpen :: "(string \<Rightarrow> string option) \<Rightarrow> nat \<Rightarrow> tunnel_msg \<Rightarrow> tunnel_server \<Rightarrow> tunnel_server" where
  "handleUDPOpen dial sid msg st =
     (case map_of (ts_sess st) sid of None \<Rightarrow> st
      | Some cs \<Rightarrow>
        if cs_protocol cs \<noteq> ''udp'' then st
        else if TrimSpace (tm_RemoteAddr msg) = [] \<or> TrimSpace (tm_ID msg) = [] then st
        else (case dial (TrimSpace (tm_RemoteAddr msg)) of None \<Rightarrow> st
          | Some addr \<Rightarrow>
             st\<lparr>ts_udpSessions := AList.update (tm_ID msg) (ts_nextU st) (ts_udpSessions st),
                ts_usess := AList.update (ts_nextU st)
                  \<lparr>us_id = tm_ID msg, us_clientKey = cs_key cs, us_udpSecret = cs_udpSecret cs,
                   us_owner = Some sid, us_conn = True, us_remoteAddr = addr, us_clientAddr = None,
                   us_publicPeer = None, us_closed = False, us_lastActive = 0\<rparr> (ts_usess st),
                ts_nextU := ts_nextU st + 1\<rparr>))"

text \<open>\<open>handleUDPDataFromClient\<close>: the address is rebound before the payload is authenticated.\<close>

definition handleUDPDataFromClient ::
  "unseal_fun \<Rightarrow> (packet \<Rightarrow> bool) \<Rightarrow> int \<Rightarrow> string \<Rightarrow> string \<Rightarrow> packet \<Rightarrow> string \<Rightarrow> tunnel_server
    \<Rightarrow> udp_out list \<times> tunnel_server" where
  "handleUDPDataFromClient unseal wr now clientKey sessionID payload clientAddr st =
     (case find_usess sessionID st of
        None \<Rightarrow> ([], st)
      | Some (u, us) \<Rightarrow>
         if us_clientKey us \<noteq> clientKey then ([], st)
         else
          (let st1 = (upd_usess u (\<lambda>s. s\<lparr>us_clientAddr := Some clientAddr\<rparr>) st)
                       \<lparr>ts_udpClientAddrs := AList.update clientKey clientAddr (ts_udpClientAddrs st)\<rparr>
           in case (case us_udpSecret us of None \<Rightarrow> Inr payload | Some k \<Rightarrow> DecryptUDP unseal k payload) of
                Inl err \<Rightarrow> ([], st1)
              | Inr data \<Rightarrow>
                 (let st2 = (case us_owner us of None \<Rightarrow> st1
                        | Some o1 \<Rightarrow> count_up o1 (of_nat (length data)) st1);
                      st3 = upd_usess u (\<lambda>s. s\<lparr>us_lastActive := now\<rparr>) st2
                  in if us_conn us
                     then (if wr data then ([Remote u data], st3) else ([], handleUDPClose sessionID st3))
                     else (case us_publicPeer us of
                             Some peer \<Rightarrow> (if wr data then [Public peer data] else [], st3)
                           | None \<Rightarrow> ([], st3)))))"

definition bind_addr :: "string \<Rightarrow> string \<Rightarrow> tunnel_server \<Rightarrow> tunnel_server" where
  "bind_addr key addr st = st\<lparr>ts_udpClientAddrs := AList.update key addr (ts_udpClientAddrs st)\<rparr>"

definition handleUDPControlPacket ::
  "unseal_fun \<Rightarrow> (packet \<Rightarrow> bool) \<Rightarrow> int \<Rightarrow> packet \<Rightarrow> string \<Rightarrow> tunnel_server \<Rightarrow> udp_out list \<times> tunnel_server" where
  "handleUDPControlPacket unseal wr now packet addr st =
     (if length packet < 3 then ([], st)
      else
        (let msgType = packet ! 0; (key, idx, ok) = decodeUDPField packet 1
         in if \<not> ok \<or> key = [] then ([], st)
            else if msgType = udpMsgHandshake then
              (snd (sendUDPResponse wr addr udpMsgHandshake key [] [] (bind_addr key addr st)), bind_addr key addr st)
            else if msgType = udpMsgData then
              (let (sid, nxt, ok2) = decodeUDPField packet idx
               in if \<not> ok2 \<or> sid = [] then ([], bind_addr key addr st)
                  else handleUDPDataFromClient unseal wr now key sid (drop nxt packet) addr (bind_addr key addr st))
            else if msgType = udpMsgClose then
              (let (sid, nxt, ok2) = decodeUDPField packet idx
               in if \<not> ok2 \<or> sid = [] then ([], st) else ([], handleUDPClose sid st))
            else if msgType = udpMsgPing then
              (snd (sendUDPResponse wr addr udpMsgPong key [] (drop idx packet) (bind_addr key addr st)), bind_addr key addr st)
            else ([], st)))"

text \<open>
  One datagram in \<open>readFromUDPRemote\<close>: \<open>read\<close> is \<open>None\<close> on a read error, which ends the loop with the
  deferred \<open>handleUDPClose\<close>; the last component says whether the loop goes on.
\<close>

definition readFromUDPRemote_step ::
  "seal_fun \<Rightarrow> string + string \<Rightarrow> (packet \<Rightarrow> bool) \<Rightarrow> nat \<Rightarrow> packet option \<Rightarrow> tunnel_server
    \<Rightarrow> udp_out list \<times> tunnel_server \<times> bool" where
  "readFromUDPRemote_step seal rnd wr u read st =
     (case map_of (ts_usess st) u of None \<Rightarrow> ([], st, False)
      | Some us \<Rightarrow>
        (case read of
           None \<Rightarrow> ([], handleUDPClose (us_id us) st, False)
         | Some [] \<Rightarrow> ([], st, True)
         | Some payload \<Rightarrow>
            (let (e, out, st') = sendUDPData seal rnd wr (us_clientKey us) (us_id us) payload st
             in if e = None then (out, st', True) else (out, handleUDPClose (us_id us) st', False))))"

subsection \<open>The control loop of a client\<close>

text \<open>One decoded message of the loop of \<open>handleClient\<close>: the replies it sends and the new state.\<close>

definition client_message ::
  "(string \<Rightarrow> string option) \<Rightarrow> int \<Rightarrow> nat \<Rightarrow> tunnel_msg \<Rightarrow> tunnel_server \<Rightarrow> tunnel_msg list \<times> tunnel_server" where
  "client_message dial now sid m st =
     (let st1 = upd_sess sid (\<lambda>cs. cs\<lparr>cs_lastSeen := now\<rparr>) st
      in if tm_Type m = ''ping'' then ([no_msg\<lparr>tm_Type := ''pong''\<rparr>], st1)
         else if tm_Type m = ''udp_open'' then ([], handleUDPOpen dial sid m st1)
         else if tm_Type m = ''udp_close'' \<or> tm_Type m = ''udp_idle'' then ([], handleUDPClose (tm_ID m) st1)
         else ([], st1))"

end
