(* ===== verification/Tunnel_System.thy ===== *)
theory Tunnel_System
  imports Udp_Relay
begin

text \<open>
  The tunnel server as a transition system: every event the goroutines of
  \<open>internal/xtpro/server/server.go\<close> handle under the server's locks is a step. The invariants proved here are the
  exclusive ownership of the public ports, through the contract \<open>pool\<close> of the port pool, and the
  agreement of the traffic totals with the traffic of the sessions.
\<close>

inductive tunnel_step :: "tunnel_server \<Rightarrow> tunnel_server \<Rightarrow> bool" where
  register: "handleConnection_register rnd keygen enc now host msg st = Ret (r, sid, st') \<Longrightarrow> tunnel_step st st'"
| loop_end: "tunnel_step st (client_loop_end sid st)"
| kick: "tunnel_step st (snd (kickClient cid st))"
| heartbeat: "tunnel_step st (fst (heartbeat_tick now sid st))"
| listen_tcp: "tunnel_step st (startPublicListener ok sid st)"
| listen_udp: "tunnel_step st (startPublicUDPListener ok sid st)"
| start_udp: "tunnel_step st (st\<lparr>ts_udpServer := True\<rparr>)"
| client_msg: "tunnel_step st (snd (client_message dial now sid m st))"
| public_conn: "tunnel_step st (snd (snd (proxy_wait pid sid st)))"
| dispatch: "tunnel_step st (snd (dispatchProxyConnection conn pid st))"
| take: "tunnel_step st (snd (proxy_take ch st))"
| proxy_end: "tunnel_step st (proxy_done pid st)"
| stream: "map_of (ts_sess st) sid \<noteq> None \<Longrightarrow> tunnel_step st (handleProxyStream sid up down st)"
| public_udp: "tunnel_step st (snd (snd (handlePublicUDPDatagram seal nrnd wr now sid peer payload st)))"
| control_udp: "tunnel_step st (snd (handleUDPControlPacket unseal wr now packet addr st))"
| remote_udp: "tunnel_step st (fst (snd (readFromUDPRemote_step seal nrnd wr u read st)))"

inductive tunnel_reachable :: "string \<Rightarrow> int \<Rightarrow> int \<Rightarrow> tunnel_server \<Rightarrow> bool" for host lo hi where
  tunnel_start: "tunnel_reachable host lo hi (newServer host lo hi)"
| tunnel_next: "tunnel_reachable host lo hi st \<Longrightarrow> tunnel_step st st' \<Longrightarrow> tunnel_reachable host lo hi st'"

subsection \<open>Steps that leave the registrations alone\<close>

definition port_id :: "client_session \<Rightarrow> int \<times> string" where
  "port_id cs = (cs_publicPort cs, cs_clientID cs)"

definition same_ports :: "tunnel_server \<Rightarrow> tunnel_server \<Rightarrow> bool" where
  "same_ports st st' \<longleftrightarrow> ts_clients st' = ts_clients st \<and> ts_pool st' = ts_pool st \<and> ts_next st' = ts_next st
     \<and> map_option port_id \<circ> map_of (ts_sess st') = map_option port_id \<circ> map_of (ts_sess st)"

named_theorems same_ports_intros "operations that leave the registrations alone"

lemma same_ports_refl [simp]: "same_ports st st"
  by (simp add: same_ports_def)

lemma same_ports_trans: "same_ports a b \<Longrightarrow> same_ports b c \<Longrightarrow> same_ports a c"
  by (simp add: same_ports_def)

lemma same_ports_upd_sess [same_ports_intros]:
  "(\<And>cs. port_id (f cs) = port_id cs) \<Longrightarrow> same_ports st (upd_sess sid f st)"
  by (auto simp: same_ports_def map_of_upd_sess option.map_comp comp_def fun_eq_iff)

lemma same_ports_upd_usess [same_ports_intros]: "same_ports st (upd_usess u f st)"
  by (simp add: same_ports_def)

lemma port_id_simps [simp]:
  "port_id (cs\<lparr>cs_lastSeen := a\<rparr>) = port_id cs" "port_id (cs\<lparr>cs_bytesUp := b\<rparr>) = port_id cs"
  "port_id (cs\<lparr>cs_bytesDown := b\<rparr>) = port_id cs" "port_id (cs\<lparr>cs_activeProxy := i\<rparr>) = port_id cs"
  "port_id (cs\<lparr>cs_publicListener := l\<rparr>) = port_id cs" "port_id (cs\<lparr>cs_publicUDP := l\<rparr>) = port_id cs"
  "port_id (session_Close cs) = port_id cs"
  by (simp_all add: port_id_def session_Close_def)

lemma same_ports_fields [simp]:
  "same_ports st (st'\<lparr>ts_totalBytesUp := a\<rparr>) = same_ports st st'"
  "same_ports st (st'\<lparr>ts_totalBytesDown := a\<rparr>) = same_ports st st'"
  "same_ports st (st'\<lparr>ts_totalConnections := a\<rparr>) = same_ports st st'"
  "same_ports st (st'\<lparr>ts_activeConnections := i\<rparr>) = same_ports st st'"
  "same_ports st (st'\<lparr>ts_udpServer := l\<rparr>) = same_ports st st'"
  "same_ports st (st'\<lparr>ts_udpSessions := m\<rparr>) = same_ports st st'"
  "same_ports st (st'\<lparr>ts_usess := us\<rparr>) = same_ports st st'"
  "same_ports st (st'\<lparr>ts_nextU := n\<rparr>) = same_ports st st'"
  "same_ports st (st'\<lparr>ts_udpClientAddrs := ad\<rparr>) = same_ports st st'"
  "same_ports st (st'\<lparr>ts_proxyWaiting := m\<rparr>) = same_ports st st'"
  "same_ports st (st'\<lparr>ts_chan := ch\<rparr>) = same_ports st st'"
  "same_ports st (st'\<lparr>ts_nextChan := n\<rparr>) = same_ports st st'"
  by (simp_all add: same_ports_def)

text \<open>Each lemma extends a run that leaves the registrations alone by one more operation.\<close>

lemma sp_sess [same_ports_intros]:
  "same_ports a b \<Longrightarrow> (\<And>cs. port_id (f cs) = port_id cs) \<Longrightarrow> same_ports a (upd_sess sid f b)"
  by (rule same_ports_trans [OF _ same_ports_upd_sess])

lemma sp_usess [same_ports_intros]: "same_ports a b \<Longrightarrow> same_ports a (upd_usess u f b)"
  by (rule same_ports_trans [OF _ same_ports_upd_usess])

lemma sp_count [same_ports_intros]:
  "same_ports a b \<Longrightarrow> same_ports a (count_up sid n b)" "same_ports a b \<Longrightarrow> same_ports a (count_down sid n b)"
  by (simp_all add: count_up_def count_down_def sp_sess)

lemma sp_stream [same_ports_intros]: "same_ports a b \<Longrightarrow> same_ports a (handleProxyStream sid up down b)"
  by (simp add: handleProxyStream_def proxy_stream_begin_def proxy_stream_end_def same_ports_intros)

lemma sp_bind_addr [same_ports_intros]: "same_ports a b \<Longrightarrow> same_ports a (bind_addr k ad b)"
  by (simp add: bind_addr_def)

lemma sp_handleUDPClose [same_ports_intros]: "same_ports a b \<Longrightarrow> same_ports a (handleUDPClose sid b)"
  by (simp add: handleUDPClose_def sp_usess split: option.split)

lemma sp_sendUDPData [same_ports_intros]:
  "same_ports a b \<Longrightarrow> same_ports a (snd (snd (sendUDPData seal rnd wr k sid payload b)))"
  by (simp add: sendUDPData_def Let_def split_def same_ports_intros split: option.split sum.split)

lemma sp_public_udp [same_ports_intros]:
  "same_ports a b \<Longrightarrow> same_ports a (snd (snd (handlePublicUDPDatagram seal rnd wr now sid peer p b)))"
  by (simp add: handlePublicUDPDatagram_def Let_def split_def sp_sendUDPData sp_usess split: option.split)

lemma sp_handleUDPOpen [same_ports_intros]: "same_ports a b \<Longrightarrow> same_ports a (handleUDPOpen dial sid m b)"
  by (simp add: handleUDPOpen_def split: option.split)

lemma sp_udp_data [same_ports_intros]:
  "same_ports a b \<Longrightarrow> same_ports a (snd (handleUDPDataFromClient unseal wr now k i p ad b))"
  by (simp add: handleUDPDataFromClient_def Let_def split_def same_ports_intros split: option.split sum.split)

lemma sp_control_udp [same_ports_intros]:
  "same_ports a b \<Longrightarrow> same_ports a (snd (handleUDPControlPacket unseal wr now p ad b))"
  by (simp add: handleUDPControlPacket_def Let_def split_def same_ports_intros)

lemma sp_remote_udp [same_ports_intros]:
  "same_ports a b \<Longrightarrow> same_ports a (fst (snd (readFromUDPRemote_step seal rnd wr u read b)))"
  by (simp add: readFromUDPRemote_step_def Let_def split_def same_ports_intros split: option.split list.split)

lemma sp_client_message [same_ports_intros]:
  "same_ports a b \<Longrightarrow> same_ports a (snd (client_message dial now sid m b))"
  by (simp add: client_message_def Let_def same_ports_intros)

lemma sp_proxy [same_ports_intros]:
  "same_ports a b \<Longrightarrow> same_ports a (snd (snd (proxy_wait pid sid b)))"
  "same_ports a b \<Longrightarrow> same_ports a (snd (proxy_take ch b))"
  "same_ports a b \<Longrightarrow> same_ports a (proxy_done pid b)"
  "same_ports a b \<Longrightarrow> same_ports a (snd (dispatchProxyConnection conn pid b))"
  by (simp_all add: proxy_wait_def proxy_take_def proxy_done_def dispatchProxyConnection_def Let_def
      split: option.split list.split)

lemma sp_listeners [same_ports_intros]:
  "same_ports a b \<Longrightarrow> same_ports a (startPublicListener ok sid b)"
  "same_ports a b \<Longrightarrow> same_ports a (startPublicUDPListener ok sid b)"
  "same_ports a b \<Longrightarrow> same_ports a (fst (heartbeat_tick now sid b))"
  by (simp_all add: startPublicListener_def startPublicUDPListener_def heartbeat_tick_def same_ports_intros
      split: option.split)

subsection \<open>Exclusive public ports\<close>

definition port_owner :: "tunnel_server \<Rightarrow> string \<Rightarrow> int option" where
  "port_owner st cid = Option.bind (map_of (ts_clients st) cid)
     (\<lambda>sid. map_option cs_publicPort (map_of (ts_sess st) sid))"

definition names_ok :: "tunnel_server \<Rightarrow> bool" where
  "names_ok st \<longleftrightarrow> gomap_ok (ts_clients st) \<and> (\<forall>sid cs. map_of (ts_sess st) sid = Some cs \<longrightarrow> sid < ts_next st)
     \<and> (\<forall>cid sid. map_of (ts_clients st) cid = Some sid \<longrightarrow>
          map_option cs_clientID (map_of (ts_sess st) sid) = Some cid)"

definition ports_inv :: "tunnel_server \<Rightarrow> bool" where
  "ports_inv st \<longleftrightarrow> pool_inv (ts_pool st) \<and> names_ok st
     \<and> ports_held spare_port (pp_used (ts_pool st)) (port_owner st)"

lemma same_ports_sess:
  assumes "same_ports st st'"
  shows "map_option port_id (map_of (ts_sess st') k) = map_option port_id (map_of (ts_sess st) k)"
  using assms unfolding same_ports_def by (metis comp_apply)

lemma same_ports_fields_eq:
  assumes "same_ports st st'"
  shows "map_option cs_publicPort (map_of (ts_sess st') k) = map_option cs_publicPort (map_of (ts_sess st) k)"
    and "map_option cs_clientID (map_of (ts_sess st') k) = map_option cs_clientID (map_of (ts_sess st) k)"
  using same_ports_sess [OF assms, of k]
  by (cases "map_of (ts_sess st') k"; cases "map_of (ts_sess st) k"; simp add: port_id_def)+

lemma same_ports_owner: "same_ports st st' \<Longrightarrow> port_owner st' = port_owner st"
  by (simp add: port_owner_def fun_eq_iff same_ports_fields_eq same_ports_def [THEN iffD1, THEN conjunct1])

lemma same_ports_names: "same_ports st st' \<Longrightarrow> names_ok st \<Longrightarrow> names_ok st'"
proof -
  assume s: "same_ports st st'" and n: "names_ok st"
  have "sid < ts_next st'" if "map_of (ts_sess st') sid = Some cs" for sid cs
  proof -
    from that same_ports_sess [OF s, of sid] obtain cs' where "map_of (ts_sess st) sid = Some cs'"
      by (cases "map_of (ts_sess st) sid") auto
    with n s show ?thesis by (auto simp: names_ok_def same_ports_def)
  qed
  with s n show ?thesis
    by (simp add: names_ok_def same_ports_fields_eq(2) [OF s] same_ports_def)
qed

lemma same_ports_inv: "same_ports st st' \<Longrightarrow> ports_inv st \<Longrightarrow> ports_inv st'"
  using same_ports_owner [of st st'] same_ports_names [of st st']
  by (simp add: ports_inv_def same_ports_def)

lemma ports_inv_newServer: "ports_inv (newServer host lo hi)"
  using pool.held_none by (simp add: ports_inv_def newServer_def names_ok_def port_owner_def [abs_def] pool_inv_new)

lemma port_owner_delete:
  "port_owner (st\<lparr>ts_clients := AList.delete cid (ts_clients st), ts_pool := p\<rparr>) = (port_owner st)(cid := None)"
  by (auto simp: port_owner_def map_of_delete fun_eq_iff)

lemma ports_inv_removeClient:
  assumes "ports_inv st"
  shows "ports_inv (removeClient sid st)"
proof (cases "map_of (ts_sess st) sid")
  case None
  then show ?thesis using assms by (simp add: removeClient_def)
next
  case (Some cs)
  let ?st = "st\<lparr>ts_clients := AList.delete (cs_clientID cs) (ts_clients st),
                ts_pool := releasePort (ts_pool st) (cs_publicPort cs)\<rparr>"
  have "ports_inv ?st" if m: "map_of (ts_clients st) (cs_clientID cs) = Some sid"
  proof -
    have "port_owner st (cs_clientID cs) = Some (cs_publicPort cs)"
      by (simp add: port_owner_def m Some)
    then have "ports_held spare_port (pp_used (releasePort (ts_pool st) (cs_publicPort cs)))
        ((port_owner st)(cs_clientID cs := None))"
      using assms by (intro pool.held_release) (simp_all add: ports_inv_def)
    moreover have "names_ok ?st"
      using assms by (auto simp: ports_inv_def names_ok_def map_of_delete)
    ultimately show ?thesis
      using assms by (simp add: ports_inv_def port_owner_delete pool_inv_release)
  qed
  then show ?thesis
    using assms Some same_ports_upd_sess [of session_Close]
    by (auto simp: removeClient_def intro: same_ports_inv)
qed

lemma ports_inv_kick: "ports_inv st \<Longrightarrow> ports_inv (snd (kickClient cid st))"
  by (simp add: kickClient_def Let_def ports_inv_removeClient split: option.split)

lemma ports_inv_loop_end: "ports_inv st \<Longrightarrow> ports_inv (client_loop_end sid st)"
  unfolding client_loop_end_def
  by (rule ports_inv_removeClient, rule same_ports_inv [of st]) simp_all

text \<open>What a successful choice of key and name does to the registrations.\<close>

lemma registered_owner:
  assumes "map_of (ts_sess st) sid = Some cs" and "\<forall>c. map_of (ts_clients st) c \<noteq> Some sid"
    and "registered keygen sid msg key cid st = (resp, st')"
    and "getNextPublicPort (ts_pool st) (tm_RequestedPort msg) = (n, p)"
  shows "port_owner st' = (port_owner st)(cid \<mapsto> n) \<and> ts_pool st' = p \<and> ts_next st' = ts_next st
    \<and> ts_clients st' = AList.update cid sid (ts_clients st)
    \<and> map_of (ts_clients st') = (map_of (ts_clients st))(cid \<mapsto> sid)
    \<and> (\<exists>cs'. map_of (ts_sess st') = (map_of (ts_sess st))(sid \<mapsto> cs') \<and> cs_clientID cs' = cid \<and> cs_publicPort cs' = n)
    \<and> tm_RemotePort resp = n"
proof -
  let ?f = "\<lambda>cs. cs\<lparr>cs_clientID := cid, cs_key := key, cs_target := tm_Target msg,
      cs_protocol := wanted_protocol msg, cs_publicPort := n,
      cs_udpSecret := (case keygen of Inl _ \<Rightarrow> None | Inr k \<Rightarrow> Some k)\<rparr>"
  have st': "st' = addClient sid (upd_sess sid ?f (st\<lparr>ts_pool := p\<rparr>))" and "tm_RemotePort resp = n"
    using assms(3,4) by (auto simp: registered_def Let_def)
  have cl: "map_of (ts_clients st') = (map_of (ts_clients st))(cid \<mapsto> sid)"
    and se: "map_of (ts_sess st') = (map_of (ts_sess st))(sid \<mapsto> ?f cs)"
    and ot: "ts_pool st' = p" "ts_next st' = ts_next st"
    using assms(1) by (simp_all add: st' addClient_def map_of_upd_sess fun_eq_iff map_of_update)
  have "port_owner st' = (port_owner st)(cid \<mapsto> n)"
    using assms(2) by (auto simp: port_owner_def cl se fun_eq_iff intro!: Option.bind_cong)
  moreover have "ts_clients st' = AList.update cid sid (ts_clients st)"
    using assms(1) by (simp add: st' addClient_def map_of_upd_sess)
  ultimately show ?thesis using cl se ot \<open>tm_RemotePort resp = n\<close> by auto
qed

lemma ports_inv_registered:
  assumes "ports_inv st" and "map_of (ts_sess st) sid = Some cs"
    and "\<forall>c. map_of (ts_clients st) c \<noteq> Some sid"
  shows "ports_inv (snd (registered keygen sid msg key cid st))"
proof -
  obtain n p where a: "getNextPublicPort (ts_pool st) (tm_RequestedPort msg) = (n, p)" by fastforce
  obtain resp st' where r: "registered keygen sid msg key cid st = (resp, st')" by fastforce
  note o1 = registered_owner [OF assms(2,3) r a]
  have "ports_held spare_port (pp_used p) ((port_owner st)(cid \<mapsto> n))" and "pool_inv p"
    using assms(1) pool.held_alloc [OF _ _ a] pool.invar_alloc [OF _ a] by (auto simp: ports_inv_def)
  moreover have "names_ok st'"
    using o1 assms by (auto simp: names_ok_def ports_inv_def split: if_splits)
  ultimately show ?thesis using o1 r by (simp add: ports_inv_def)
qed

text \<open>The state in which \<open>handleClient\<close> runs: the fresh session is in the store, not in \<open>clients\<close>.\<close>

definition with_new_session :: "int \<Rightarrow> string \<Rightarrow> tunnel_server \<Rightarrow> tunnel_server" where
  "with_new_session now host st =
     st\<lparr>ts_sess := AList.update (ts_next st) (new_session now host) (ts_sess st), ts_next := ts_next st + 1\<rparr>"

lemma fresh_handle:
  "names_ok st \<Longrightarrow> map_of (ts_sess st) (ts_next st) = None"
  "names_ok st \<Longrightarrow> map_of (ts_clients st) c \<noteq> Some (ts_next st)"
  by (fastforce simp: names_ok_def)+

lemma ports_inv_with_new_session:
  assumes "ports_inv st"
  shows "ports_inv (with_new_session now host st)" and "port_owner (with_new_session now host st) = port_owner st"
proof -
  have n: "names_ok st" using assms by (simp add: ports_inv_def)
  show o1: "port_owner (with_new_session now host st) = port_owner st"
    using fresh_handle(2) [OF n]
    by (auto simp: port_owner_def with_new_session_def map_of_update fun_eq_iff intro!: Option.bind_cong)
  have "names_ok (with_new_session now host st)"
    using n fresh_handle(2) [OF n] by (fastforce simp: names_ok_def with_new_session_def map_of_update)
  with assms o1 show "ports_inv (with_new_session now host st)"
    by (simp add: ports_inv_def) (simp add: with_new_session_def)
qed

text \<open>The three outcomes of a registration that does not panic.\<close>

lemma handleClient_cases [consumes 1, case_names no_id no_reply ok]:
  assumes "handleClient rnd keygen enc sid msg st = Ret (r, st')"
  obtains (no_id) err where "r = Inl err" "st' = st"
  | (no_reply) err key cid where "r = Inl err" "st' = snd (registered keygen sid msg key cid st)"
  | (ok) key cid resp st1 where "client_name msg key = Ret cid" "enc = None" "r = Inr resp"
      "registered keygen sid msg key cid st = (resp, st1)"
      "st' = st1\<lparr>ts_activeConnections := ts_activeConnections st1 + 1\<rparr>"
proof (cases "if TrimSpace (tm_Key msg) = [] then GenerateID rnd else Inr (TrimSpace (tm_Key msg))")
  case (Inl err)
  then show ?thesis using assms no_id [of err] by (auto simp: handleClient_def)
next
  case (Inr key)
  with assms obtain cid where cid: "client_name msg key = Ret cid"
    by (auto simp: handleClient_def go_bind_Ret_iff)
  obtain resp st1 where r: "registered keygen sid msg key cid st = (resp, st1)" by fastforce
  show ?thesis
  proof (cases enc)
    case None
    with assms Inr cid r ok show ?thesis by (auto simp: handleClient_def)
  next
    case (Some err)
    with assms Inr cid r no_reply [of err key cid] show ?thesis by (simp add: handleClient_def)
  qed
qed

lemma register_cases [consumes 1, case_names no_id no_reply ok]:
  assumes "handleConnection_register rnd keygen enc now host msg st = Ret (r, sid, st')"
  obtains (no_id) err where "r = Inl err" "st' = removeClient (ts_next st) (with_new_session now host st)"
  | (no_reply) err key cid where "r = Inl err"
      "st' = removeClient (ts_next st) (snd (registered keygen (ts_next st) msg key cid (with_new_session now host st)))"
  | (ok) key cid resp st1 where "sid = ts_next st" "client_name msg key = Ret cid" "enc = None" "r = Inr resp"
      "registered keygen (ts_next st) msg key cid (with_new_session now host st) = (resp, st1)"
      "st' = st1\<lparr>ts_activeConnections := ts_activeConnections st1 + 1\<rparr>"
proof -
  from assms obtain q st2 where
    h: "handleClient rnd keygen enc (ts_next st) msg (with_new_session now host st) = Ret (q, st2)"
    and e: "(case q of Inl err \<Rightarrow> (Inl err, ts_next st, removeClient (ts_next st) st2)
          | Inr resp \<Rightarrow> (Inr resp, ts_next st, st2)) = (r, sid, st')"
    by (auto simp: handleConnection_register_def with_new_session_def Let_def go_bind_Ret_iff)
  from h show ?thesis
    by (cases rule: handleClient_cases) (use e that in auto)
qed

lemma register_named:
  assumes "TrimSpace (tm_Key msg) \<noteq> []" and "TrimSpace (tm_ClientID msg) \<noteq> []"
    and "registered keygen (ts_next st) msg (TrimSpace (tm_Key msg)) (TrimSpace (tm_ClientID msg))
          (with_new_session now host st) = (resp, st1)"
  shows "handleConnection_register rnd keygen None now host msg st =
    Ret (Inr resp, ts_next st, st1\<lparr>ts_activeConnections := ts_activeConnections st1 + 1\<rparr>)"
  using assms by (simp add: handleConnection_register_def handleClient_def client_name_def with_new_session_def Let_def)

lemma ports_inv_register:
  assumes "ports_inv st" and "handleConnection_register rnd keygen enc now host msg st = Ret (r, sid, st')"
  shows "ports_inv st'"
proof -
  let ?st = "with_new_session now host st"
  have n: "names_ok st" and i: "ports_inv ?st"
    using assms(1) ports_inv_with_new_session by (auto simp: ports_inv_def)
  have reg: "ports_inv (snd (registered keygen (ts_next st) msg key cid ?st))" for key cid
  proof (rule ports_inv_registered [OF i])
    show "map_of (ts_sess ?st) (ts_next st) = Some (new_session now host)"
      by (simp add: with_new_session_def map_of_update)
    show "\<forall>c. map_of (ts_clients ?st) c \<noteq> Some (ts_next st)"
      using fresh_handle(2) [OF n] by (simp add: with_new_session_def)
  qed
  from assms(2) show ?thesis
  proof (cases rule: register_cases)
    case no_id
    then show ?thesis by (simp add: ports_inv_removeClient i)
  next
    case (no_reply err key cid)
    then show ?thesis by (simp add: ports_inv_removeClient reg)
  next
    case (ok key cid resp st1)
    with reg [of key cid] have "ports_inv st1" by simp
    then show ?thesis using ok(6) same_ports_inv [of st1 st'] by simp
  qed
qed

lemma ports_inv_step: "tunnel_step st st' \<Longrightarrow> ports_inv st \<Longrightarrow> ports_inv st'"
proof (induction rule: tunnel_step.induct)
  case register
  then show ?case using ports_inv_register by blast
qed (erule ports_inv_kick | erule ports_inv_loop_end
    | (erule same_ports_inv [rotated], simp add: same_ports_intros))+

lemma tunnel_reachable_ports: "tunnel_reachable host lo hi st \<Longrightarrow> ports_inv st"
  by (induction rule: tunnel_reachable.induct) (auto simp: ports_inv_newServer ports_inv_step)

subsection \<open>Traffic accounting\<close>

definition bytes_sum :: "(client_session \<Rightarrow> uint64) \<Rightarrow> tunnel_server \<Rightarrow> uint64" where
  "bytes_sum f st = sum_list (map (\<lambda>e. f (snd e)) (ts_sess st))"

lemma sum_list_update:
  fixes f :: "'v \<Rightarrow> 'a::ab_group_add"
  assumes "gomap_ok m" and "map_of m k = Some old"
  shows "sum_list (map (\<lambda>e. f (snd e)) (AList.update k v m)) = sum_list (map (\<lambda>e. f (snd e)) m) - f old + f v"
  using assms
proof (induction m)
  case (Cons p m)
  then have d: "gomap_ok m" by (simp add: gomap_ok_def)
  show ?case
  proof (cases "fst p = k")
    case True
    with Cons.prems show ?thesis by (cases p) (simp add: gomap_ok_def update_conv)
  next
    case False
    with Cons d show ?thesis by (cases p) (simp add: algebra_simps)
  qed
qed simp

lemma sum_list_update_new:
  fixes f :: "'v \<Rightarrow> 'a::comm_monoid_add"
  shows "map_of m k = None \<Longrightarrow> sum_list (map (\<lambda>e. f (snd e)) (AList.update k v m)) = sum_list (map (\<lambda>e. f (snd e)) m) + f v"
  by (induction m) (auto simp: ac_simps split: if_splits)

definition acct_inv :: "tunnel_server \<Rightarrow> bool" where
  "acct_inv st \<longleftrightarrow> gomap_ok (ts_sess st)
     \<and> (\<forall>sid. map_of (ts_sess st) sid \<noteq> None \<longrightarrow> sid < ts_next st)
     \<and> (\<forall>u us sid. map_of (ts_usess st) u = Some us \<longrightarrow> us_owner us = Some sid \<longrightarrow> map_of (ts_sess st) sid \<noteq> None)
     \<and> bytes_sum cs_bytesUp st = ts_totalBytesUp st \<and> bytes_sum cs_bytesDown st = ts_totalBytesDown st"

named_theorems acct_intros "operations that keep the traffic accounts"

lemma bytes_sum_upd_sess:
  assumes "gomap_ok (ts_sess st)" and "map_of (ts_sess st) sid = Some cs"
  shows "bytes_sum g (upd_sess sid f st) = bytes_sum g st - g cs + g (f cs)"
  using assms by (simp add: bytes_sum_def upd_sess_def sum_list_update)

lemma acct_upd_sess [acct_intros]:
  assumes "acct_inv st" and "\<And>cs. cs_bytesUp (f cs) = cs_bytesUp cs \<and> cs_bytesDown (f cs) = cs_bytesDown cs"
  shows "acct_inv (upd_sess sid f st)"
proof (cases "map_of (ts_sess st) sid")
  case None
  then show ?thesis using assms(1) by (simp add: upd_sess_def)
next
  case (Some cs)
  have "gomap_ok (ts_sess (upd_sess sid f st))"
    using assms(1) by (simp add: acct_inv_def upd_sess_def split: option.split)
  then show ?thesis
    using assms Some by (auto simp: acct_inv_def bytes_sum_upd_sess map_of_upd_sess)
qed

lemma acct_fields [simp]:
  "acct_inv (st\<lparr>ts_totalConnections := a\<rparr>) = acct_inv st" "acct_inv (st\<lparr>ts_activeConnections := i\<rparr>) = acct_inv st"
  "acct_inv (st\<lparr>ts_udpServer := l\<rparr>) = acct_inv st" "acct_inv (st\<lparr>ts_udpSessions := m\<rparr>) = acct_inv st"
  "acct_inv (st\<lparr>ts_nextU := n\<rparr>) = acct_inv st" "acct_inv (st\<lparr>ts_udpClientAddrs := ad\<rparr>) = acct_inv st"
  "acct_inv (st\<lparr>ts_proxyWaiting := m\<rparr>) = acct_inv st" "acct_inv (st\<lparr>ts_chan := ch\<rparr>) = acct_inv st"
  "acct_inv (st\<lparr>ts_nextChan := n\<rparr>) = acct_inv st" "acct_inv (st\<lparr>ts_pool := po\<rparr>) = acct_inv st"
  "acct_inv (st\<lparr>ts_clients := cl\<rparr>) = acct_inv st"
  by (simp_all add: acct_inv_def bytes_sum_def)

lemma acct_count [acct_intros]:
  assumes "acct_inv st" and "map_of (ts_sess st) sid \<noteq> None"
  shows "acct_inv (count_up sid n st)" and "acct_inv (count_down sid n st)"
proof -
  from assms(2) obtain cs where cs: "map_of (ts_sess st) sid = Some cs" by blast
  have *: "gomap_ok (ts_sess (upd_sess sid f st))" for f
    using assms(1) by (simp add: acct_inv_def upd_sess_def split: option.split)
  have s: "bytes_sum g (st'\<lparr>ts_totalBytesUp := a\<rparr>) = bytes_sum g st'"
    "bytes_sum g (st'\<lparr>ts_totalBytesDown := a\<rparr>) = bytes_sum g st'" for g a st'
    by (simp_all add: bytes_sum_def)
  show "acct_inv (count_up sid n st)" "acct_inv (count_down sid n st)"
    using assms(1) * cs
    by (auto simp: acct_inv_def count_up_def count_down_def s bytes_sum_upd_sess map_of_upd_sess)
qed

lemma acct_upd_usess [acct_intros]:
  assumes "acct_inv st" and "\<And>us sid. us_owner (f us) = Some sid \<Longrightarrow> us_owner us = Some sid \<or> map_of (ts_sess st) sid \<noteq> None"
  shows "acct_inv (upd_usess u f st)"
  using assms by (auto simp: acct_inv_def bytes_sum_def map_of_upd_usess split: if_splits) (metis option.distinct(1))+

lemma acct_new_usess [acct_intros]:
  assumes "acct_inv st" and "\<And>sid. us_owner us = Some sid \<Longrightarrow> map_of (ts_sess st) sid \<noteq> None"
  shows "acct_inv (st\<lparr>ts_udpSessions := m, ts_usess := AList.update u us (ts_usess st), ts_nextU := n\<rparr>)"
  using assms by (auto simp: acct_inv_def bytes_sum_def map_of_update split: if_splits)

lemma acct_owner: "acct_inv st \<Longrightarrow> find_usess i st = Some (u, us) \<Longrightarrow> us_owner us = Some sid \<Longrightarrow>
    map_of (ts_sess st) sid \<noteq> None"
  by (auto simp: acct_inv_def find_usess_def split: option.splits)

lemma acct_handleUDPClose [acct_intros]: "acct_inv st \<Longrightarrow> acct_inv (handleUDPClose sid st)"
  by (auto simp: handleUDPClose_def udp_Close_def intro!: acct_upd_usess split: option.split)

lemma acct_bind_addr [acct_intros]: "acct_inv st \<Longrightarrow> acct_inv (bind_addr k ad st)"
  by (simp add: bind_addr_def)

lemma acct_sendUDPData [acct_intros]:
  assumes "acct_inv st"
  shows "acct_inv (snd (snd (sendUDPData seal rnd wr k i p st)))"
proof (cases "find_usess i st")
  case None
  then show ?thesis using assms by (simp add: sendUDPData_def)
next
  case (Some e)
  obtain u us where e: "e = (u, us)" by fastforce
  define st1 where "st1 = (case us_owner us of None \<Rightarrow> st | Some o1 \<Rightarrow> count_down o1 (of_nat (length p)) st)"
  have 1: "acct_inv st1"
    using assms acct_owner [OF assms, of i u us] Some e
    by (auto simp: st1_def intro!: acct_count split: option.split)
  have 2: "acct_inv (upd_usess u (\<lambda>s. s\<lparr>us_clientAddr := ad\<rparr>) st1)" for ad
    using 1 by (rule acct_upd_usess) simp
  show ?thesis
    unfolding sendUDPData_def Some e option.case prod.case Let_def st1_def [symmetric]
    using 1 2 by (simp add: split_def split: option.split sum.split)
qed

lemma acct_public_udp:
  assumes "acct_inv st"
  shows "acct_inv (snd (snd (handlePublicUDPDatagram seal rnd wr now sid peer p st)))"
proof -
  have "acct_inv (snd (snd (sendUDPData seal rnd wr k i p
      (upd_usess u (\<lambda>us. us\<lparr>us_owner := if us_owner us = None then Some sid else us_owner us,
         us_publicPeer := Some peer, us_lastActive := now\<rparr>) st1))))"
    if "acct_inv st1" and "map_of (ts_sess st1) sid \<noteq> None" for u k i st1
    by (rule acct_sendUDPData, rule acct_upd_usess [OF that(1)]) (use that(2) in \<open>auto split: if_splits\<close>)
  moreover have "acct_inv (st\<lparr>ts_udpSessions := m, ts_usess := AList.update u us (ts_usess st), ts_nextU := n\<rparr>)"
    if "us_owner us = Some sid" "map_of (ts_sess st) sid \<noteq> None" for m u us n
    by (rule acct_new_usess [OF assms]) (use that in auto)
  ultimately show ?thesis
    using assms by (simp add: handlePublicUDPDatagram_def Let_def split_def split: option.split)
qed

lemma acct_handleUDPOpen [acct_intros]:
  assumes "acct_inv st"
  shows "acct_inv (handleUDPOpen dial sid m st)"
proof -
  have "acct_inv (st\<lparr>ts_udpSessions := mm, ts_usess := AList.update u us (ts_usess st), ts_nextU := n\<rparr>)"
    if "us_owner us = Some sid" "map_of (ts_sess st) sid \<noteq> None" for mm u us n
    by (rule acct_new_usess [OF assms]) (use that in auto)
  then show ?thesis using assms by (simp add: handleUDPOpen_def split: option.split)
qed

lemma acct_udp_data [acct_intros]:
  assumes "acct_inv st"
  shows "acct_inv (snd (handleUDPDataFromClient unseal wr now k i p ad st))"
proof (cases "find_usess i st")
  case None
  then show ?thesis using assms by (simp add: handleUDPDataFromClient_def)
next
  case (Some e)
  obtain u us where e: "e = (u, us)" by fastforce
  have own: "us_owner us = Some sid \<Longrightarrow> map_of (ts_sess st) sid \<noteq> None" for sid
    using acct_owner [OF assms] Some e by simp
  define st1 where "st1 = (upd_usess u (\<lambda>s. s\<lparr>us_clientAddr := Some ad\<rparr>) st)
      \<lparr>ts_udpClientAddrs := AList.update k ad (ts_udpClientAddrs st)\<rparr>"
  have 1: "acct_inv st1" unfolding st1_def acct_fields by (rule acct_upd_usess [OF assms]) simp
  have 2: "acct_inv (upd_usess u (\<lambda>s. s\<lparr>us_lastActive := now\<rparr>)
      (case us_owner us of None \<Rightarrow> st1 | Some o1 \<Rightarrow> count_up o1 n st1))" for n
  proof (rule acct_upd_usess)
    show "acct_inv (case us_owner us of None \<Rightarrow> st1 | Some o1 \<Rightarrow> count_up o1 n st1)"
      using 1 own by (auto intro!: acct_count simp: st1_def split: option.split)
  qed simp
  show ?thesis
    using assms 1 2 acct_handleUDPClose [OF 2]
    unfolding handleUDPDataFromClient_def Some e option.case prod.case Let_def st1_def [symmetric]
    by (simp split: option.split sum.split)
qed

lemma acct_control_udp: "acct_inv st \<Longrightarrow> acct_inv (snd (handleUDPControlPacket unseal wr now p ad st))"
  by (simp add: handleUDPControlPacket_def Let_def split_def acct_intros)

lemma acct_remote_udp: "acct_inv st \<Longrightarrow> acct_inv (fst (snd (readFromUDPRemote_step seal rnd wr u read st)))"
  by (simp add: readFromUDPRemote_step_def Let_def split_def acct_intros split: option.split list.split)

lemma acct_client_message: "acct_inv st \<Longrightarrow> acct_inv (snd (client_message dial now sid m st))"
  by (simp add: client_message_def Let_def acct_intros)

lemma acct_proxy:
  "acct_inv st \<Longrightarrow> acct_inv (snd (snd (proxy_wait pid sid st)))"
  "acct_inv st \<Longrightarrow> acct_inv (snd (proxy_take ch st))"
  "acct_inv st \<Longrightarrow> acct_inv (proxy_done pid st)"
  "acct_inv st \<Longrightarrow> acct_inv (snd (dispatchProxyConnection conn pid st))"
  by (simp_all add: proxy_wait_def proxy_take_def proxy_done_def dispatchProxyConnection_def Let_def
      split: option.split list.split)

lemma acct_session_Close [acct_intros]: "acct_inv st \<Longrightarrow> acct_inv (upd_sess sid session_Close st)"
  by (rule acct_upd_sess) (simp_all add: session_Close_def)

lemma acct_listeners:
  "acct_inv st \<Longrightarrow> acct_inv (startPublicListener ok sid st)"
  "acct_inv st \<Longrightarrow> acct_inv (startPublicUDPListener ok sid st)"
  "acct_inv st \<Longrightarrow> acct_inv (fst (heartbeat_tick now sid st))"
  by (simp_all add: startPublicListener_def startPublicUDPListener_def heartbeat_tick_def acct_intros
      split: option.split)

lemma acct_removeClient: "acct_inv st \<Longrightarrow> acct_inv (removeClient sid st)"
  by (simp add: removeClient_def acct_session_Close split: option.split)

lemma acct_kick: "acct_inv st \<Longrightarrow> acct_inv (snd (kickClient cid st))"
  by (simp add: kickClient_def Let_def acct_removeClient split: option.split)

lemma acct_stream:
  assumes "acct_inv st" and "map_of (ts_sess st) sid \<noteq> None"
  shows "acct_inv (handleProxyStream sid up down st)"
proof -
  have "acct_inv (proxy_stream_begin sid st)" and "map_of (ts_sess (proxy_stream_begin sid st)) sid \<noteq> None"
    using assms by (simp_all add: proxy_stream_begin_def acct_intros map_of_upd_sess)
  then have "acct_inv (count_down sid n (count_up sid m (proxy_stream_begin sid st)))" for n m
    by (intro acct_count) (simp_all add: count_up_def map_of_upd_sess)
  then show ?thesis by (simp add: handleProxyStream_def proxy_stream_end_def acct_intros)
qed

lemma acct_registered: "acct_inv st \<Longrightarrow> acct_inv (snd (registered keygen sid msg key cid st))"
  by (simp add: registered_def Let_def split_def addClient_def acct_intros split: option.split)

lemma acct_with_new_session:
  assumes "acct_inv st"
  shows "acct_inv (with_new_session now host st)"
proof -
  have "map_of (ts_sess st) (ts_next st) = None" using assms by (auto simp: acct_inv_def)
  then have "bytes_sum f (with_new_session now host st) = bytes_sum f st + f (new_session now host)" for f
    by (simp add: bytes_sum_def with_new_session_def sum_list_update_new)
  with assms show ?thesis
    by (simp add: acct_inv_def) (auto simp: with_new_session_def new_session_def map_of_update less_Suc_eq)
qed

lemma acct_register:
  assumes "acct_inv st" and "handleConnection_register rnd keygen enc now host msg st = Ret (r, sid, st')"
  shows "acct_inv st'"
  using assms(2)
proof (cases rule: register_cases)
  case (ok key cid resp st1)
  then show ?thesis
    using acct_registered [OF acct_with_new_session [OF assms(1)], of keygen "ts_next st" msg key cid now host] by simp
qed (simp_all add: acct_removeClient acct_registered acct_with_new_session assms(1))

lemma acct_step: "tunnel_step st st' \<Longrightarrow> acct_inv st \<Longrightarrow> acct_inv st'"
  by (induction rule: tunnel_step.induct)
    (simp_all add: acct_register acct_kick acct_listeners acct_client_message acct_proxy acct_stream
      acct_public_udp acct_control_udp acct_remote_udp client_loop_end_def acct_removeClient)

lemma tunnel_reachable_acct: "tunnel_reachable host lo hi st \<Longrightarrow> acct_inv st"
proof (induction rule: tunnel_reachable.induct)
  case tunnel_start
  show ?case by (simp add: newServer_def acct_inv_def bytes_sum_def)
qed (rule acct_step)

subsection \<open>Ports without an owner\<close>

definition leaked_port :: "int \<Rightarrow> tunnel_server \<Rightarrow> bool" where
  "leaked_port n st \<longleftrightarrow> n \<noteq> spare_port \<and> n \<in> pp_used (ts_pool st) \<and> (\<forall>c. port_owner st c \<noteq> Some n)"

lemma leaked_same_ports: "same_ports st st' \<Longrightarrow> leaked_port n st \<Longrightarrow> leaked_port n st'"
  using same_ports_owner [of st st'] by (simp add: leaked_port_def same_ports_def)

lemma owner_removeClient:
  "port_owner (removeClient sid st) c = None \<or> port_owner (removeClient sid st) c = port_owner st c"
proof (cases "map_of (ts_sess st) sid")
  case (Some cs)
  have "port_owner (upd_sess sid session_Close b) = port_owner b" for b
    using same_ports_owner [OF same_ports_upd_sess [of session_Close b sid]] by simp
  then show ?thesis by (simp add: removeClient_def Some port_owner_delete)
qed (simp add: removeClient_def)

lemma leaked_removeClient: "leaked_port n st \<Longrightarrow> leaked_port n (removeClient sid st)"
proof (cases "map_of (ts_sess st) sid")
  case (Some cs)
  assume l: "leaked_port n st"
  have "port_owner st (cs_clientID cs) = Some (cs_publicPort cs)"
    if "map_of (ts_clients st) (cs_clientID cs) = Some sid"
    by (simp add: port_owner_def that Some)
  with l have "map_of (ts_clients st) (cs_clientID cs) = Some sid \<Longrightarrow> cs_publicPort cs \<noteq> n"
    by (auto simp: leaked_port_def)
  with l have "n \<in> pp_used (ts_pool (removeClient sid st))"
    by (auto simp: removeClient_def Some leaked_port_def release_used)
  with l show ?thesis using owner_removeClient [of sid st] unfolding leaked_port_def
    by (metis option.distinct(1))
qed (simp add: removeClient_def)

lemma leaked_registered:
  assumes "ports_inv st" and "leaked_port n st"
  shows "leaked_port n (snd (registered keygen (ts_next st) msg key cid (with_new_session now host st)))"
proof -
  let ?s = "with_new_session now host st"
  obtain m p where a: "getNextPublicPort (ts_pool ?s) (tm_RequestedPort msg) = (m, p)" by fastforce
  obtain resp st' where r: "registered keygen (ts_next st) msg key cid ?s = (resp, st')" by fastforce
  have s1: "map_of (ts_sess ?s) (ts_next st) = Some (new_session now host)"
    by (simp add: with_new_session_def map_of_update)
  have s2: "\<forall>c. map_of (ts_clients ?s) c \<noteq> Some (ts_next st)"
    using fresh_handle(2) assms(1) by (simp add: with_new_session_def ports_inv_def)
  note o1 = registered_owner [OF s1 s2 r a]
  have i: "pool_inv (ts_pool ?s)" and po: "ts_pool ?s = ts_pool st"
    using assms(1) by (simp_all add: with_new_session_def ports_inv_def)
  from alloc_used [OF i a] o1 assms(2) po r show ?thesis
    by (auto simp: leaked_port_def ports_inv_with_new_session(2) [OF assms(1)])
qed

lemma leaked_with_new_session: "ports_inv st \<Longrightarrow> leaked_port n st \<Longrightarrow> leaked_port n (with_new_session now host st)"
  by (simp add: leaked_port_def ports_inv_with_new_session) (simp add: with_new_session_def)

lemma leaked_step: "tunnel_step st st' \<Longrightarrow> ports_inv st \<Longrightarrow> leaked_port n st \<Longrightarrow> leaked_port n st'"
proof (induction rule: tunnel_step.induct)
  case (register rnd keygen enc now host msg st r sid st')
  from register(1) show ?case
  proof (cases rule: register_cases)
    case (ok key cid resp st1)
    then show ?thesis
      using leaked_registered [OF register(2,3), of keygen msg key cid now host] leaked_same_ports [of st1 st' n]
      by simp
  qed (simp_all add: leaked_removeClient leaked_registered leaked_with_new_session register)
next
  case (loop_end st sid)
  then show ?case unfolding client_loop_end_def
    by (intro leaked_removeClient, elim leaked_same_ports [rotated]) simp
next
  case (kick st cid)
  then show ?case by (simp add: kickClient_def Let_def leaked_removeClient split: option.split)
qed (erule leaked_same_ports [rotated], simp add: same_ports_intros)+

lemma leaked_steps:
  "tunnel_step\<^sup>*\<^sup>* st st' \<Longrightarrow> ports_inv st \<Longrightarrow> leaked_port n st \<Longrightarrow> ports_inv st' \<and> leaked_port n st'"
  by (induction rule: rtranclp_induct) (auto intro: ports_inv_step leaked_step)

subsection \<open>Properties\<close>

text \<open>C9: in every reachable state a public port other than the spare port 10000 belongs to at most one registered
  client, lies in the range of the pool, is marked used and is not free.\<close>

theorem tunnel_ports_exclusive:
  assumes "tunnel_reachable host lo hi st" and "port_owner st c1 = Some n" and "n \<noteq> spare_port"
  shows "n \<in> pp_used (ts_pool st) \<and> n \<notin> set (pp_avail (ts_pool st))
    \<and> pp_start (ts_pool st) \<le> n \<and> n \<le> pp_end (ts_pool st)
    \<and> (\<forall>c2. port_owner st c2 = Some n \<longrightarrow> c2 = c1)"
proof -
  have i: "pool_inv (ts_pool st)" and h: "ports_held spare_port (pp_used (ts_pool st)) (port_owner st)"
    using tunnel_reachable_ports [OF assms(1)] by (auto simp: ports_inv_def)
  from h assms(2,3) have "n \<in> pp_used (ts_pool st)" "\<forall>c2. port_owner st c2 = Some n \<longrightarrow> c2 = c1"
    unfolding ports_held_def by blast+
  with i show ?thesis by (auto simp: pool_inv_def)
qed

text \<open>Two clients registered on a fresh server, for the witnesses.\<close>

definition demo_msg :: "string \<Rightarrow> tunnel_msg" where
  "demo_msg cid = no_msg\<lparr>tm_Type := ''register'', tm_Key := ''secret-1'', tm_ClientID := cid\<rparr>"

abbreviation demo_register :: "string \<Rightarrow> tunnel_server \<Rightarrow> ((string + tunnel_msg) \<times> nat \<times> tunnel_server) go" where
  "demo_register cid \<equiv> handleConnection_register (Inl ''rnd'') (Inl ''rnd'') None 0 ''h'' (demo_msg cid)"

lemma demo_msg_simps [simp]:
  "TrimSpace (tm_Key (demo_msg cid)) = ''secret-1''" "tm_ClientID (demo_msg cid) = cid"
  "tm_RequestedPort (demo_msg cid) = 0" "wanted_protocol (demo_msg cid) = ''tcp''" "tm_Target (demo_msg cid) = []"
  by (simp_all add: demo_msg_def no_msg_def TrimSpace_def go_space_def wanted_protocol_def ToLower_def)

lemmas demo_simps = with_new_session_def new_session_def addClient_def registered_def upd_sess_def

definition demo_resp :: "string \<Rightarrow> int \<Rightarrow> tunnel_msg" where
  "demo_resp cid port = no_msg\<lparr>tm_Type := ''registered'', tm_Key := ''secret-1'', tm_ClientID := cid,
     tm_RemotePort := port, tm_Protocol := ''tcp'', tm_Version := tunnel_Version\<rparr>"

definition demo_one :: tunnel_server where
  "demo_one = \<lparr>ts_publicHost = [], ts_pool = \<lparr>pp_start = 8000, pp_end = 8001, pp_avail = [8001], pp_used = {8000}\<rparr>,
     ts_clients = [(''a'', 0)],
     ts_sess = [(0, \<lparr>cs_clientID = ''a'', cs_key = ''secret-1'', cs_target = [], cs_protocol = ''tcp'',
       cs_publicPort = 8000, cs_lastSeen = 0, cs_done = False, cs_bytesUp = 0, cs_bytesDown = 0,
       cs_remoteIP = ''h'', cs_publicListener = False, cs_publicUDP = False, cs_activeProxy = 0,
       cs_udpSecret = None\<rparr>)],
     ts_next = 1, ts_proxyWaiting = [], ts_chan = [], ts_nextChan = 0, ts_totalConnections = 0,
     ts_activeConnections = 1, ts_totalBytesUp = 0, ts_totalBytesDown = 0, ts_udpServer = False,
     ts_udpSessions = [], ts_usess = [], ts_nextU = 0, ts_udpClientAddrs = []\<rparr>"

lemma demo_one: "demo_register ''a'' (newServer [] 8000 8001) = Ret (Inr (demo_resp ''a'' 8000), 0, demo_one)"
proof -
  have 1: "getNextPublicPort (new_pool 8000 8001) 0 =
      (8000, \<lparr>pp_start = 8000, pp_end = 8001, pp_avail = [8001], pp_used = {8000}\<rparr>)"
    by (simp add: getNextPublicPort_def new_pool_def upto.simps)
  have 2: "registered (Inl ''rnd'') 0 (demo_msg ''a'') ''secret-1'' ''a'' (with_new_session 0 ''h'' (newServer [] 8000 8001))
      = (demo_resp ''a'' 8000, demo_one\<lparr>ts_activeConnections := 0\<rparr>)"
    by (simp add: demo_simps 1 newServer_def demo_resp_def demo_one_def no_msg_def)
  have 3: "demo_one\<lparr>ts_activeConnections := 1\<rparr> = demo_one" by (simp add: demo_one_def)
  have 4: "TrimSpace ''a'' = ''a''" by (simp add: TrimSpace_def go_space_def)
  have n: "ts_next (newServer [] 8000 8001) = 0" by (simp add: newServer_def)
  show ?thesis
    by (subst register_named [where resp = "demo_resp ''a'' 8000" and ?st1.0 = "demo_one\<lparr>ts_activeConnections := 0\<rparr>"])
      (simp_all add: 2 3 4 n)
qed

lemma demo_one_reachable: "tunnel_reachable [] 8000 8001 demo_one"
  using tunnel_next [OF tunnel_start register [OF demo_one]] .

theorem tunnel_ports_exclusive_witness:
  "8000 \<in> pp_used (ts_pool demo_one) \<and> port_owner demo_one ''a'' = Some 8000"
proof -
  have o1: "port_owner demo_one ''a'' = Some 8000" by (simp add: port_owner_def demo_one_def)
  then show ?thesis
    using tunnel_ports_exclusive [OF demo_one_reachable o1, THEN conjunct1] by (simp add: spare_port_def)
qed

text \<open>C12: the traffic totals of the server are the sums, modulo 2^64, of what every session that ever registered has
  transferred in that direction, removed sessions included, in every reachable state.\<close>

theorem tunnel_traffic_totals:
  assumes "tunnel_reachable host lo hi st"
  shows "ts_totalBytesUp st = sum_list (map (cs_bytesUp \<circ> snd) (ts_sess st))
    \<and> ts_totalBytesDown st = sum_list (map (cs_bytesDown \<circ> snd) (ts_sess st))"
  using tunnel_reachable_acct [OF assms] by (simp add: acct_inv_def bytes_sum_def comp_def)

theorem tunnel_traffic_totals_witness:
  "ts_totalBytesUp (handleProxyStream 0 5 7 demo_one) = 5
   \<and> sum_list (map (cs_bytesDown \<circ> snd) (ts_sess (handleProxyStream 0 5 7 demo_one))) = 7"
proof -
  have r: "tunnel_reachable [] 8000 8001 (handleProxyStream 0 5 7 demo_one)"
    by (rule tunnel_next [OF demo_one_reachable stream]) (simp add: demo_one_def)
  show ?thesis
    using tunnel_traffic_totals [OF r]
    by (simp add: handleProxyStream_def count_up_def count_down_def proxy_stream_begin_def proxy_stream_end_def
      upd_sess_def demo_one_def)
qed

text \<open>a register message makes the server panic exactly when it leaves the client name blank and its key, blanks
  trimmed, has one to seven bytes: \<open>key[:8]\<close> is then out of range and no \<open>recover\<close> guards the goroutine.\<close>

lemma register_panics_iff:
  assumes "\<forall>bs. rnd = Inr bs \<longrightarrow> length bs = 16"
  shows "handleConnection_register rnd keygen enc now host msg st = Panic
    \<longleftrightarrow> TrimSpace (tm_ClientID msg) = [] \<and> TrimSpace (tm_Key msg) \<noteq> [] \<and> length (TrimSpace (tm_Key msg)) < 8"
proof -
  have n: "client_name msg key = Panic \<longleftrightarrow> TrimSpace (tm_ClientID msg) = [] \<and> length key < 8" for key
    by (simp add: client_name_def go_slice_def)
  have h: "handleClient rnd keygen enc sid msg st0 = Panic \<longleftrightarrow>
      (\<exists>key. (if TrimSpace (tm_Key msg) = [] then GenerateID rnd else Inr (TrimSpace (tm_Key msg))) = Inr key
        \<and> client_name msg key = Panic)" for sid st0
  proof -
    have "(let (resp, st') = registered keygen sid msg key cid st0
        in case enc of Some err \<Rightarrow> Ret (Inl err, st')
           | None \<Rightarrow> Ret (Inr resp, st'\<lparr>ts_activeConnections := ts_activeConnections st' + 1\<rparr>)) \<noteq> Panic" for key cid
      by (simp add: Let_def split_def split: option.split)
    then show ?thesis
      by (cases "if TrimSpace (tm_Key msg) = [] then GenerateID rnd else Inr (TrimSpace (tm_Key msg))")
        (simp_all add: handleClient_def go_bind_Panic_iff del: Let_def)
  qed
  have "handleConnection_register rnd keygen enc now host msg st = Panic \<longleftrightarrow>
      handleClient rnd keygen enc (ts_next st) msg (with_new_session now host st) = Panic"
    by (auto simp: handleConnection_register_def with_new_session_def Let_def go_bind_Panic_iff)
  then show ?thesis
    using assms by (auto simp: h n GenerateID_def split: sum.splits)
qed

lemma register_panics_iff_witness:
  "handleConnection_register (Inl ''rnd'') (Inl ''rnd'') None 0 ''h'' (no_msg\<lparr>tm_Type := ''register'', tm_Key := ''k''\<rparr>)
     (newServer [] 8000 8001) = Panic"
proof -
  have "\<forall>bs. (Inl ''rnd'' :: string + string) = Inr bs \<longrightarrow> length bs = 16" by simp
  from register_panics_iff [OF this] show ?thesis by (simp add: TrimSpace_def go_space_def no_msg_def)
qed

text \<open>a client that registers again under its name while its first connection is still registered makes the
  server lose that connection's port for good: in every later state, whoever disconnects, no registered client
  has that port, it is marked used and it is not free, so it can never be assigned again.\<close>

lemma reregistration_leaks_port:
  assumes "tunnel_reachable host lo hi st"
    and "port_owner st cid = Some n" and "n \<noteq> spare_port"
    and "handleConnection_register rnd keygen enc now h msg st = Ret (Inr resp, sid2, st1)"
    and "TrimSpace (tm_ClientID msg) = cid" and "cid \<noteq> []"
    and "tunnel_step\<^sup>*\<^sup>* st1 st2"
  shows "n \<in> pp_used (ts_pool st2) \<and> n \<notin> set (pp_avail (ts_pool st2)) \<and> (\<forall>c. port_owner st2 c \<noteq> Some n)"
proof -
  let ?s = "with_new_session now h st"
  have i: "ports_inv st" by (rule tunnel_reachable_ports [OF assms(1)])
  have used: "n \<in> pp_used (ts_pool st)" and excl: "\<forall>c. port_owner st c = Some n \<longrightarrow> c = cid"
    using tunnel_reachable_ports [OF assms(1)] assms(2,3) unfolding ports_inv_def ports_held_def by blast+
  obtain st0 where sid2: "sid2 = ts_next st" and s01: "same_ports st0 st1"
    and reg: "\<exists>key resp'. registered keygen (ts_next st) msg key cid ?s = (resp', st0)"
    using assms(4)
  proof (cases rule: register_cases)
    case (ok key c resp' st0)
    moreover from ok(2) assms(5,6) have "c = cid" by (simp add: client_name_def)
    ultimately show ?thesis using that [of st0] by auto
  qed simp_all
  obtain m p where a: "getNextPublicPort (ts_pool ?s) (tm_RequestedPort msg) = (m, p)" by fastforce
  have s1: "map_of (ts_sess ?s) (ts_next st) = Some (new_session now h)"
    and po: "ts_pool ?s = ts_pool st"
    by (simp_all add: with_new_session_def map_of_update)
  have s2: "\<forall>c. map_of (ts_clients ?s) c \<noteq> Some (ts_next st)"
    using fresh_handle(2) i by (simp add: with_new_session_def ports_inv_def)
  from reg obtain key resp' where r: "registered keygen (ts_next st) msg key cid ?s = (resp', st0)" by blast
  from registered_owner [OF s1 s2 r a]
  have o0: "port_owner st0 = (port_owner st)(cid \<mapsto> m)" and p0: "ts_pool st0 = p"
    by (simp_all add: ports_inv_with_new_session(2) [OF i])
  have "pool_inv (ts_pool ?s)" using i po by (simp add: ports_inv_def)
  from alloc_used [OF this a] used po assms(3) have "m \<noteq> n" "n \<in> pp_used p" by auto
  with o0 p0 excl assms(3) have "leaked_port n st0" by (auto simp: leaked_port_def)
  then have l: "leaked_port n st1" by (rule leaked_same_ports [OF s01])
  have "ports_inv st1" by (rule ports_inv_register [OF i assms(4)])
  from leaked_steps [OF assms(7) this l] show ?thesis
    by (auto simp: leaked_port_def ports_inv_def pool_inv_def)
qed

definition demo_two :: tunnel_server where
  "demo_two = demo_one\<lparr>ts_pool := \<lparr>pp_start = 8000, pp_end = 8001, pp_avail = [], pp_used = {8000, 8001}\<rparr>,
     ts_clients := [(''a'', 1)],
     ts_sess := ts_sess demo_one @ [(1, \<lparr>cs_clientID = ''a'', cs_key = ''secret-1'', cs_target = [], cs_protocol = ''tcp'',
       cs_publicPort = 8001, cs_lastSeen = 0, cs_done = False, cs_bytesUp = 0, cs_bytesDown = 0,
       cs_remoteIP = ''h'', cs_publicListener = False, cs_publicUDP = False, cs_activeProxy = 0,
       cs_udpSecret = None\<rparr>)],
     ts_next := 2, ts_activeConnections := 2\<rparr>"

lemma demo_two: "demo_register ''a'' demo_one = Ret (Inr (demo_resp ''a'' 8001), 1, demo_two)"
proof -
  have 1: "getNextPublicPort \<lparr>pp_start = 8000, pp_end = 8001, pp_avail = [8001], pp_used = {8000}\<rparr> 0 =
      (8001, \<lparr>pp_start = 8000, pp_end = 8001, pp_avail = [], pp_used = {8000, 8001}\<rparr>)"
    by (auto simp: getNextPublicPort_def)
  have 2: "registered (Inl ''rnd'') 1 (demo_msg ''a'') ''secret-1'' ''a'' (with_new_session 0 ''h'' demo_one)
      = (demo_resp ''a'' 8001, demo_two\<lparr>ts_activeConnections := 1\<rparr>)"
    by (simp add: demo_simps 1 demo_resp_def demo_one_def demo_two_def no_msg_def)
  have 3: "demo_two\<lparr>ts_activeConnections := 2\<rparr> = demo_two" by (simp add: demo_two_def)
  have 4: "TrimSpace ''a'' = ''a''" by (simp add: TrimSpace_def go_space_def)
  have n: "ts_next demo_one = 1" by (simp add: demo_one_def)
  show ?thesis
    by (subst register_named [where resp = "demo_resp ''a'' 8001" and ?st1.0 = "demo_two\<lparr>ts_activeConnections := 1\<rparr>"])
      (simp_all add: 2 3 4 n del: One_nat_def)
qed

lemma reregistration_leaks_port_witness:
  "8000 \<in> pp_used (ts_pool (client_loop_end 1 (client_loop_end 0 demo_two)))
   \<and> port_owner (client_loop_end 1 (client_loop_end 0 demo_two)) ''b'' \<noteq> Some 8000"
proof -
  have s: "tunnel_step\<^sup>*\<^sup>* demo_two (client_loop_end 1 (client_loop_end 0 demo_two))"
    by (meson loop_end r_into_rtranclp rtranclp.rtrancl_into_rtrancl)
  have o1: "port_owner demo_one ''a'' = Some 8000" by (simp add: port_owner_def demo_one_def)
  from reregistration_leaks_port [OF demo_one_reachable o1 _ demo_two _ _ s]
  have "8000 \<in> pp_used (ts_pool (client_loop_end 1 (client_loop_end 0 demo_two)))"
    and "\<forall>c. port_owner (client_loop_end 1 (client_loop_end 0 demo_two)) c \<noteq> Some 8000"
    by (simp_all add: spare_port_def TrimSpace_def go_space_def)
  then show ?thesis by blast
qed

text \<open>once the pool is exhausted the fallback port 10000 is handed out a second time when it lies in the pool (the
  service configures 10000 to 20000): the holder of port 10000 and the new client then share it, and when the new
  client is kicked the port is put back into the free list although its first holder is still registered.\<close>

theorem spare_port_shared:
  assumes "tunnel_reachable host lo hi st" and "pp_avail (ts_pool st) = []"
    and "port_owner st c1 = Some spare_port" and "spare_port \<in> pp_used (ts_pool st)"
    and "handleConnection_register rnd keygen enc now h msg st = Ret (Inr resp, sid, st1)"
    and "TrimSpace (tm_ClientID msg) = c2" and "c2 \<noteq> []" and "c2 \<noteq> c1"
    and "tm_RequestedPort msg = 0" and "0 < pp_start (ts_pool st)"
  shows "port_owner st1 c1 = Some spare_port \<and> port_owner st1 c2 = Some spare_port
    \<and> port_owner (removeClient sid st1) c1 = Some spare_port
    \<and> spare_port \<in> set (pp_avail (ts_pool (removeClient sid st1)))"
proof -
  let ?s = "with_new_session now h st"
  have i: "ports_inv st" by (rule tunnel_reachable_ports [OF assms(1)])
  obtain st0 where sid: "sid = ts_next st" and s01: "same_ports st0 st1"
    and reg: "\<exists>key resp'. registered keygen (ts_next st) msg key c2 ?s = (resp', st0)"
    using assms(5)
  proof (cases rule: register_cases)
    case (ok key c resp' st0)
    moreover from ok(2) assms(6,7) have "c = c2" by (simp add: client_name_def)
    ultimately show ?thesis using that [of st0] by auto
  qed simp_all
  have a: "getNextPublicPort (ts_pool ?s) (tm_RequestedPort msg) = (spare_port, ts_pool st)"
    using assms(2,9,10) by (simp add: getNextPublicPort_def with_new_session_def)
  have s1: "map_of (ts_sess ?s) (ts_next st) = Some (new_session now h)"
    by (simp add: with_new_session_def map_of_update)
  have s2: "\<forall>c. map_of (ts_clients ?s) c \<noteq> Some (ts_next st)"
    using fresh_handle(2) i by (simp add: with_new_session_def ports_inv_def)
  from reg obtain key resp' where r: "registered keygen (ts_next st) msg key c2 ?s = (resp', st0)" by blast
  note o0 = registered_owner [OF s1 s2 r a]
  then have own: "port_owner st1 = (port_owner st)(c2 \<mapsto> spare_port)" and pool: "ts_pool st1 = ts_pool st"
    and cl: "map_of (ts_clients st1) c2 = Some sid"
    using s01 same_ports_owner [OF s01] sid
    by (simp_all add: same_ports_def map_of_update ports_inv_with_new_session(2) [OF i])
  have f: "map_option cs_publicPort (map_of (ts_sess st1) sid) = Some spare_port"
    "map_option cs_clientID (map_of (ts_sess st1) sid) = Some c2"
    using o0 sid by (auto simp: same_ports_fields_eq [OF s01])
  then obtain cs where cs: "map_of (ts_sess st1) sid = Some cs" "cs_publicPort cs = spare_port" "cs_clientID cs = c2"
    by auto
  have "port_owner (removeClient sid st1) c1 = port_owner st1 c1"
    using same_ports_owner [OF same_ports_upd_sess [of session_Close _ sid]] assms(8)
    by (simp add: removeClient_def cs port_owner_delete cl)
  moreover have "spare_port \<in> set (pp_avail (ts_pool (removeClient sid st1)))"
    using assms(4) pool by (simp add: removeClient_def cs cl releasePort_def)
  ultimately show ?thesis using own assms(3,8) by simp
qed

definition demo_full :: tunnel_server where
  "demo_full = demo_one\<lparr>ts_pool := \<lparr>pp_start = 10000, pp_end = 10000, pp_avail = [], pp_used = {10000}\<rparr>,
     ts_sess := [(0, \<lparr>cs_clientID = ''a'', cs_key = ''secret-1'', cs_target = [], cs_protocol = ''tcp'',
       cs_publicPort = 10000, cs_lastSeen = 0, cs_done = False, cs_bytesUp = 0, cs_bytesDown = 0,
       cs_remoteIP = ''h'', cs_publicListener = False, cs_publicUDP = False, cs_activeProxy = 0,
       cs_udpSecret = None\<rparr>)]\<rparr>"

lemma demo_full: "demo_register ''a'' (newServer [] 10000 10000) = Ret (Inr (demo_resp ''a'' 10000), 0, demo_full)"
proof -
  have 1: "getNextPublicPort (new_pool 10000 10000) 0 =
      (10000, \<lparr>pp_start = 10000, pp_end = 10000, pp_avail = [], pp_used = {10000}\<rparr>)"
    by (simp add: getNextPublicPort_def new_pool_def)
  have 2: "registered (Inl ''rnd'') 0 (demo_msg ''a'') ''secret-1'' ''a'' (with_new_session 0 ''h'' (newServer [] 10000 10000))
      = (demo_resp ''a'' 10000, demo_full\<lparr>ts_activeConnections := 0\<rparr>)"
    by (simp add: demo_simps 1 newServer_def demo_resp_def demo_full_def demo_one_def no_msg_def)
  have 3: "demo_full\<lparr>ts_activeConnections := 1\<rparr> = demo_full" by (simp add: demo_full_def demo_one_def)
  have 4: "TrimSpace ''a'' = ''a''" by (simp add: TrimSpace_def go_space_def)
  have n: "ts_next (newServer [] 10000 10000) = 0" by (simp add: newServer_def)
  show ?thesis
    by (subst register_named [where resp = "demo_resp ''a'' 10000" and ?st1.0 = "demo_full\<lparr>ts_activeConnections := 0\<rparr>"])
      (simp_all add: 2 3 4 n)
qed

theorem spare_port_shared_witness:
  "\<exists>resp sid st1. demo_register ''b'' demo_full = Ret (Inr resp, sid, st1)
     \<and> port_owner st1 ''a'' = Some 10000 \<and> port_owner st1 ''b'' = Some 10000
     \<and> 10000 \<in> set (pp_avail (ts_pool (removeClient sid st1)))"
proof -
  have reach: "tunnel_reachable [] 10000 10000 demo_full"
    by (rule tunnel_next [OF tunnel_start register [OF demo_full]])
  have o1: "port_owner demo_full ''a'' = Some spare_port" "spare_port \<in> pp_used (ts_pool demo_full)"
    "pp_avail (ts_pool demo_full) = []" "0 < pp_start (ts_pool demo_full)"
    by (simp_all add: port_owner_def demo_full_def demo_one_def spare_port_def)
  have t: "TrimSpace (tm_ClientID (demo_msg ''b'')) = ''b''" by (simp add: TrimSpace_def go_space_def)
  obtain resp st1 where r: "demo_register ''b'' demo_full = Ret (Inr resp, ts_next demo_full, st1)"
    using register_named [of "demo_msg ''b''" _ demo_full 0 "''h''"] t by (metis demo_msg_simps(1) list.distinct(1) surj_pair)
  from spare_port_shared [OF reach o1(3,1,2) r t _ _ demo_msg_simps(3) o1(4)] r show ?thesis
    by (auto simp: spare_port_def)
qed

end
