(* ===== verification/Tunnel_Traffic.thy ===== *)
theory Tunnel_Traffic
  imports Tunnel_System
begin

text \<open>
  What the tunnel server (\<open>internal/xtpro/server/server.go\<close>) shows and carries: the order and completeness of the
  dashboard views, the rendezvous of public and client connections, and the path of UDP datagrams
  between a public peer and an agent.
\<close>

subsection \<open>The rendezvous of proxy connections\<close>

definition proxy_state :: "tunnel_server \<Rightarrow> (string, nat) gomap \<times> (nat, nat list) gomap \<times> nat" where
  "proxy_state st = (ts_proxyWaiting st, ts_chan st, ts_nextChan st)"

named_theorems proxy_state_simps "operations that leave the rendezvous alone"

lemma proxy_state_upd [proxy_state_simps]:
  "proxy_state (upd_sess sid f st) = proxy_state st" "proxy_state (upd_usess u g st) = proxy_state st"
  "proxy_state (count_up sid n st) = proxy_state st" "proxy_state (count_down sid n st) = proxy_state st"
  "proxy_state (bind_addr k ad st) = proxy_state st"
  by (simp_all add: proxy_state_def count_up_def count_down_def bind_addr_def)

lemma proxy_state_fields [proxy_state_simps]:
  "proxy_state (st\<lparr>ts_clients := cl\<rparr>) = proxy_state st" "proxy_state (st\<lparr>ts_pool := po\<rparr>) = proxy_state st"
  "proxy_state (st\<lparr>ts_sess := se\<rparr>) = proxy_state st" "proxy_state (st\<lparr>ts_next := n\<rparr>) = proxy_state st"
  "proxy_state (st\<lparr>ts_activeConnections := i\<rparr>) = proxy_state st"
  "proxy_state (st\<lparr>ts_totalConnections := a\<rparr>) = proxy_state st"
  "proxy_state (st\<lparr>ts_udpServer := l\<rparr>) = proxy_state st" "proxy_state (st\<lparr>ts_udpSessions := m\<rparr>) = proxy_state st"
  "proxy_state (st\<lparr>ts_usess := us\<rparr>) = proxy_state st" "proxy_state (st\<lparr>ts_nextU := n\<rparr>) = proxy_state st"
  "proxy_state (st\<lparr>ts_udpClientAddrs := ad\<rparr>) = proxy_state st"
  by (simp_all add: proxy_state_def)

lemma proxy_state_server [proxy_state_simps]:
  "proxy_state (removeClient sid st) = proxy_state st"
  "proxy_state (snd (kickClient cid st)) = proxy_state st"
  "proxy_state (fst (heartbeat_tick now sid st)) = proxy_state st"
  "proxy_state (startPublicListener ok sid st) = proxy_state st"
  "proxy_state (startPublicUDPListener ok sid st) = proxy_state st"
  "proxy_state (addClient sid st) = proxy_state st"
  "proxy_state (snd (registered keygen sid msg key cid st)) = proxy_state st"
  "proxy_state (with_new_session now host st) = proxy_state st"
  by (simp_all add: removeClient_def kickClient_def heartbeat_tick_def startPublicListener_def
      startPublicUDPListener_def addClient_def registered_def with_new_session_def Let_def split_def
      proxy_state_simps split: option.split)

lemma proxy_state_close [proxy_state_simps]:
  "proxy_state (handleUDPClose i st) = proxy_state st"
  "proxy_state (handleUDPOpen dial sid m st) = proxy_state st"
  "proxy_state (snd (snd (sendUDPData seal rnd wr k i p st))) = proxy_state st"
  by (simp_all add: handleUDPClose_def handleUDPOpen_def sendUDPData_def Let_def split_def
      proxy_state_simps split: option.split sum.split)

lemma proxy_state_udp [proxy_state_simps]:
  "proxy_state (snd (handleUDPDataFromClient unseal wr now k i p ad st)) = proxy_state st"
  "proxy_state (snd (snd (handlePublicUDPDatagram seal rnd wr now sid peer p st))) = proxy_state st"
  "proxy_state (fst (snd (readFromUDPRemote_step seal rnd wr u read st))) = proxy_state st"
  "proxy_state (snd (client_message dial now sid m st)) = proxy_state st"
  by (simp_all add: handleUDPDataFromClient_def handlePublicUDPDatagram_def readFromUDPRemote_step_def
      client_message_def Let_def split_def proxy_state_simps split: option.split sum.split list.split)

lemma proxy_state_control [proxy_state_simps]:
  "proxy_state (snd (handleUDPControlPacket unseal wr now p ad st)) = proxy_state st"
  by (simp add: handleUDPControlPacket_def Let_def split_def proxy_state_simps)

lemma proxy_state_stream [proxy_state_simps]: "proxy_state (handleProxyStream sid up down st) = proxy_state st"
  by (simp add: handleProxyStream_def proxy_stream_begin_def proxy_stream_end_def proxy_state_simps)

lemma proxy_state_register:
  "handleConnection_register rnd keygen enc now host msg st = Ret (r, sid, st') \<Longrightarrow> proxy_state st' = proxy_state st"
  by (erule register_cases) (auto simp: proxy_state_simps, metis proxy_state_server(7,8) snd_conv)

text \<open>Every identifier somebody waits under has a channel of its own, and that channel is empty.\<close>

definition proxy_inv :: "tunnel_server \<Rightarrow> bool" where
  "proxy_inv st \<longleftrightarrow> (\<forall>pid ch. map_of (ts_proxyWaiting st) pid = Some ch \<longrightarrow>
     ch < ts_nextChan st \<and> get_or [] (ts_chan st) ch = []
     \<and> (\<forall>pid'. map_of (ts_proxyWaiting st) pid' = Some ch \<longrightarrow> pid' = pid))"

lemma proxy_inv_cong: "proxy_state st' = proxy_state st \<Longrightarrow> proxy_inv st \<Longrightarrow> proxy_inv st'"
  by (simp add: proxy_inv_def proxy_state_def)

lemma proxy_inv_step: "tunnel_step st st' \<Longrightarrow> proxy_inv st \<Longrightarrow> proxy_inv st'"
proof (induction rule: tunnel_step.induct)
  case (register rnd keygen enc now host msg st r sid st')
  then show ?case using proxy_state_register proxy_inv_cong by blast
next
  case (public_conn st pid sid)
  then have "\<And>p c. map_of (ts_proxyWaiting st) p = Some c \<Longrightarrow> c < Suc (ts_nextChan st) \<and> c \<noteq> ts_nextChan st"
    by (fastforce simp: proxy_inv_def)
  with public_conn show ?case by (auto simp: proxy_inv_def proxy_wait_def Let_def map_of_update get_or_update)
next
  case (dispatch st conn pid)
  then show ?case
    by (auto simp: proxy_inv_def dispatchProxyConnection_def Let_def map_of_delete get_or_update split: option.split)
next
  case (take st ch)
  then show ?case
    by (auto simp: proxy_inv_def proxy_take_def get_or_update split: list.split)
next
  case (proxy_end st pid)
  then show ?case by (auto simp: proxy_inv_def proxy_done_def map_of_delete)
next
  case (loop_end st sid)
  then show ?case by (elim proxy_inv_cong [rotated]) (simp add: client_loop_end_def proxy_state_simps)
qed (elim proxy_inv_cong [rotated], simp add: proxy_state_simps)+

lemma tunnel_reachable_proxy: "tunnel_reachable host lo hi st \<Longrightarrow> proxy_inv st"
proof (induction rule: tunnel_reachable.induct)
  case tunnel_start
  show ?case by (simp add: proxy_inv_def newServer_def)
qed (rule proxy_inv_step)

text \<open>C18: the rendezvous hands a client connection to exactly one public connection: in every reachable state the
  first connection dispatched under an awaited identifier is taken by the connection that waits under it, without
  the sender ever blocking; a later connection under the same identifier, and any connection after the wait was
  given up, is refused.\<close>

theorem proxy_rendezvous_once:
  assumes "tunnel_reachable host lo hi st" and "map_of (ts_proxyWaiting st) pid = Some ch"
  shows "fst (dispatchProxyConnection c pid st) \<and> fst (proxy_take ch (snd (dispatchProxyConnection c pid st))) = Some c
    \<and> \<not> fst (dispatchProxyConnection c2 pid (snd (dispatchProxyConnection c pid st)))
    \<and> \<not> fst (dispatchProxyConnection c pid (proxy_done pid st))
    \<and> (\<forall>ch'. ch' \<noteq> ch \<longrightarrow> fst (proxy_take ch' (snd (dispatchProxyConnection c pid st))) = fst (proxy_take ch' st))"
proof -
  have e: "get_or [] (ts_chan st) ch = []"
    using tunnel_reachable_proxy [OF assms(1)] assms(2) by (simp add: proxy_inv_def)
  have "fst (proxy_take ch' (snd (dispatchProxyConnection c pid st))) = fst (proxy_take ch' st)" if "ch' \<noteq> ch" for ch'
    using e assms(2) that by (auto simp: dispatchProxyConnection_def proxy_take_def get_or_update Let_def split: list.split)
  then show ?thesis
    using e assms(2)
    by (auto simp: dispatchProxyConnection_def proxy_take_def proxy_done_def get_or_update map_of_delete Let_def)
qed

theorem proxy_rendezvous_once_witness:
  "fst (dispatchProxyConnection 9 ''p1'' (snd (snd (proxy_wait ''p1'' 0 demo_one))))"
proof -
  let ?st = "snd (snd (proxy_wait ''p1'' 0 demo_one))"
  have r: "tunnel_reachable [] 8000 8001 ?st"
    by (rule tunnel_next [OF demo_one_reachable public_conn])
  have "map_of (ts_proxyWaiting ?st) ''p1'' = Some 0"
    by (simp add: proxy_wait_def Let_def demo_one_def)
  from proxy_rendezvous_once [OF r this] show ?thesis by blast
qed

subsection \<open>Dashboard\<close>

lemma map_filter_total:
  "(\<And>x. x \<in> set xs \<Longrightarrow> f x \<noteq> None) \<Longrightarrow> List.map_filter f xs = map (\<lambda>x. the (f x)) xs"
  by (induction xs) (auto simp: List.map_filter_simps split: option.split)

lemma sorted_key_strict:
  assumes "distinct (map k xs)"
  shows "sorted_wrt (\<lambda>x y. k x < k y) (sort_key k xs)"
proof -
  have "distinct (map k (sort_key k xs))"
    using assms by (metis mset_map mset_sort mset_eq_imp_distinct_iff)
  moreover have "sorted (map k (sort_key k xs))" by simp
  ultimately have "sorted_wrt (<) (map k (sort_key k xs))" using strict_sorted_iff by blast
  then show ?thesis by (simp add: sorted_wrt_map)
qed

text \<open>What the registrations look like in a reachable state.\<close>

lemma live_sessions_names:
  assumes "names_ok st"
  shows "map cs_clientID (live_sessions st) = map fst (ts_clients st)"
proof -
  have s: "map_option cs_clientID (map_of (ts_sess st) sid) = Some cid" if "(cid, sid) \<in> set (ts_clients st)" for cid sid
    using that assms by (auto simp: names_ok_def gomap_ok_lookup)
  then have "map_of (ts_sess st) sid \<noteq> None" if "sid \<in> set (map snd (ts_clients st))" for sid
    using that by force
  then have "live_sessions st = map (\<lambda>sid. the (map_of (ts_sess st) sid)) (map snd (ts_clients st))"
    unfolding live_sessions_def MapValuesToSlice_def by (rule map_filter_total)
  moreover have "cs_clientID (the (map_of (ts_sess st) sid)) = cid" if "(cid, sid) \<in> set (ts_clients st)" for cid sid
    using s [OF that] by auto
  ultimately show ?thesis by auto
qed

lemma dashboard_sessions_eq:
  assumes "names_ok st"
  shows "map cs_clientID (dashboard_sessions st) = sort (map fst (ts_clients st))"
    and "mset (dashboard_sessions st) = mset (live_sessions st)"
proof -
  let ?f = "\<lambda>k. Option.bind (map_of (ts_clients st) k) (map_of (ts_sess st))"
  have s: "map_option cs_clientID (?f cid) = Some cid" if "cid \<in> set (map fst (ts_clients st))" for cid
    using that assms by (force simp: names_ok_def gomap_ok_lookup)
  then have n: "?f cid \<noteq> None" if "cid \<in> set (map fst (ts_clients st))" for cid
    using that by force
  have e: "dashboard_sessions st = map (\<lambda>k. the (?f k)) (sort (map fst (ts_clients st)))"
    unfolding dashboard_sessions_def MapKeysToSlice_def by (rule map_filter_total) (use n in auto)
  have c: "cs_clientID (the (?f cid)) = cid" if "cid \<in> set (map fst (ts_clients st))" for cid
    using s [OF that] by auto
  show "map cs_clientID (dashboard_sessions st) = sort (map fst (ts_clients st))"
    unfolding e map_map by (rule map_idI) (use c in auto)
  have "live_sessions st = map (\<lambda>k. the (?f k)) (map fst (ts_clients st))"
  proof -
    have b: "?f cid = map_of (ts_sess st) sid" if "(cid, sid) \<in> set (ts_clients st)" for cid sid
      using that assms by (simp add: names_ok_def gomap_ok_lookup)
    have "map_of (ts_sess st) sid \<noteq> None" if "sid \<in> set (map snd (ts_clients st))" for sid
      using that b n by force
    then have "live_sessions st = map (\<lambda>sid. the (map_of (ts_sess st) sid)) (map snd (ts_clients st))"
      unfolding live_sessions_def MapValuesToSlice_def by (rule map_filter_total)
    with b show ?thesis by auto
  qed
  then show "mset (dashboard_sessions st) = mset (live_sessions st)"
    by (simp add: e multiset.map_comp)
qed

text \<open>in every reachable state the dashboard snapshot lists every registered client exactly once, in the strict order
  newest \<open>lastSeen\<close> first and by name among equals, so it does not depend on the iteration order of the map; the
  rows of the dashboard update list the same clients by name, and its active totals are the sums over them.\<close>

theorem dashboard_views:
  assumes "tunnel_reachable host lo hi st"
  shows "mset (map tv_ClientID (ds_Tunnels (dashboardSnapshot now t0 st))) = mset (map fst (ts_clients st))
    \<and> sorted_wrt (\<lambda>v w. tv_LastSeen w < tv_LastSeen v
         \<or> tv_LastSeen v = tv_LastSeen w \<and> tv_ClientID v < tv_ClientID w) (ds_Tunnels (dashboardSnapshot now t0 st))
    \<and> ds_ActiveTunnels (dashboardSnapshot now t0 st) = length (ts_clients st)
    \<and> map tr_Name (fst (sendDashboardUpdate None e st)) = sort (map fst (ts_clients st))
    \<and> map_option tm_activeBytesUp (fst (snd (sendDashboardUpdate None e st)))
        = Some (sum_list (map tv_BytesUp (ds_Tunnels (dashboardSnapshot now t0 st))))"
proof -
  let ?v = "map (view_of (ts_publicHost st)) (live_sessions st)"
  have n: "names_ok st" using tunnel_reachable_ports [OF assms] by (simp add: ports_inv_def)
  have ids: "map tv_ClientID ?v = map fst (ts_clients st)"
    using live_sessions_names [OF n] by (simp add: view_of_def comp_def)
  then have "distinct (map tv_ClientID ?v)" using n by (simp add: names_ok_def gomap_ok_def)
  then have d: "distinct (map snapshot_key ?v)"
    by (auto simp: distinct_map snapshot_key_def inj_on_def)
  have t: "ds_Tunnels (dashboardSnapshot now t0 st) = sort_key snapshot_key ?v"
    and a: "ds_ActiveTunnels (dashboardSnapshot now t0 st) = length ?v"
    by (simp_all add: dashboardSnapshot_def)
  have "sorted_wrt (\<lambda>v w. tv_LastSeen w < tv_LastSeen v
         \<or> tv_LastSeen v = tv_LastSeen w \<and> tv_ClientID v < tv_ClientID w) (sort_key snapshot_key ?v)"
    using sorted_key_strict [OF d]
    by (rule sorted_wrt_mono_rel [rotated]) (auto simp: snapshot_key_def less_prod_def)
  moreover have "mset (map tv_ClientID (sort_key snapshot_key ?v)) = mset (map fst (ts_clients st))"
    unfolding ids [symmetric] by (simp add: multiset.map_comp comp_def)
  moreover have "length ?v = length (ts_clients st)"
    using arg_cong [OF ids, of length] by simp
  moreover have "map tr_Name (fst (sendDashboardUpdate None e st)) = sort (map fst (ts_clients st))"
    using dashboard_sessions_eq(1) [OF n] by (simp add: sendDashboardUpdate_def row_of_def comp_def Let_def)
  moreover have "sum_list (map cs_bytesUp (dashboard_sessions st)) = sum_list (map tv_BytesUp (sort_key snapshot_key ?v))"
  proof -
    have "mset (map cs_bytesUp (dashboard_sessions st)) = mset (map tv_BytesUp (sort_key snapshot_key ?v))"
      using dashboard_sessions_eq(2) [OF n] by (simp add: view_of_def comp_def multiset.map_comp)
    then show ?thesis by (metis sum_mset_sum_list)
  qed
  ultimately show ?thesis by (simp add: t a sendDashboardUpdate_def Let_def)
qed

theorem dashboard_views_witness:
  "map tv_ClientID (ds_Tunnels (dashboardSnapshot 5 0 demo_one)) = [''a'']"
proof -
  have "mset (map tv_ClientID (ds_Tunnels (dashboardSnapshot 5 0 demo_one))) = mset [''a'']"
    using dashboard_views [OF demo_one_reachable, of 5 0] by (simp add: demo_one_def)
  then show ?thesis by (metis mset_single_iff_right mset.simps)
qed

subsection \<open>UDP\<close>

lemma udpMsgData_neq: "udpMsgData \<noteq> udpMsgHandshake"
  by (simp add: udp_msgs)

lemma find_usess_Some: "find_usess i st = Some (u, us) \<longleftrightarrow>
    map_of (ts_udpSessions st) i = Some u \<and> map_of (ts_usess st) u = Some us"
  by (auto simp: find_usess_def split: option.splits)

lemma find_usess_upd: "find_usess i (upd_usess u f st) =
    map_option (\<lambda>(v, us). (v, if v = u then f us else us)) (find_usess i st)"
  by (auto simp: find_usess_def map_of_upd_usess split: option.split)

lemma count_fields [simp]:
  "ts_udpServer (count_down s n st) = ts_udpServer st" "ts_udpServer (count_up s n st) = ts_udpServer st"
  "ts_udpClientAddrs (count_down s n st) = ts_udpClientAddrs st"
  "ts_usess (count_down s n st) = ts_usess st" "ts_usess (count_up s n st) = ts_usess st"
  "ts_udpSessions (count_down s n st) = ts_udpSessions st" "ts_udpSessions (count_up s n st) = ts_udpSessions st"
  by (simp_all add: count_down_def count_up_def)

lemma count_totals [simp]:
  "ts_totalBytesUp (count_up s n st) = ts_totalBytesUp st + n"
  "ts_totalBytesDown (count_down s n st) = ts_totalBytesDown st + n"
  "map_of (ts_sess (count_up s n st)) s = map_option (\<lambda>cs. cs\<lparr>cs_bytesUp := cs_bytesUp cs + n\<rparr>) (map_of (ts_sess st) s)"
  "map_of (ts_sess (count_down s n st)) s = map_option (\<lambda>cs. cs\<lparr>cs_bytesDown := cs_bytesDown cs + n\<rparr>) (map_of (ts_sess st) s)"
  by (simp_all add: count_down_def count_up_def map_of_upd_sess)

text \<open>What a datagram of a known session becomes when its address is bound.\<close>

lemma sendUDPData_bound:
  assumes "find_usess i st = Some (u, us)" and "us_clientAddr us = Some addr" and "ts_udpServer st"
    and "(case us_udpSecret us of None \<Rightarrow> Inr p | Some k \<Rightarrow> EncryptUDP seal rnd k p) = Inr data"
    and "wr (buildUDPMessage udpMsgData key i data)"
  shows "sendUDPData seal rnd wr key i p st =
    (None, [Control addr (buildUDPMessage udpMsgData key i data)],
     case us_owner us of None \<Rightarrow> st | Some o1 \<Rightarrow> count_down o1 (of_nat (length p)) st)"
  using assms by (simp add: sendUDPData_def writeUDP_def Let_def split: option.split)

definition public_session :: "nat \<Rightarrow> client_session \<Rightarrow> string \<Rightarrow> string \<Rightarrow> int \<Rightarrow> udp_session" where
  "public_session sid cs peer addr now = \<lparr>us_id = cs_key cs @ ''|'' @ peer, us_clientKey = cs_key cs,
     us_udpSecret = cs_udpSecret cs, us_owner = Some sid, us_conn = False, us_remoteAddr = [],
     us_clientAddr = Some addr, us_publicPeer = Some peer, us_closed = False, us_lastActive = now\<rparr>"

text \<open>the first datagram of a public peer opens a session and reaches the agent: one packet goes to the agent's
  last known control address, whose fields decode to the client key and the session identifier and whose body opens
  under the client's secret to the datagram; the agent is asked to open the session, and the bytes are counted
  as download.\<close>

lemma public_datagram_reaches_agent:
  assumes "map_of (ts_sess st) sid = Some cs" and "map_of (ts_udpClientAddrs st) (cs_key cs) = Some addr"
    and "map_of (ts_udpSessions st) (cs_key cs @ ''|'' @ peer) = None" and "ts_udpServer st"
    and "cs_udpSecret cs = Some k" and "valid_aes_key k" and "length nonce = nonce_size"
    and "unseal k nonce (seal k nonce payload) = Some payload" and "\<forall>b. wr b"
    and "length (cs_key cs) < 65536" and "length (cs_key cs @ ''|'' @ peer) < 65536"
  shows "\<exists>pkt msg st'. handlePublicUDPDatagram seal (Inr nonce) wr now sid peer payload st = ([Control addr pkt], [msg], st')
    \<and> tm_Type msg = ''udp_open'' \<and> tm_ID msg = cs_key cs @ ''|'' @ peer \<and> tm_RemoteAddr msg = peer
    \<and> fst (decodeUDPField pkt 1) = cs_key cs
    \<and> fst (decodeUDPField pkt (3 + length (cs_key cs))) = cs_key cs @ ''|'' @ peer
    \<and> DecryptUDP unseal k (drop (5 + length (cs_key cs) + length (cs_key cs @ ''|'' @ peer)) pkt) = Inr payload
    \<and> map_option cs_bytesDown (map_of (ts_sess st') sid) = Some (cs_bytesDown cs + of_nat (length payload))
    \<and> ts_totalBytesDown st' = ts_totalBytesDown st + of_nat (length payload)"
proof -
  let ?id = "cs_key cs @ ''|'' @ peer"
  define st2 where "st2 = upd_usess (ts_nextU st) (\<lambda>us. us\<lparr>us_owner := if us_owner us = None then Some sid else us_owner us,
        us_publicPeer := Some peer, us_lastActive := now\<rparr>)
      (st\<lparr>ts_udpSessions := AList.update ?id (ts_nextU st) (ts_udpSessions st),
          ts_usess := AList.update (ts_nextU st) (public_session sid cs peer addr now) (ts_usess st),
          ts_nextU := ts_nextU st + 1\<rparr>)"
  let ?pkt = "buildUDPMessage udpMsgData (cs_key cs) ?id (nonce @ seal k nonce payload)"
  have f: "find_usess ?id st2 = Some (ts_nextU st, public_session sid cs peer addr now)"
    by (simp add: st2_def find_usess_def map_of_upd_usess map_of_update public_session_def)
  have send: "sendUDPData seal (Inr nonce) wr (cs_key cs) ?id payload st2 =
      (None, [Control addr ?pkt], count_down sid (of_nat (length payload)) st2)"
    using sendUDPData_bound [OF f, of addr payload seal "Inr nonce" "nonce @ seal k nonce payload" wr "cs_key cs"] assms(4,5,6,9)
    by (simp add: public_session_def st2_def EncryptUDP_def)
  have "handlePublicUDPDatagram seal (Inr nonce) wr now sid peer payload st =
      ([Control addr ?pkt], [no_msg\<lparr>tm_Type := ''udp_open'', tm_ID := ?id, tm_RemoteAddr := peer\<rparr>],
       count_down sid (of_nat (length payload)) st2)"
    using assms(1-3) send
    by (simp add: handlePublicUDPDatagram_def Let_def get_or_update st2_def public_session_def)
  moreover have "ts_sess st2 = ts_sess st" "ts_totalBytesDown st2 = ts_totalBytesDown st"
    by (simp_all add: st2_def)
  ultimately show ?thesis
    using udp_message_decodes [OF assms(10,11) udpMsgData_neq, of "nonce @ seal k nonce payload"] assms(1,6-8)
      decrypt_sealed [of unseal k nonce seal payload]
    by (simp add: count_down_def map_of_upd_sess udp_msgs)
qed

text \<open>a datagram the agent sends for a session of a public peer, sealed under the session's secret, leaves the public
  port to that peer in the clear, is counted as upload of the owning client, and binds the session to the address it
  came from.\<close>

lemma agent_datagram_reaches_peer:
  assumes "find_usess i st = Some (u, us)" and "us_clientKey us = key" and "us_udpSecret us = Some k"
    and "us_owner us = Some sid" and "map_of (ts_sess st) sid = Some cs" and "\<not> us_conn us" and "us_publicPeer us = Some peer"
    and "valid_aes_key k" and "length nonce = nonce_size" and "unseal k nonce (seal k nonce payload) = Some payload"
    and "wr payload" and "key \<noteq> []" and "i \<noteq> []" and "length key < 65536" and "length i < 65536"
  shows "\<exists>st'. handleUDPControlPacket unseal wr now (buildUDPMessage udpMsgData key i (nonce @ seal k nonce payload)) addr st
      = ([Public peer payload], st')
    \<and> map_option cs_bytesUp (map_of (ts_sess st') sid) = Some (cs_bytesUp cs + of_nat (length payload))
    \<and> ts_totalBytesUp st' = ts_totalBytesUp st + of_nat (length payload)
    \<and> map_option (us_clientAddr \<circ> snd) (find_usess i st') = Some (Some addr)"
proof -
  let ?pkt = "buildUDPMessage udpMsgData key i (nonce @ seal k nonce payload)"
  let ?b = "bind_addr key addr st"
  note dec = udp_message_decodes [OF assms(14,15) udpMsgData_neq, of "nonce @ seal k nonce payload"]
  have f: "find_usess i ?b = Some (u, us)" using assms(1) by (simp add: bind_addr_def find_usess_Some)
  have "handleUDPControlPacket unseal wr now ?pkt addr st =
      handleUDPDataFromClient unseal wr now key i (nonce @ seal k nonce payload) addr ?b"
    using dec assms(12,13) by (simp add: handleUDPControlPacket_def udp_msgs Let_def buildUDPMessage_head length_buildUDPMessage)
  moreover define st3 where "st3 = upd_usess u (\<lambda>s. s\<lparr>us_lastActive := now\<rparr>) (count_up sid (of_nat (length payload))
      ((upd_usess u (\<lambda>s. s\<lparr>us_clientAddr := Some addr\<rparr>) ?b)\<lparr>ts_udpClientAddrs := AList.update key addr (ts_udpClientAddrs ?b)\<rparr>))"
  moreover have "handleUDPDataFromClient unseal wr now key i (nonce @ seal k nonce payload) addr ?b = ([Public peer payload], st3)"
    unfolding handleUDPDataFromClient_def f option.case prod.case Let_def st3_def
    using assms decrypt_sealed [of unseal k nonce seal payload] by simp
  moreover have "map_of (ts_sess ?b) sid = Some cs" "ts_totalBytesUp ?b = ts_totalBytesUp st"
    using assms(5) by (simp_all add: bind_addr_def)
  moreover have "map_option (us_clientAddr \<circ> snd) (find_usess i st3) = Some (Some addr)"
  proof -
    have "find_usess i st3 = Some (u, us\<lparr>us_clientAddr := Some addr, us_lastActive := now\<rparr>)"
      using f by (simp add: st3_def find_usess_Some map_of_upd_usess)
    then show ?thesis by simp
  qed
  ultimately show ?thesis by (simp add: st3_def)
qed

text \<open>A server with one client, a control address and one session, for the witnesses; the cipher is the identity with the
  first byte of the key as tag.\<close>

definition demo_seal :: seal_fun where "demo_seal k n t = take 1 k @ t"
definition demo_unseal :: unseal_fun where
  "demo_unseal k n c = (if take 1 c = take 1 k then Some (drop 1 c) else None)"

definition demo_key :: string where "demo_key = replicate 16 CHR ''k''"
definition demo_nonce :: string where "demo_nonce = replicate 12 CHR ''n''"

lemma demo_crypto [simp]: "valid_aes_key demo_key" "length demo_nonce = nonce_size"
  "demo_unseal demo_key demo_nonce (demo_seal demo_key demo_nonce p) = Some p"
  by (simp_all add: demo_key_def demo_nonce_def nonce_size_def valid_aes_key_def demo_seal_def demo_unseal_def)

definition demo_udp :: tunnel_server where
  "demo_udp = bind_addr ''secret-1'' ''agent:7'' (upd_sess 0 (\<lambda>cs. cs\<lparr>cs_udpSecret := Some demo_key\<rparr>)
     (demo_one\<lparr>ts_udpServer := True\<rparr>))"

definition demo_cs :: client_session where
  "demo_cs = \<lparr>cs_clientID = ''a'', cs_key = ''secret-1'', cs_target = [], cs_protocol = ''tcp'',
       cs_publicPort = 8000, cs_lastSeen = 0, cs_done = False, cs_bytesUp = 0, cs_bytesDown = 0,
       cs_remoteIP = ''h'', cs_publicListener = False, cs_publicUDP = False, cs_activeProxy = 0,
       cs_udpSecret = Some demo_key\<rparr>"

lemma demo_udp_facts: "map_of (ts_sess demo_udp) 0 = Some demo_cs"
    "map_of (ts_udpClientAddrs demo_udp) (cs_key demo_cs) = Some ''agent:7''"
    "map_of (ts_udpSessions demo_udp) i = None" "ts_udpServer demo_udp" "cs_udpSecret demo_cs = Some demo_key"
    "length (cs_key demo_cs) < 65536" "length (cs_key demo_cs @ ''|'' @ ''p:5'') < 65536"
    "cs_bytesDown demo_cs = 0"
  by (simp_all add: demo_udp_def demo_one_def bind_addr_def upd_sess_def demo_cs_def)

lemma public_datagram_reaches_agent_witness:
  "\<exists>pkt msg st'. handlePublicUDPDatagram demo_seal (Inr demo_nonce) (\<lambda>_. True) 3 0 ''p:5'' ''hi'' demo_udp
      = ([Control ''agent:7'' pkt], [msg], st')
    \<and> map_option cs_bytesDown (map_of (ts_sess st') 0) = Some 2"
proof -
  have "\<forall>b. (\<lambda>_::packet. True) b" by simp
  note p = public_datagram_reaches_agent [where seal = demo_seal and unseal = demo_unseal and nonce = demo_nonce
      and payload = "''hi''" and peer = "''p:5''" and now = 3, OF demo_udp_facts(1-5) demo_crypto(1-3) this demo_udp_facts(6,7)]
  then show ?thesis using demo_udp_facts(8) by fastforce
qed

definition demo_usess :: tunnel_server where
  "demo_usess = demo_udp\<lparr>ts_udpSessions := [(''s1'', 0)], ts_usess := [(0, public_session 0 demo_cs ''p:5'' ''agent:7'' 3)],
     ts_nextU := 1\<rparr>"

lemma demo_usess_facts: "find_usess ''s1'' demo_usess = Some (0, public_session 0 demo_cs ''p:5'' ''agent:7'' 3)"
    "us_clientKey (public_session 0 demo_cs ''p:5'' ''agent:7'' 3) = ''secret-1''"
    "us_udpSecret (public_session 0 demo_cs ''p:5'' ''agent:7'' 3) = Some demo_key"
    "us_owner (public_session 0 demo_cs ''p:5'' ''agent:7'' 3) = Some 0"
    "map_of (ts_sess demo_usess) 0 = Some demo_cs"
    "\<not> us_conn (public_session 0 demo_cs ''p:5'' ''agent:7'' 3)"
    "us_publicPeer (public_session 0 demo_cs ''p:5'' ''agent:7'' 3) = Some ''p:5''"
  using demo_udp_facts(1) by (simp_all add: find_usess_Some demo_usess_def public_session_def demo_cs_def)

lemma agent_datagram_reaches_peer_witness:
  "\<exists>st'. handleUDPControlPacket demo_unseal (\<lambda>_. True) 9
      (buildUDPMessage udpMsgData ''secret-1'' ''s1'' (demo_nonce @ demo_seal demo_key demo_nonce ''hi'')) ''new:1'' demo_usess
      = ([Public ''p:5'' ''hi''], st')
    \<and> map_option (us_clientAddr \<circ> snd) (find_usess ''s1'' st') = Some (Some ''new:1'')"
  using agent_datagram_reaches_peer [where seal = demo_seal and unseal = demo_unseal and nonce = demo_nonce
      and payload = "''hi''" and wr = "\<lambda>_. True" and now = 9 and addr = "''new:1''",
      OF demo_usess_facts demo_crypto(1-3)] by fastforce

text \<open>a session outlives the connection of its client: when the client has registered again under the same key with a
  fresh secret, the next datagram of the same public peer is still sealed under the secret of the old
  connection, is charged to the old session, and the agent is not asked to open the session.\<close>

lemma udp_session_survives_reconnect:
  assumes "map_of (ts_sess st) sid2 = Some cs2" and "map_of (ts_udpClientAddrs st) (cs_key cs2) = Some addr"
    and "find_usess (cs_key cs2 @ ''|'' @ peer) st = Some (u, us)" and "us_udpSecret us = Some k_old"
    and "us_owner us = Some sid1" and "sid1 \<noteq> sid2" and "us_clientAddr us = Some addr_old"
    and "ts_udpServer st" and "valid_aes_key k_old" and "\<forall>b. wr b"
  shows "\<exists>st'. handlePublicUDPDatagram seal (Inr nonce) wr now sid2 peer payload st =
      ([Control addr_old (buildUDPMessage udpMsgData (cs_key cs2) (cs_key cs2 @ ''|'' @ peer) (nonce @ seal k_old nonce payload))],
       [], st') \<and> map_of (ts_sess st') sid2 = Some cs2"
proof -
  let ?id = "cs_key cs2 @ ''|'' @ peer"
  define st2 where "st2 = upd_usess u (\<lambda>us. us\<lparr>us_owner := if us_owner us = None then Some sid2 else us_owner us,
        us_publicPeer := Some peer, us_lastActive := now\<rparr>) st"
  have f: "find_usess ?id st2 = Some (u, us\<lparr>us_publicPeer := Some peer, us_lastActive := now\<rparr>)"
    using assms(3,5) by (simp add: st2_def find_usess_Some map_of_upd_usess)
  have "sendUDPData seal (Inr nonce) wr (cs_key cs2) ?id payload st2 =
      (None, [Control addr_old (buildUDPMessage udpMsgData (cs_key cs2) ?id (nonce @ seal k_old nonce payload))],
       count_down sid1 (of_nat (length payload)) st2)"
    using sendUDPData_bound [OF f, of addr_old payload seal "Inr nonce" "nonce @ seal k_old nonce payload" wr "cs_key cs2"] assms
    by (simp add: st2_def EncryptUDP_def)
  moreover have "map_of (ts_udpSessions st) ?id = Some u" using assms(3) by (simp add: find_usess_Some)
  moreover have "map_of (ts_sess (count_down sid1 n st2)) sid2 = Some cs2" for n
    using assms(1,6) by (simp add: count_down_def map_of_upd_sess st2_def)
  ultimately show ?thesis
    using assms(1,2) by (simp add: handlePublicUDPDatagram_def Let_def st2_def get_or_def)
qed

lemma udp_session_survives_reconnect_witness:
  "\<exists>st st'. map_option cs_udpSecret (map_of (ts_sess st) 1) = Some (Some (replicate 16 CHR ''z''))
     \<and> handlePublicUDPDatagram demo_seal (Inr demo_nonce) (\<lambda>_. True) 9 1 ''p:5'' ''hi'' st =
      ([Control ''agent:7'' (buildUDPMessage udpMsgData ''secret-1'' ''secret-1|p:5'' (demo_nonce @ demo_seal demo_key demo_nonce ''hi''))],
       [], st')"
proof -
  let ?cs2 = "demo_cs\<lparr>cs_udpSecret := Some (replicate 16 CHR ''z'')\<rparr>"
  let ?us = "public_session 0 demo_cs ''p:5'' ''agent:7'' 3"
  let ?st = "demo_udp\<lparr>ts_udpSessions := [(''secret-1|p:5'', 0)], ts_usess := [(0, ?us)], ts_nextU := 1,
      ts_sess := [(0, demo_cs), (1, ?cs2)]\<rparr>"
  have k: "cs_key ?cs2 = ''secret-1''" by (simp add: demo_cs_def)
  have 1: "map_of (ts_sess ?st) 1 = Some ?cs2" by simp
  have 2: "map_of (ts_udpClientAddrs ?st) (cs_key ?cs2) = Some ''agent:7''"
    using demo_udp_facts(2) by simp
  have 3: "find_usess (cs_key ?cs2 @ ''|'' @ ''p:5'') ?st = Some (0, ?us)" unfolding k by (simp add: find_usess_Some)
  have 4: "us_udpSecret ?us = Some demo_key" "us_owner ?us = Some 0" "us_clientAddr ?us = Some ''agent:7''" "ts_udpServer ?st"
    using demo_udp_facts(4,5) by (simp_all add: public_session_def)
  from udp_session_survives_reconnect [OF 1 2 3 4(1,2) _ 4(3,4) demo_crypto(1), of "\<lambda>_. True" demo_seal demo_nonce 9 "''hi''"]
  obtain st' where "handlePublicUDPDatagram demo_seal (Inr demo_nonce) (\<lambda>_. True) 9 1 ''p:5'' ''hi'' ?st =
      ([Control ''agent:7'' (buildUDPMessage udpMsgData ''secret-1'' ''secret-1|p:5'' (demo_nonce @ demo_seal demo_key demo_nonce ''hi''))],
       [], st')" unfolding k by auto
  moreover have "map_option cs_udpSecret (map_of (ts_sess ?st) 1) = Some (Some (replicate 16 CHR ''z''))"
    using 1 by simp
  ultimately show ?thesis by blast
qed

end
