(* ===== verification/Alert_Time.thy ===== *)
theory Alert_Time
  imports Prelude
begin

text \<open>
  The calendar the cycle rules of the alerts use (\<open>model/rule.go\<close>, \<open>GetTransferDurationStart\<close> and
  \<open>GetTransferDurationEnd\<close>).

  An instant is a number of nanoseconds since the Unix epoch; a location is its offset in nanoseconds (zones
  whose offset changes are not modelled). \<open>AddDate\<close> of Go's \<open>time\<close> is computed on the proleptic Gregorian
  calendar: \<open>month_start k\<close> is the day number of the first day of month \<open>k\<close>, the months counted from
  March of the year 0, so that the leap day is the last day of its year.
\<close>

definition second :: int where "second = 1000000000"
definition day :: int where "day = 86400 * second"

definition unix_seconds :: "int \<Rightarrow> int" where
  "unix_seconds t = t div second"

definition month_start :: "int \<Rightarrow> int" where
  "month_start k = (let y = k div 12; mp = k mod 12
     in 365 * y + y div 4 - y div 100 + y div 400 + (153 * mp + 2) div 5 - 719468)"

lemma year_days: "365 * y + y div 4 - y div 100 + y div 400 + 364
    \<le> 365 * (y + 1) + (y + 1) div 4 - (y + 1) div 100 + (y + 1) div 400" for y :: int
proof -
  have "y div 4 \<le> (y + 1) div 4" "y div 400 \<le> (y + 1) div 400" by (simp_all add: zdiv_mono1)
  moreover have "(y + 1) div 100 \<le> (y + 100) div 100" by (simp only: zdiv_mono1)
  ultimately show ?thesis by simp
qed

lemma month_start_split: "0 \<le> mp \<Longrightarrow> mp < 12 \<Longrightarrow> month_start (12 * y + mp) =
    365 * y + y div 4 - y div 100 + y div 400 + (153 * mp + 2) div 5 - 719468"
  by (simp add: month_start_def Let_def)

lemma month_start_Suc: "month_start k + 26 < month_start (k + 1)"
proof -
  define y mp where "y = k div 12" and "mp = k mod 12"
  have mp: "0 \<le> mp" "mp < 12" and k: "k = 12 * y + mp" by (simp_all add: mp_def y_def)
  show ?thesis
  proof (cases "mp = 11")
    case True
    then have k1: "k + 1 = 12 * (y + 1) + 0" using k by simp
    show ?thesis unfolding k1 using year_days [of y] True
      by (simp only: month_start_split) (simp add: k month_start_split)
  next
    case False
    then have k1: "k + 1 = 12 * y + (mp + 1)" "mp + 1 < 12" using k mp by simp_all
    have "(153 * mp + 2 + 30 * 5) div 5 \<le> (153 * (mp + 1) + 2) div 5" by (rule zdiv_mono1) simp_all
    then have "(153 * mp + 2) div 5 + 30 \<le> (153 * (mp + 1) + 2) div 5" by (simp only: div_mult_self1)
    then show ?thesis using mp k k1(2) unfolding k1(1) by (simp add: month_start_split)
  qed
qed

lemma month_start_add: "month_start k + 26 * int j \<le> month_start (k + int j)"
proof (induction j)
  case (Suc j)
  with month_start_Suc [of "k + int j"] show ?case by (simp add: algebra_simps)
qed simp

lemma month_start_less: "k < l \<Longrightarrow> month_start k < month_start l"
  using month_start_add [of k "nat (l - k)"] by simp

text \<open>The month of a day, searched from January 1970.\<close>

function month_down :: "int \<Rightarrow> int \<Rightarrow> int" where
  "month_down k n = (if n < month_start k then month_down (k - 1) n else k)"
  by pat_completeness auto
termination
proof (relation "measure (\<lambda>(k, n). nat (month_start k - n))")
  fix k n assume "n < month_start k"
  then show "((k - 1, n), (k, n)) \<in> measure (\<lambda>(k, n). nat (month_start k - n))"
    using month_start_less [of "k - 1" k] by simp
qed simp

function month_up :: "int \<Rightarrow> int \<Rightarrow> int" where
  "month_up k n = (if month_start (k + 1) \<le> n then month_up (k + 1) n else k)"
  by pat_completeness auto
termination
proof (relation "measure (\<lambda>(k, n). nat (n - month_start k))")
  fix k n assume "month_start (k + 1) \<le> n"
  then show "((k + 1, n), (k, n)) \<in> measure (\<lambda>(k, n). nat (n - month_start k))"
    using month_start_less [of k "k + 1"] by simp
qed simp

declare month_down.simps [simp del] month_up.simps [simp del]

definition epoch_month :: int where
  "epoch_month = 23638"

definition month_of_day :: "int \<Rightarrow> int" where
  "month_of_day n = month_up (month_down epoch_month n) n"

lemma month_down_le: "month_start (month_down k n) \<le> n"
  by (induction k n rule: month_down.induct) (subst month_down.simps, auto)

lemma month_up_bounds: "month_start k \<le> n \<Longrightarrow> month_start (month_up k n) \<le> n \<and> n < month_start (month_up k n + 1)"
  by (induction k n rule: month_up.induct) (subst (1 2) month_up.simps, auto)

lemma month_of_day: "month_start (month_of_day n) \<le> n \<and> n < month_start (month_of_day n + 1)"
  by (simp add: month_of_day_def month_up_bounds month_down_le)

text \<open>\<open>t.AddDate(years, months, days)\<close> in the zone with offset \<open>off\<close>.\<close>

definition AddDate :: "int \<Rightarrow> int \<Rightarrow> int \<Rightarrow> int \<Rightarrow> int \<Rightarrow> int" where
  "AddDate off t years months days =
     (let n = (t + off) div day; k = month_of_day n
      in (month_start (k + 12 * years + months) + (n - month_start k) + days) * day + (t + off) mod day - off)"

lemma day_pos [simp]: "0 < day" by (simp add: day_def second_def)

lemma AddDate_days: "AddDate off t 0 0 d = t + d * day"
proof -
  have "(t + off) div day * day + (t + off) mod day = t + off" by simp
  then show ?thesis by (simp add: AddDate_def Let_def algebra_simps)
qed

lemma AddDate_months_less:
  assumes "0 < 12 * y + m"
  shows "t < AddDate off t y m 0"
proof -
  define n where "n = (t + off) div day"
  define M where "M = month_start (month_of_day n + 12 * y + m) + (n - month_start (month_of_day n))"
  have "month_start (month_of_day n) < month_start (month_of_day n + 12 * y + m)"
    using assms by (intro month_start_less) simp
  then have "n < M" by (simp add: M_def)
  then have "n * day < M * day" by simp
  moreover have "n * day + (t + off) mod day = t + off" by (simp add: n_def)
  moreover have "AddDate off t y m 0 = M * day + (t + off) mod day - off"
    by (simp add: AddDate_def Let_def n_def M_def)
  ultimately show ?thesis by linarith
qed

subsection \<open>Cycles\<close>

text \<open>The step of a cycle of \<open>interval\<close> units; \<open>None\<close> for the hour unit and every other string.\<close>

definition cycle_step :: "string \<Rightarrow> uint64 \<Rightarrow> int \<Rightarrow> (int \<Rightarrow> int) option" where
  "cycle_step unit interval off =
     (if ToLower unit = ''year'' then Some (\<lambda>t. AddDate off t (sint interval) 0 0)
      else if ToLower unit = ''month'' then Some (\<lambda>t. AddDate off t 0 (sint interval) 0)
      else if ToLower unit = ''week'' then Some (\<lambda>t. AddDate off t 0 0 (sint (7 * interval)))
      else if ToLower unit = ''day'' then Some (\<lambda>t. AddDate off t 0 0 (sint interval))
      else None)"

text \<open>The loop \<open>for time.Now().After(nextTime)\<close>, in which the clock is read once; \<open>None\<close>: it never ends.\<close>

partial_function (option) cycle_loop :: "(int \<Rightarrow> int) \<Rightarrow> int \<Rightarrow> int \<Rightarrow> int \<Rightarrow> (int \<times> int) option" where
  "cycle_loop step now startTime nextTime =
     (if now > nextTime then cycle_loop step now nextTime (step nextTime) else Some (startTime, nextTime))"

text \<open>
  \<open>transfer_window\<close> computes both ends of the current cycle; \<open>start\<close> is \<open>u.CycleStart\<close>, a pointer that may be
  nil. \<open>GetTransferDurationStart\<close> and \<open>GetTransferDurationEnd\<close> return one end each.
\<close>

definition transfer_window :: "int option \<Rightarrow> uint64 \<Rightarrow> string \<Rightarrow> int \<Rightarrow> int \<Rightarrow> (int \<times> int) go" where
  "transfer_window start interval unit off now = (case start of None \<Rightarrow> Panic
     | Some s \<Rightarrow>
        (case cycle_step unit interval off of
           Some step \<Rightarrow> (case cycle_loop step now s (step s) of None \<Rightarrow> Hang | Some w \<Rightarrow> Ret w)
         | None \<Rightarrow>
            (let iv = sint (3600 * interval)
             in if iv = 0 then Panic
                else (let st = (unix_seconds s + go_div (unix_seconds now - unix_seconds s) iv * iv) * second
                      in Ret (st, (unix_seconds st + iv) * second)))))"

definition GetTransferDurationStart :: "int option \<Rightarrow> uint64 \<Rightarrow> string \<Rightarrow> int \<Rightarrow> int \<Rightarrow> int go" where
  "GetTransferDurationStart start interval unit off now =
     go_bind (transfer_window start interval unit off now) (\<lambda>w. Ret (fst w))"

definition GetTransferDurationEnd :: "int option \<Rightarrow> uint64 \<Rightarrow> string \<Rightarrow> int \<Rightarrow> int \<Rightarrow> int go" where
  "GetTransferDurationEnd start interval unit off now =
     go_bind (transfer_window start interval unit off now) (\<lambda>w. Ret (snd w))"

subsection \<open>The loop ends\<close>

lemma cycle_loop_ends:
  assumes "\<And>t. t < step t"
  shows "s \<le> now \<or> next \<ge> now \<Longrightarrow> next = step s \<Longrightarrow> \<exists>s' n'. cycle_loop step now s next = Some (s', n') \<and> n' = step s' \<and> now \<le> n' \<and> (s \<le> now \<longrightarrow> s' \<le> now)"
proof (induction "nat (now - next)" arbitrary: s "next" rule: less_induct)
  case less
  show ?case
  proof (cases "now > next")
    case True
    have "nat (now - step next) < nat (now - next)" using assms [of "next"] True by simp
    from less(1) [OF this, of "next"] True show ?thesis by (subst cycle_loop.simps) auto
  next
    case False
    then show ?thesis using less by (subst cycle_loop.simps) auto
  qed
qed

lemma sint_small:
  assumes "unat (w :: uint64) < 2 ^ 63"
  shows "sint w = int (unat w)"
proof -
  have u: "uint w = int (unat w)" by simp
  have "sint w = signed_take_bit 63 (int (unat w))"
    unfolding sint_uint u [symmetric] by simp
  also have "\<dots> = int (unat w)"
    using assms by (intro signed_take_bit_int_eq_self) (linarith | simp del: of_nat_unat)+
  finally show ?thesis .
qed

text \<open>A cycle the validation admits and that does not overflow.\<close>

definition cycle_ok :: "uint64 \<Rightarrow> bool" where
  "cycle_ok interval \<longleftrightarrow> 0 < unat interval \<and> unat interval < 2 ^ 31"

lemma sint_mult_small:
  assumes "cycle_ok i" and "unat k \<le> 3600"
  shows "sint (k * i :: uint64) = int (unat k) * int (unat i)"
proof -
  have b: "unat k * unat i \<le> 3600 * 2 ^ 31"
    using assms by (intro mult_le_mono) (simp_all add: cycle_ok_def)
  then have "unat (k * i) = unat k * unat i" by (simp add: unat_word_ariths)
  with b show ?thesis by (subst sint_small) simp_all
qed

lemma cycle_step_increases:
  assumes "cycle_ok interval" and "cycle_step unit interval off = Some step"
  shows "t < step t"
proof -
  have s: "sint interval = int (unat interval)" "sint (7 * interval) = 7 * int (unat interval)"
    using assms(1) sint_mult_small [OF assms(1), of 7] by (simp_all add: sint_small cycle_ok_def del: of_nat_unat)
  have p: "0 < int (unat interval)" using assms(1) by (simp add: cycle_ok_def del: of_nat_unat)
  from assms(2) AddDate_months_less [of "int (unat interval)" 0 t off] AddDate_months_less [of 0 "int (unat interval)" t off] p
  show ?thesis
    by (auto simp: cycle_step_def s AddDate_days simp del: of_nat_unat split: if_splits)
qed

lemma cycle_loop_result:
  assumes "cycle_loop step now s n = Some r"
  shows "now \<le> snd r \<and> (\<exists>k. snd r = (step ^^ k) n)"
proof (rule cycle_loop.raw_induct [where P = "\<lambda>step now s n r. now \<le> snd r \<and> (\<exists>k. snd r = (step ^^ k) n)", OF _ assms])
  fix loop step now s n r
  assume IH: "\<And>step now s n r. loop step now s n = Some r \<Longrightarrow> now \<le> snd r \<and> (\<exists>k. snd r = (step ^^ k) n)"
    and eq: "(if n < now then loop step now n (step n) else Some (s, n)) = Some (r :: int \<times> int)"
  show "now \<le> snd r \<and> (\<exists>k. snd r = (step ^^ k) n)"
  proof (cases "now > n")
    case True
    then have "loop step now n (step n) = Some r" using eq by simp
    from IH [OF this] obtain k where "now \<le> snd r" "snd r = (step ^^ k) (step n)" by blast
    then have "snd r = (step ^^ Suc k) n" by (simp add: funpow_swap1)
    with \<open>now \<le> snd r\<close> show ?thesis by blast
  next
    case False
    then show ?thesis using eq by (auto intro: exI [of _ 0])
  qed
qed

lemma cycle_loop_stuck:
  assumes "\<And>t. step t = t" and "n < now"
  shows "cycle_loop step now s n = None"
proof (cases "cycle_loop step now s n")
  case (Some r)
  then obtain k where "now \<le> snd r" "snd r = (step ^^ k) n" using cycle_loop_result by blast
  moreover have "(step ^^ k) n = n" for k by (induction k) (simp_all add: assms(1))
  ultimately show ?thesis using assms(2) by simp
qed

lemma hour_window:
  assumes "0 < iv" and "u \<le> n"
  shows "u + go_div (n - u) iv * iv \<le> n \<and> n < u + go_div (n - u) iv * iv + iv"
proof -
  have g: "go_div (n - u) iv = (n - u) div iv" using assms by (simp add: go_div_nonneg)
  have "(n - u) div iv * iv + (n - u) mod iv = n - u" by simp
  moreover have "0 \<le> (n - u) mod iv" "(n - u) mod iv < iv" using assms by simp_all
  ultimately show ?thesis unfolding g by (intro conjI; linarith)
qed

lemma unix_seconds_bounds: "unix_seconds t * second \<le> t" "t < (unix_seconds t + 1) * second"
proof -
  have "t div second * second + t mod second = t" by simp
  moreover have "0 \<le> t mod second" "t mod second < second" by (simp_all add: second_def)
  ultimately show "unix_seconds t * second \<le> t" "t < (unix_seconds t + 1) * second"
    unfolding unix_seconds_def distrib_right by linarith+
qed

lemma unix_seconds_mult [simp]: "unix_seconds (k * second) = k"
  by (simp add: unix_seconds_def second_def)

subsection \<open>Properties\<close>



text \<open>a rule without a start makes the computation panic; with an interval of zero it panics for the hour unit and
  never returns for the calendar units once the start lies in the past.\<close>

lemma cycle_window_failures:
  "GetTransferDurationStart None interval unit off now = Panic
   \<and> (cycle_step unit 0 off = None \<longrightarrow> GetTransferDurationStart (Some s) 0 unit off now = Panic)
   \<and> (cycle_step unit 0 off \<noteq> None \<and> s < now \<longrightarrow> GetTransferDurationStart (Some s) 0 unit off now = Hang)"
proof -
  have i: "step t = t" if "cycle_step unit 0 off = Some step" for step t
    using that AddDate_days [of off t 0] by (auto simp: cycle_step_def split: if_splits)
  then have "cycle_loop step now s (step s) = None" if "cycle_step unit 0 off = Some step" "s < now" for step
    using that(2) i [OF that(1)] cycle_loop_stuck [of step] by simp
  then show ?thesis
    by (auto simp: GetTransferDurationStart_def transfer_window_def)
qed

lemma cycle_window_failures_witness:
  "GetTransferDurationStart (Some 0) 0 ''day'' 0 1 = Hang \<and> GetTransferDurationStart (Some 0) 0 ''hour'' 0 1 = Panic"
proof -
  have "cycle_step ''day'' 0 0 \<noteq> None" "cycle_step ''hour'' 0 0 = None"
    by (simp_all add: cycle_step_def ToLower_def lower_char_def)
  then show ?thesis
    using cycle_window_failures [of undefined "''day''" 0 1 0] cycle_window_failures [of undefined "''hour''" 0 1 0] by simp
qed

end
