(* ===== verification/Server_Model.thy ===== *)
theory Server_Model
  imports Prelude
begin

text \<open>
  The data several components share: users and permissions (\<open>model/user.go\<close>, \<open>model/common.go\<close>), the state an
  agent reports (\<open>model/host.go\<close>) and the running server (\<open>model/server.go\<close>).

  \<open>LastActive\<close> is \<open>None\<close> for Go's zero time, otherwise nanoseconds since the epoch. \<open>sv_Online\<close> tells whether
  a task stream is attached.
\<close>

definition RoleAdmin :: uint8 where "RoleAdmin = 0"
definition RoleMember :: uint8 where "RoleMember = 1"

definition IsAdmin :: "uint8 \<Rightarrow> bool" where
  "IsAdmin r \<longleftrightarrow> r = RoleAdmin"

record user =
  u_ID :: uint64
  u_Username :: string
  u_Role :: uint8
  u_AgentSecret :: string
  u_RejectPassword :: bool

text \<open>\<open>HasPermission\<close> of an object with owner \<open>uid\<close>; \<open>auth\<close> is the authorised user of the request, if any.\<close>

definition HasPermission :: "user option \<Rightarrow> uint64 \<Rightarrow> bool" where
  "HasPermission auth uid = (case auth of None \<Rightarrow> False
     | Some u \<Rightarrow> if u_Role u = RoleAdmin then True else u_ID u = uid)"

record sensor_temperature =
  st_Name :: string
  st_Temperature :: float64

record host_state =
  hs_CPU :: float64
  hs_MemUsed :: uint64
  hs_SwapUsed :: uint64
  hs_DiskUsed :: uint64
  hs_NetInTransfer :: uint64
  hs_NetOutTransfer :: uint64
  hs_NetInSpeed :: uint64
  hs_NetOutSpeed :: uint64
  hs_Uptime :: uint64
  hs_Load1 :: float64
  hs_Load5 :: float64
  hs_Load15 :: float64
  hs_TcpConnCount :: uint64
  hs_UdpConnCount :: uint64
  hs_ProcessCount :: uint64
  hs_Temperatures :: "sensor_temperature list"
  hs_GPU :: "float64 list"

definition zero_state :: host_state where
  "zero_state = \<lparr>hs_CPU = 0, hs_MemUsed = 0, hs_SwapUsed = 0, hs_DiskUsed = 0, hs_NetInTransfer = 0,
     hs_NetOutTransfer = 0, hs_NetInSpeed = 0, hs_NetOutSpeed = 0, hs_Uptime = 0, hs_Load1 = 0, hs_Load5 = 0,
     hs_Load15 = 0, hs_TcpConnCount = 0, hs_UdpConnCount = 0, hs_ProcessCount = 0, hs_Temperatures = [], hs_GPU = []\<rparr>"

record server =
  sv_ID :: uint64
  sv_UserID :: uint64
  sv_Name :: string
  sv_UUID :: string
  sv_DisplayIndex :: int
  sv_HideForGuest :: bool
  sv_MemTotal :: uint64
  sv_DiskTotal :: uint64
  sv_SwapTotal :: uint64
  sv_State :: host_state
  sv_LastActive :: "int option"
  sv_Online :: bool
  sv_PrevIn :: uint64
  sv_PrevOut :: uint64

text \<open>A server as \<open>InitServer\<close> leaves it after a load from the database.\<close>

definition init_server :: "uint64 \<Rightarrow> uint64 \<Rightarrow> string \<Rightarrow> string \<Rightarrow> server" where
  "init_server sid uid name uuid = \<lparr>sv_ID = sid, sv_UserID = uid, sv_Name = name, sv_UUID = uuid,
     sv_DisplayIndex = 0, sv_HideForGuest = False, sv_MemTotal = 0, sv_DiskTotal = 0, sv_SwapTotal = 0,
     sv_State = zero_state, sv_LastActive = None, sv_Online = False, sv_PrevIn = 0, sv_PrevOut = 0\<rparr>"

end
