(* ===== verification/Alert_Rule.thy ===== *)
theory Alert_Rule
  imports Alert_Time Server_Model
begin

text \<open>
  The conditions of an alert and their evaluation (\<open>model/rule.go\<close>), and the decision over a history of samples
  (\<open>model/alertrule.go\<close>). A condition keeps its two caches, \<open>NextTransferAt\<close> and \<open>LastCycleStatus\<close>;
  an evaluation returns the new condition. \<open>r_Zone\<close> is the offset of the location of \<open>CycleStart\<close>.
\<close>

definition RuleCoverAll :: uint64 where "RuleCoverAll = 0"
definition RuleCoverIgnoreAll :: uint64 where "RuleCoverIgnoreAll = 1"

record rule =
  r_Type :: string
  r_Min :: float64
  r_Max :: float64
  r_CycleStart :: "int option"
  r_Zone :: int
  r_CycleInterval :: uint64
  r_CycleUnit :: string
  r_Duration :: uint64
  r_Cover :: uint64
  r_Ignore :: "(uint64, bool) gomap"
  r_NextTransferAt :: "(uint64, int) gomap"
  r_LastCycleStatus :: "(uint64, bool) gomap"

record cycle_stats =
  ct_Name :: string
  ct_From :: int
  ct_To :: int
  ct_Max :: uint64
  ct_Min :: uint64
  ct_ServerName :: "(uint64, string) gomap"
  ct_Transfer :: "(uint64, uint64) gomap"
  ct_NextUpdate :: "(uint64, int) gomap"

definition u2f :: "uint64 \<Rightarrow> float64" where
  "u2f x = of_nat (unat x)"

definition percentage :: "uint64 \<Rightarrow> uint64 \<Rightarrow> float64" where
  "percentage used tot = (if tot = 0 then 0 else u2f used * 100 / u2f tot)"

definition IsTransferDurationRule :: "rule \<Rightarrow> bool" where
  "IsTransferDurationRule u = HasSuffix (r_Type u) ''_cycle''"

definition IsOfflineRule :: "rule \<Rightarrow> bool" where
  "IsOfflineRule u \<longleftrightarrow> r_Type u = ''offline''"

definition cycle_start :: "rule \<Rightarrow> int \<Rightarrow> int go" where
  "cycle_start u now = GetTransferDurationStart (r_CycleStart u) (r_CycleInterval u) (r_CycleUnit u) (r_Zone u) now"

definition cycle_end :: "rule \<Rightarrow> int \<Rightarrow> int go" where
  "cycle_end u now = GetTransferDurationEnd (r_CycleStart u) (r_CycleInterval u) (r_CycleUnit u) (r_Zone u) now"

text \<open>\<open>slices.Max\<close> panics on an empty slice.\<close>

definition slices_Max :: "'a::linorder list \<Rightarrow> 'a go" where
  "slices_Max xs = (case xs of [] \<Rightarrow> Panic | x # xs' \<Rightarrow> Ret (fold max xs' x))"

subsection \<open>The measured value\<close>

text \<open>
  \<open>sum_since col start\<close> is the result of the SQL sum of a transfer column of this server since \<open>start\<close>.
\<close>

definition rule_src :: "(string \<Rightarrow> int \<Rightarrow> uint64) \<Rightarrow> int \<Rightarrow> rule \<Rightarrow> server \<Rightarrow> float64 go" where
  "rule_src sum_since now u sv =
     (let s = sv_State sv; ty = r_Type u;
          cycle = (\<lambda>base col. if r_CycleInterval u \<noteq> 0
             then go_bind (cycle_start u now) (\<lambda>st. Ret (u2f base + u2f (sum_since col st)))
             else Ret (u2f base));
          din = SubUintChecked (hs_NetInTransfer s) (sv_PrevIn sv);
          dout = SubUintChecked (hs_NetOutTransfer s) (sv_PrevOut sv)
      in if ty = ''cpu'' then Ret (hs_CPU s)
         else if ty = ''gpu_max'' then slices_Max (hs_GPU s)
         else if ty = ''memory'' then Ret (percentage (hs_MemUsed s) (sv_MemTotal sv))
         else if ty = ''swap'' then Ret (percentage (hs_SwapUsed s) (sv_SwapTotal sv))
         else if ty = ''disk'' then Ret (percentage (hs_DiskUsed s) (sv_DiskTotal sv))
         else if ty = ''net_in_speed'' then Ret (u2f (hs_NetInSpeed s))
         else if ty = ''net_out_speed'' then Ret (u2f (hs_NetOutSpeed s))
         else if ty = ''net_all_speed'' then Ret (u2f (hs_NetOutSpeed s + hs_NetOutSpeed s))
         else if ty = ''transfer_in'' then Ret (u2f (hs_NetInTransfer s))
         else if ty = ''transfer_out'' then Ret (u2f (hs_NetOutTransfer s))
         else if ty = ''transfer_all'' then Ret (u2f (hs_NetOutTransfer s + hs_NetInTransfer s))
         else if ty = ''offline'' then
           Ret (case sv_LastActive sv of None \<Rightarrow> 0 | Some t \<Rightarrow> of_int (unix_seconds t))
         else if ty = ''transfer_in_cycle'' then cycle din ''in''
         else if ty = ''transfer_out_cycle'' then cycle dout ''out''
         else if ty = ''transfer_all_cycle'' then cycle (dout + din) ''in+out''
         else if ty = ''load1'' then Ret (hs_Load1 s)
         else if ty = ''load5'' then Ret (hs_Load5 s)
         else if ty = ''load15'' then Ret (hs_Load15 s)
         else if ty = ''tcp_conn_count'' then Ret (u2f (hs_TcpConnCount s))
         else if ty = ''udp_conn_count'' then Ret (u2f (hs_UdpConnCount s))
         else if ty = ''process_count'' then Ret (u2f (hs_ProcessCount s))
         else if ty = ''temperature_max'' then
           (if hs_Temperatures s = [] then Ret 0
            else slices_Max (filter (\<lambda>t. t \<noteq> 0) (map st_Temperature (hs_Temperatures s))))
         else Ret 0)"

text \<open>A rule is violated by a value above its maximum or below its minimum; a bound of 0 is no bound.\<close>

definition out_of_bounds :: "rule \<Rightarrow> float64 \<Rightarrow> bool" where
  "out_of_bounds u src \<longleftrightarrow> (r_Max u > 0 \<and> src > r_Max u) \<or> (r_Min u > 0 \<and> src < r_Min u)"

text \<open>
  The whole seconds until the next check of a cycle rule. For \<open>Max = 0\<close> the quotient is minus infinity when
  \<open>src > 0\<close>, so the lower bound counts, and NaN when \<open>src = 0\<close>: what Go makes of that is the argument \<open>nan\<close>.
\<close>

definition next_check_seconds :: "int \<Rightarrow> float64 \<Rightarrow> float64 \<Rightarrow> int" where
  "next_check_seconds nan mx src =
     (if mx = 0 then (if src = 0 then nan else if src > 0 then 180 else 9223372036854775807)
      else \<lfloor>max (1800 * ((mx - src) / mx)) 180\<rfloor>)"

definition f2u :: "float64 \<Rightarrow> uint64" where
  "f2u x = word_of_int \<lfloor>x\<rfloor>"

text \<open>
  \<open>Snapshot\<close>: the result of the check and the condition and statistics it leaves. \<open>stats\<close> is a pointer of a map
  lookup and may be nil: writing through it panics.
\<close>

definition Rule_Snapshot ::
  "(string \<Rightarrow> int \<Rightarrow> uint64) \<Rightarrow> int \<Rightarrow> int \<Rightarrow> server \<Rightarrow> rule \<times> cycle_stats option
    \<Rightarrow> (bool \<times> rule \<times> cycle_stats option) go" where
  "Rule_Snapshot sum_since nan now sv us =
     (let (u, stats) = us; sid = sv_ID sv
      in if r_Cover u = RuleCoverAll \<and> get_or False (r_Ignore u) sid then Ret (True, us)
         else if r_Cover u = RuleCoverIgnoreAll \<and> \<not> get_or False (r_Ignore u) sid then Ret (True, us)
         else if IsTransferDurationRule u \<and> (case map_of (r_NextTransferAt u) sid of None \<Rightarrow> False | Some t \<Rightarrow> t > now)
         then Ret (get_or False (r_LastCycleStatus u) sid, us)
         else go_bind (rule_src sum_since now u sv) (\<lambda>src.
           go_bind
             (if IsTransferDurationRule u
              then (let next = now + next_check_seconds nan (r_Max u) src * second;
                        u' = u\<lparr>r_NextTransferAt := AList.update sid next (r_NextTransferAt u),
                               r_LastCycleStatus := AList.update sid (\<not> out_of_bounds u src) (r_LastCycleStatus u)\<rparr>
                    in (case stats of None \<Rightarrow> Panic
                        | Some c \<Rightarrow> go_bind (cycle_start u now) (\<lambda>from. go_bind (cycle_end u now) (\<lambda>to.
                            Ret (u', Some (c\<lparr>ct_ServerName := (if get_or [] (ct_ServerName c) sid \<noteq> sv_Name sv
                                               then AList.update sid (sv_Name sv) (ct_ServerName c) else ct_ServerName c),
                                       ct_Transfer := AList.update sid (f2u src) (ct_Transfer c),
                                       ct_NextUpdate := AList.update sid next (ct_NextUpdate c),
                                       ct_From := from, ct_To := to\<rparr>))))))
              else Ret us)
             (\<lambda>us'. Ret (if r_Type u = ''offline'' \<and> of_int (unix_seconds now) - src > 6 then False
                         else \<not> out_of_bounds u src, us'))))"

subsection \<open>An alert\<close>

definition ModeAlwaysTrigger :: uint8 where "ModeAlwaysTrigger = 0"
definition ModeOnetimeTrigger :: uint8 where "ModeOnetimeTrigger = 1"

record alert_rule =
  ar_ID :: uint64
  ar_UserID :: uint64
  ar_Name :: string
  ar_Enable :: "bool option"
  ar_TriggerMode :: uint8
  ar_NotificationGroupID :: uint64
  ar_Rules :: "rule list"
  ar_FailTriggerTasks :: "uint64 list"
  ar_RecoverTriggerTasks :: "uint64 list"

definition Alert_Enabled :: "alert_rule \<Rightarrow> bool" where
  "Alert_Enabled r \<longleftrightarrow> ar_Enable r = Some True"

text \<open>\<open>AlertRule.Snapshot\<close>: all conditions in order, threading the shared statistics.\<close>

fun rules_snapshot ::
  "(string \<Rightarrow> int \<Rightarrow> uint64) \<Rightarrow> int \<Rightarrow> int \<Rightarrow> server \<Rightarrow> rule list \<Rightarrow> cycle_stats option
    \<Rightarrow> (bool list \<times> rule list \<times> cycle_stats option) go" where
  "rules_snapshot sum_since nan now sv [] c = Ret ([], [], c)"
| "rules_snapshot sum_since nan now sv (u # us) c =
     go_bind (Rule_Snapshot sum_since nan now sv (u, c)) (\<lambda>(b, u', c').
       go_bind (rules_snapshot sum_since nan now sv us c') (\<lambda>(bs, us', c''). Ret (b # bs, u' # us', c'')))"

definition Alert_Snapshot ::
  "(string \<Rightarrow> int \<Rightarrow> uint64) \<Rightarrow> int \<Rightarrow> int \<Rightarrow> server \<Rightarrow> alert_rule \<Rightarrow> cycle_stats option
    \<Rightarrow> (bool list \<times> alert_rule \<times> cycle_stats option) go" where
  "Alert_Snapshot sum_since nan now sv r c =
     go_bind (rules_snapshot sum_since nan now sv (ar_Rules r) c)
       (\<lambda>(bs, us, c'). Ret (bs, r\<lparr>ar_Rules := us\<rparr>, c'))"

subsection \<open>The decision over a history\<close>

definition boundCheck :: "nat \<Rightarrow> int \<Rightarrow> bool \<Rightarrow> bool" where
  "boundCheck len duration passed = (if passed then True else int len < duration)"

text \<open>\<open>points[i][ruleIndex]\<close>, out of range it panics.\<close>

definition point_at :: "bool list \<Rightarrow> nat \<Rightarrow> bool go" where
  "point_at p i = (if i < length p then Ret (p ! i) else Panic)"

text \<open>The backward scan of an offline rule: the number of samples up to the last one that passed, and whether there was one.\<close>

fun offline_scan :: "nat \<Rightarrow> bool list list \<Rightarrow> (nat \<times> bool) go" where
  "offline_scan i [] = Ret (0, False)"
| "offline_scan i (p # ps) = go_bind (point_at p i) (\<lambda>b.
     if b then Ret (1, True) else go_bind (offline_scan i ps) (\<lambda>(n, f). Ret (Suc n, f)))"

fun count_fails :: "nat \<Rightarrow> bool list list \<Rightarrow> nat go" where
  "count_fails i [] = Ret 0"
| "count_fails i (p # ps) = go_bind (point_at p i) (\<lambda>b.
     go_bind (count_fails i ps) (\<lambda>n. Ret (if b then n else Suc n)))"

text \<open>
  The body of the loop of \<open>Check\<close> for the condition \<open>u\<close> with index \<open>i\<close>: its entry of \<open>durations\<close> and the new
  \<open>hasPassedRule\<close>. \<open>int(rule.Duration)\<close> reinterprets the unsigned number as signed; \<open>tick0\<close> is
  \<open>len(points)-duration\<close> in 64-bit arithmetic.
\<close>

definition check_rule :: "bool list list \<Rightarrow> nat \<Rightarrow> rule \<Rightarrow> bool \<Rightarrow> (int \<times> bool) go" where
  "check_rule points i u passed =
     (let duration = sint (r_Duration u); n = int (length points);
          tick0 = sint (of_nat (length points) - r_Duration u)
      in if IsTransferDurationRule u then
           (if passed then Ret (1, True)
            else if points = [] then Ret (1, False)
            else go_bind (point_at (last points) i) (\<lambda>b. Ret (1, b)))
         else if IsOfflineRule u then
           (if boundCheck (length points) duration passed then Ret (0, True)
            else go_bind (go_slice points tick0 n) (\<lambda>tl.
              go_bind (offline_scan i (rev tl)) (\<lambda>(fail, found). Ret (int fail, found))))
         else
           (if boundCheck (length points) duration passed then Ret (0, True)
            else go_bind (if tick0 < 0 then Panic else count_fails i (drop (nat tick0) points)) (\<lambda>fail.
              if duration = 0 then Panic
              else Ret (max duration 0, go_div (int fail * 100) duration \<le> 70))))"

fun check_rules :: "bool list list \<Rightarrow> nat \<Rightarrow> rule list \<Rightarrow> bool \<Rightarrow> (int list \<times> bool) go" where
  "check_rules points i [] passed = Ret ([], passed)"
| "check_rules points i (u # us) passed = go_bind (check_rule points i u passed) (\<lambda>(d, p).
     go_bind (check_rules points (Suc i) us p) (\<lambda>(ds, q). Ret (d # ds, q)))"

definition Check :: "rule list \<Rightarrow> bool list list \<Rightarrow> (int \<times> bool) go" where
  "Check rules points = go_bind (check_rules points 0 rules False) (\<lambda>(ds, passed).
     go_bind (slices_Max ds) (\<lambda>m. Ret (m, passed)))"

end
