(* ===== verification/Notify.thy ===== *)
theory Notify
  imports Prelude
begin

text \<open>
  Notifications and their groups (\<open>service/singleton/notification.go\<close>): the registry of notifiers with its two
  indexes \<open>groupToIDList\<close> and \<open>idToGroupList\<close>, the mute labels, and the rule that spaces repeated
  notifications, over a cache with expiry.

  A map of maps is a map into optional inner maps: a missing inner map is Go's nil map, reads of it give nothing,
  \<open>delete\<close> on it does nothing and a write to it panics. The cache (\<open>go-cache\<close>) is given by the functions
  \<open>cget\<close>, \<open>cset\<close> and \<open>cdel\<close>; what is used of them is \<open>cache_laws\<close>. Times are nanoseconds.
\<close>

record notification =
  nt_ID :: uint64
  nt_Name :: string
  nt_URL :: string
  nt_RequestMethod :: uint8
  nt_RequestType :: uint8
  nt_RequestHeader :: string
  nt_RequestBody :: string
  nt_VerifyTLS :: "bool option"
  nt_FormatMetricUnits :: "bool option"

record notify_class =
  nc_list :: "(uint64, notification) gomap"
  nc_sortedList :: "notification list"
  nc_groupToIDList :: "(uint64, (uint64, notification option) gomap) gomap"
  nc_idToGroupList :: "(uint64, uint64 list) gomap"
  nc_groupList :: "(uint64, string) gomap"

definition set_add :: "'a \<Rightarrow> 'a list \<Rightarrow> 'a list" where
  "set_add x xs = (if x \<in> set xs then xs else xs @ [x])"

text \<open>\<open>delete(m[g], k)\<close> and the write \<open>m[g][k] = v\<close>.\<close>

definition inner_delete :: "'g \<Rightarrow> 'k \<Rightarrow> ('g, ('k, 'v) gomap) gomap \<Rightarrow> ('g, ('k, 'v) gomap) gomap" where
  "inner_delete g k m = (case map_of m g of None \<Rightarrow> m | Some i \<Rightarrow> AList.update g (AList.delete k i) m)"

definition inner_put :: "'g \<Rightarrow> 'k \<Rightarrow> 'v \<Rightarrow> ('g, ('k, 'v) gomap) gomap \<Rightarrow> ('g, ('k, 'v) gomap) gomap go" where
  "inner_put g k v m = (case map_of m g of None \<Rightarrow> Panic | Some i \<Rightarrow> Ret (AList.update g (AList.update k v i) m))"

text \<open>The notifier \<open>k\<close> in the group \<open>g\<close>.\<close>

definition inner_get :: "'g \<Rightarrow> 'k \<Rightarrow> ('g, ('k, 'v) gomap) gomap \<Rightarrow> 'v option" where
  "inner_get g k m = Option.bind (map_of m g) (\<lambda>i. map_of i k)"

lemma inner_get_delete [gomap_simps]:
  "inner_get g k (inner_delete g' k' m) = (if g = g' \<and> k = k' then None else inner_get g k m)"
  by (auto simp: inner_get_def inner_delete_def map_of_update map_of_delete split: option.split)

lemma inner_get_put [gomap_simps]:
  "inner_put g' k' v m = Ret m' \<Longrightarrow> inner_get g k m' = (if g = g' \<and> k = k' then Some v else inner_get g k m)"
  by (auto simp: inner_get_def inner_put_def map_of_update split: option.splits)

subsection \<open>Loading\<close>

text \<open>\<open>NewNotificationClass\<close> over the rows of the three tables; the join rows are pairs (group, notifier).\<close>

definition load_group :: "(uint64, notification) gomap \<Rightarrow> uint64 \<times> uint64
    \<Rightarrow> (uint64, (uint64, notification option) gomap) gomap \<times> (uint64, uint64 list) gomap
    \<Rightarrow> (uint64, (uint64, notification option) gomap) gomap \<times> (uint64, uint64 list) gomap" where
  "load_group lst e ix = (case ix of (gi, ig) \<Rightarrow> (case e of (gid, nid) \<Rightarrow>
     (let gi1 = (if map_of gi gid = None then AList.update gid [] gi else gi)
      in case map_of lst nid of None \<Rightarrow> (gi1, ig)
         | Some n \<Rightarrow> (AList.update gid (AList.update (nt_ID n) (Some n) (get_or [] gi1 gid)) gi1,
                     AList.update (nt_ID n) (set_add gid (get_or [] ig (nt_ID n))) ig))))"

definition NewNotificationClass ::
  "(uint64 \<times> uint64) list \<Rightarrow> notification list \<Rightarrow> (uint64 \<times> string) list \<Rightarrow> notify_class" where
  "NewNotificationClass ngn ns groups =
     (let lst = fold (\<lambda>n m. AList.update (nt_ID n) n m) ns [];
          (gi, ig) = fold (load_group lst) ngn ([], [])
      in \<lparr>nc_list = lst, nc_sortedList = ns, nc_groupToIDList = gi, nc_idToGroupList = ig,
          nc_groupList = fold (\<lambda>(g, nm) m. AList.update g nm m) groups []\<rparr>)"

definition nc_sortList :: "notify_class \<Rightarrow> notify_class" where
  "nc_sortList c = c\<lparr>nc_sortedList := sort_key nt_ID (MapValuesToSlice (nc_list c))\<rparr>"

subsection \<open>Operations\<close>

definition Notification_Update :: "notification \<Rightarrow> notify_class \<Rightarrow> notify_class go" where
  "Notification_Update n c =
     (let c1 = c\<lparr>nc_list := AList.update (nt_ID n) n (nc_list c)\<rparr>
      in go_bind
        (if map_of (nc_list c) (nt_ID n) = None then Ret (nc_groupToIDList c)
         else go_foldM (\<lambda>m gid. inner_put gid (nt_ID n) (Some n) m) (nc_groupToIDList c)
                (get_or [] (nc_idToGroupList c) (nt_ID n)))
        (\<lambda>gi. Ret (nc_sortList (c1\<lparr>nc_groupToIDList := gi\<rparr>))))"

text \<open>One notifier of the new member list, in both branches of \<open>UpdateGroup\<close>.\<close>

definition add_member :: "uint64 \<Rightarrow> uint64 \<Rightarrow> notify_class \<Rightarrow> notify_class" where
  "add_member g n c =
     c\<lparr>nc_idToGroupList := AList.update n (set_add g (get_or [] (nc_idToGroupList c) n)) (nc_idToGroupList c),
       nc_groupToIDList := AList.update g
         (AList.update n (map_of (nc_list c) n) (get_or [] (nc_groupToIDList c) g)) (nc_groupToIDList c)\<rparr>"

text \<open>The last loop of \<open>UpdateGroup\<close>, for a notifier that was a member before.\<close>

definition drop_member :: "uint64 \<Rightarrow> uint64 \<Rightarrow> notify_class \<Rightarrow> notify_class" where
  "drop_member g oldID c =
     (if inner_get g oldID (nc_groupToIDList c) = None
      then c\<lparr>nc_groupToIDList := inner_delete oldID g (nc_groupToIDList c),
             nc_idToGroupList := (if get_or [] (nc_idToGroupList c) oldID = []
               then AList.delete oldID (nc_idToGroupList c) else nc_idToGroupList c)\<rparr>
      else c)"

definition UpdateGroup :: "uint64 \<Rightarrow> string \<Rightarrow> uint64 list \<Rightarrow> notify_class \<Rightarrow> notify_class" where
  "UpdateGroup g name ngn c =
     (let c1 = c\<lparr>nc_groupList := AList.update g name (nc_groupList c)\<rparr>;
          c2 = c1\<lparr>nc_groupToIDList := AList.update g [] (nc_groupToIDList c1)\<rparr>
      in if map_of (nc_groupList c) g = None then fold (add_member g) ngn c2
         else fold (drop_member g) (map fst (get_or [] (nc_groupToIDList c) g)) (fold (add_member g) ngn c2))"

definition Notification_Delete1 :: "uint64 \<Rightarrow> notify_class \<Rightarrow> notify_class" where
  "Notification_Delete1 nid c =
     (let gids = get_or [] (nc_idToGroupList c) nid
      in c\<lparr>nc_list := AList.delete nid (nc_list c),
           nc_groupToIDList := fold (\<lambda>gid m. inner_delete gid nid m) gids (nc_groupToIDList c),
           nc_idToGroupList := (if gids = [] then nc_idToGroupList c else AList.delete nid (nc_idToGroupList c))\<rparr>)"

definition Notification_Delete :: "uint64 list \<Rightarrow> notify_class \<Rightarrow> notify_class" where
  "Notification_Delete ids c = nc_sortList (fold Notification_Delete1 ids c)"

definition DeleteGroup :: "uint64 list \<Rightarrow> notify_class \<Rightarrow> notify_class" where
  "DeleteGroup gids c = c\<lparr>nc_groupList := delete_all gids (nc_groupList c),
     nc_groupToIDList := delete_all gids (nc_groupToIDList c)\<rparr>"

definition GetGroupName :: "uint64 \<Rightarrow> notify_class \<Rightarrow> string" where
  "GetGroupName gid c = get_or [] (nc_groupList c) gid"

subsection \<open>Mute labels\<close>

definition lbl_IPChanged :: "uint64 \<Rightarrow> string" where
  "lbl_IPChanged s = ''bf::ic-'' @ show_uint s"
definition lbl_ServerIncident :: "uint64 \<Rightarrow> uint64 \<Rightarrow> string" where
  "lbl_ServerIncident a s = ''bf::sei-'' @ show_uint a @ ''-'' @ show_uint s"
definition lbl_ServerIncidentResolved :: "uint64 \<Rightarrow> uint64 \<Rightarrow> string" where
  "lbl_ServerIncidentResolved a s = ''bf::seir-'' @ show_uint a @ ''-'' @ show_uint s"
definition AppendNotificationGroupName :: "string \<Rightarrow> string \<Rightarrow> string" where
  "AppendNotificationGroupName label name = label @ '':'' @ name"
definition lbl_ServiceLatencyMin :: "uint64 \<Rightarrow> string" where
  "lbl_ServiceLatencyMin s = ''bf::sln-'' @ show_uint s"
definition lbl_ServiceLatencyMax :: "uint64 \<Rightarrow> string" where
  "lbl_ServiceLatencyMax s = ''bf::slm-'' @ show_uint s"
definition lbl_ServiceStateChanged :: "uint64 \<Rightarrow> string" where
  "lbl_ServiceStateChanged s = ''bf::ssc-'' @ show_uint s"
definition lbl_ServiceTLS :: "uint64 \<Rightarrow> string \<Rightarrow> string" where
  "lbl_ServiceTLS s extra = ''bf::stls-'' @ show_uint s @ ''-'' @ extra"

subsection \<open>Sending\<close>

definition minute :: int where "minute = 60000000000"
definition firstNotificationDelay :: int where "firstNotificationDelay = 15 * minute"

record notify_history =
  nh_Duration :: int
  nh_Until :: int

type_synonym 'c cache_get = "'c \<Rightarrow> int \<Rightarrow> string \<Rightarrow> notify_history option"
type_synonym 'c cache_set = "'c \<Rightarrow> int \<Rightarrow> string \<Rightarrow> notify_history \<Rightarrow> int \<Rightarrow> 'c"

text \<open>
  The decision of \<open>SendNotification\<close> for a full label: whether to send, and the cache it leaves. The third
  argument of \<open>cset\<close> is the time to live.
\<close>

definition mute_gate :: "'c cache_get \<Rightarrow> 'c cache_set \<Rightarrow> int \<Rightarrow> string \<Rightarrow> 'c \<Rightarrow> bool \<times> 'c" where
  "mute_gate cget cset now label cache =
     (case cget cache now label of
        Some h \<Rightarrow>
          if now > nh_Until h
          then (let d = min (nh_Duration h * 2) (24 * 60 * minute)
                in (True, cset cache now label \<lparr>nh_Duration = d, nh_Until = now + d\<rparr> (d + 10 * minute)))
          else (False, cache)
      | None \<Rightarrow> (True, cset cache now label
           \<lparr>nh_Duration = firstNotificationDelay, nh_Until = now + firstNotificationDelay\<rparr>
           (firstNotificationDelay + 10 * minute)))"

text \<open>The notifiers that receive a message; a nil notifier in the group makes the call panic.\<close>

definition SendNotification ::
  "'c cache_get \<Rightarrow> 'c cache_set \<Rightarrow> int \<Rightarrow> uint64 \<Rightarrow> string \<Rightarrow> notify_class \<times> 'c \<Rightarrow> (notification list \<times> 'c) go" where
  "SendNotification cget cset now gid muteLabel st =
     (let (c, cache) = st;
          (ok, cache') = (if muteLabel \<noteq> []
             then mute_gate cget cset now (AppendNotificationGroupName muteLabel (GetGroupName gid c)) cache
             else (True, cache));
          ns = map snd (get_or [] (nc_groupToIDList c) gid)
      in if \<not> ok then Ret ([], cache')
         else if None \<in> set ns then Panic
         else Ret (map the ns, cache'))"

definition UnMuteNotification :: "('c \<Rightarrow> string \<Rightarrow> 'c) \<Rightarrow> uint64 \<Rightarrow> string \<Rightarrow> notify_class \<times> 'c \<Rightarrow> 'c" where
  "UnMuteNotification cdel gid muteLabel st =
     cdel (snd st) (AppendNotificationGroupName muteLabel (GetGroupName gid (fst st)))"

text \<open>What is used of the cache: an entry is found again until its time to live is over, and never another one.\<close>

definition cache_laws :: "'c cache_get \<Rightarrow> 'c cache_set \<Rightarrow> bool" where
  "cache_laws cget cset \<longleftrightarrow>
     (\<forall>c now k h ttl t. (0 < ttl \<longrightarrow> now \<le> t \<longrightarrow> t \<le> now + ttl \<longrightarrow> cget (cset c now k h ttl) t k = Some h)
       \<and> (cget (cset c now k h ttl) t k = None \<or> cget (cset c now k h ttl) t k = Some h))"

subsection \<open>HTTP requests of a notifier\<close>

definition NotificationRequestTypeJSON :: uint8 where "NotificationRequestTypeJSON = 1"
definition NotificationRequestTypeForm :: uint8 where "NotificationRequestTypeForm = 2"
definition NotificationRequestMethodGET :: uint8 where "NotificationRequestMethodGET = 1"
definition NotificationRequestMethodPOST :: uint8 where "NotificationRequestMethodPOST = 2"

definition reqMethod :: "notification \<Rightarrow> string option" where
  "reqMethod n =
     (if nt_RequestMethod n = NotificationRequestMethodPOST then Some ''POST''
      else if nt_RequestMethod n = NotificationRequestMethodGET then Some ''GET'' else None)"

text \<open>The header \<open>setContentType\<close> sets, if any.\<close>

definition setContentType :: "notification \<Rightarrow> string option" where
  "setContentType n =
     (if nt_RequestMethod n = NotificationRequestMethodGET then None
      else if nt_RequestType n = NotificationRequestTypeForm then Some ''application/x-www-form-urlencoded''
      else Some ''application/json'')"

subsection \<open>The two indexes\<close>

abbreviation in_group :: "notify_class \<Rightarrow> uint64 \<Rightarrow> uint64 \<Rightarrow> notification option option" where
  "in_group c g n \<equiv> inner_get g n (nc_groupToIDList c)"

abbreviation groups_of :: "notify_class \<Rightarrow> uint64 \<Rightarrow> uint64 list" where
  "groups_of c n \<equiv> get_or [] (nc_idToGroupList c) n"

lemma set_set_add [simp]: "set (set_add x xs) = insert x (set xs)"
  by (auto simp: set_add_def)

lemma add_member_fields [simp]:
  "nc_list (add_member g n c) = nc_list c" "nc_groupList (add_member g n c) = nc_groupList c"
  "in_group (add_member g n c) g' m =
     (if g' = g \<and> m = n then Some (map_of (nc_list c) n) else in_group c g' m)"
  "set (groups_of (add_member g n c) m) = (if m = n then insert g (set (groups_of c m)) else set (groups_of c m))"
  "map_of (nc_groupToIDList (add_member g n c)) g' = None \<longleftrightarrow> g' \<noteq> g \<and> map_of (nc_groupToIDList c) g' = None"
  by (auto simp: add_member_def inner_get_def map_of_update get_or_def split: option.splits)

lemma add_members:
  "nc_list (fold (add_member g) ns c) = nc_list c \<and> nc_groupList (fold (add_member g) ns c) = nc_groupList c
   \<and> in_group (fold (add_member g) ns c) g' m =
       (if g' = g \<and> m \<in> set ns then Some (map_of (nc_list c) m) else in_group c g' m)
   \<and> set (groups_of (fold (add_member g) ns c) m) = (if m \<in> set ns then {g} else {}) \<union> set (groups_of c m)
   \<and> (map_of (nc_groupToIDList (fold (add_member g) ns c)) g' = None \<longleftrightarrow>
        (ns = [] \<or> g' \<noteq> g) \<and> map_of (nc_groupToIDList c) g' = None)"
  by (induction ns arbitrary: c) auto

lemma inner_delete_None [simp]: "map_of (inner_delete g' k m) g = None \<longleftrightarrow> map_of m g = None"
  by (simp add: inner_delete_def map_of_update split: option.split)

lemma drop_member_fields:
  "nc_list (drop_member g a c) = nc_list c" "nc_groupList (drop_member g a c) = nc_groupList c"
  "set (groups_of (drop_member g a c) m) = set (groups_of c m)"
  "map_of (nc_groupToIDList (drop_member g a c)) g' = None \<longleftrightarrow> map_of (nc_groupToIDList c) g' = None"
  "in_group (drop_member g a c) g' m =
     (if in_group c g a = None \<and> g' = a \<and> m = g then None else in_group c g' m)"
  by (auto simp: drop_member_def gomap_simps)

lemma drop_members:
  "nc_list (fold (drop_member g) as c) = nc_list c
   \<and> set (groups_of (fold (drop_member g) as c) m) = set (groups_of c m)
   \<and> (map_of (nc_groupToIDList (fold (drop_member g) as c)) g' = None \<longleftrightarrow> map_of (nc_groupToIDList c) g' = None)
   \<and> (in_group c g' m = None \<longrightarrow> in_group (fold (drop_member g) as c) g' m = None)"
  by (induction as arbitrary: c) (simp_all add: drop_member_fields)

lemmas add_members_dom = add_members [THEN conjunct2, THEN conjunct2, THEN conjunct2, THEN conjunct2]
lemmas drop_members_dom = drop_members [THEN conjunct2, THEN conjunct2, THEN conjunct1]

lemma drop_members_other:
  "a \<in> set as \<Longrightarrow> in_group c g a = None \<Longrightarrow> in_group (fold (drop_member g) as c) a g = None"
proof (induction as arbitrary: c)
  case (Cons b as)
  show ?case
  proof (cases "a = b")
    case True
    then have "in_group (drop_member g b c) a g = None" using Cons.prems by (simp add: drop_member_fields)
    then show ?thesis using drop_members [of g as "drop_member g b c"] by simp
  next
    case False
    then show ?thesis using Cons by (simp add: drop_member_fields)
  qed
qed simp

lemma foldM_inner_put:
  "go_foldM (\<lambda>m gid. inner_put gid k v m) m gids =
     (if \<exists>g\<in>set gids. map_of m g = None then Panic else Ret (fold (\<lambda>gid m. AList.update gid (AList.update k v (get_or [] m gid)) m) gids m))"
proof (induction gids arbitrary: m)
  case (Cons g gids)
  show ?case
  proof (cases "map_of m g")
    case None
    then show ?thesis by (simp add: inner_put_def)
  next
    case (Some i)
    have "(\<exists>g'\<in>set gids. map_of (AList.update g (AList.update k v i) m) g' = None) \<longleftrightarrow> (\<exists>g'\<in>set gids. map_of m g' = None)"
      using Some by (force simp: map_of_update)
    moreover have "inner_put g k v m = Ret (AList.update g (AList.update k v i) m)" "get_or [] m g = i"
      using Some by (simp_all add: inner_put_def get_or_def)
    ultimately show ?thesis using Some by (simp add: Cons.IH)
  qed
qed simp

lemma inner_get_foldM:
  "g \<in> set gids \<Longrightarrow> inner_get g k (fold (\<lambda>gid m. AList.update gid (AList.update k v (get_or [] m gid)) m) gids m) = Some v"
proof (induction gids arbitrary: m)
  case (Cons g' gids)
  have keep: "inner_get g k (fold (\<lambda>gid m. AList.update gid (AList.update k v (get_or [] m gid)) m) hs m) = Some v"
    if "inner_get g k m = Some v" for hs m
    using that by (induction hs arbitrary: m) (auto simp: inner_get_def map_of_update get_or_def split: option.splits)
  show ?case
  proof (cases "g \<in> set gids")
    case True
    then show ?thesis using Cons.IH by simp
  next
    case False
    then have "g = g'" using Cons.prems by simp
    have "inner_get g k (AList.update g' (AList.update k v (get_or [] m g')) m) = Some v"
      using \<open>g = g'\<close> by (simp add: inner_get_def map_of_update)
    then show ?thesis by (simp add: keep)
  qed
qed simp

lemma update_group_existing:
  assumes "map_of (nc_groupList c) g \<noteq> None"
  shows "UpdateGroup g name ns c = fold (drop_member g) (map fst (get_or [] (nc_groupToIDList c) g))
    (fold (add_member g) ns (c\<lparr>nc_groupList := AList.update g name (nc_groupList c),
       nc_groupToIDList := AList.update g [] (nc_groupToIDList c)\<rparr>))"
  using assms by (auto simp: UpdateGroup_def Let_def)

subsection \<open>Properties\<close>

text \<open>a notifier taken out of a group by \<open>UpdateGroup\<close> is out of the group at first, but the reverse index still
  names the group, so the next edit of the notifier puts it back into the group's list of receivers.\<close>

lemma removed_notifier_comes_back:
  assumes "map_of (nc_groupList c) g \<noteq> None" and "g \<in> set (groups_of c a)"
    and "map_of (nc_list c) a \<noteq> None" and "a \<notin> set members"
    and "\<forall>g' \<in> set (groups_of c a). map_of (nc_groupToIDList c) g' \<noteq> None"
    and "nt_ID n = a"
  shows "in_group (UpdateGroup g name members c) g a = None
    \<and> (\<exists>c'. Notification_Update n (UpdateGroup g name members c) = Ret c' \<and> in_group c' g a = Some (Some n))"
proof -
  let ?c2 = "c\<lparr>nc_groupList := AList.update g name (nc_groupList c),
       nc_groupToIDList := AList.update g [] (nc_groupToIDList c)\<rparr>"
  let ?c3 = "fold (add_member g) members ?c2"
  let ?c4 = "UpdateGroup g name members c"
  have u: "?c4 = fold (drop_member g) (map fst (get_or [] (nc_groupToIDList c) g)) ?c3"
    by (rule update_group_existing [OF assms(1)])
  have "in_group ?c2 g a = None" by (simp add: inner_get_def map_of_update)
  then have none: "in_group ?c3 g a = None" using add_members [of g members ?c2 g a] assms(4) by simp
  have list4: "nc_list ?c4 = nc_list c" and gr4: "set (groups_of ?c4 a) = set (groups_of c a)"
    unfolding u using drop_members [of g _ ?c3] add_members [of g members ?c2] assms(4) by simp_all
  have "map_of (nc_groupToIDList ?c4) g' \<noteq> None" if "g' \<in> set (groups_of ?c4 a)" for g'
  proof -
    have "map_of (nc_groupToIDList c) g' \<noteq> None" using that assms(5) gr4 by blast
    then have "map_of (nc_groupToIDList ?c3) g' \<noteq> None"
      by (auto simp: add_members_dom map_of_update)
    then show ?thesis unfolding u by (simp only: drop_members_dom) simp
  qed
  then have "Notification_Update n ?c4 = Ret (nc_sortList (?c4\<lparr>nc_list := AList.update a n (nc_list ?c4),
      nc_groupToIDList := fold (\<lambda>gid m. AList.update gid (AList.update a (Some n) (get_or [] m gid)) m) (groups_of ?c4 a) (nc_groupToIDList ?c4)\<rparr>))"
    using assms(3,6) list4 by (auto simp: Notification_Update_def Let_def foldM_inner_put)
  moreover have "g \<in> set (groups_of ?c4 a)" using gr4 assms(2) by simp
  ultimately have "\<exists>c'. Notification_Update n ?c4 = Ret c' \<and> in_group c' g a = Some (Some n)"
    by (simp add: nc_sortList_def inner_get_foldM)
  moreover have "in_group ?c4 g a = None" unfolding u using none drop_members [where g = g and c = ?c3 and g' = g and m = a] by simp
  ultimately show ?thesis by blast
qed

text \<open>taking the notifier number \<open>a\<close> out of the group number \<open>g\<close> silently removes the notifier number \<open>g\<close> from the
  group number \<open>a\<close>, which the request does not mention.\<close>

lemma update_group_hits_other_group:
  assumes "map_of (nc_groupList c) g \<noteq> None" and "in_group c g a \<noteq> None" and "a \<notin> set members"
    and "a \<noteq> g" and "in_group c a g = Some (Some n)"
  shows "in_group (UpdateGroup g name members c) a g = None"
proof -
  let ?c2 = "c\<lparr>nc_groupList := AList.update g name (nc_groupList c),
       nc_groupToIDList := AList.update g [] (nc_groupToIDList c)\<rparr>"
  have "a \<in> set (map fst (get_or [] (nc_groupToIDList c) g))"
    using assms(2) by (force simp: inner_get_def get_or_def bind_eq_Some_conv dest: map_of_SomeD split: option.splits)
  moreover have "in_group ?c2 g a = None" by (simp add: inner_get_def map_of_update)
  then have "in_group (fold (add_member g) members ?c2) g a = None"
    using add_members [of g members ?c2 g a] assms(3) by simp
  ultimately show ?thesis
    unfolding update_group_existing [OF assms(1)] by (rule drop_members_other)
qed

text \<open>after a group is deleted, the next edit of a notifier that was in it writes to a nil map and panics.\<close>

theorem edit_after_group_deletion_panics:
  assumes "g \<in> set (groups_of c a)" and "map_of (nc_list c) a \<noteq> None" and "nt_ID n = a" and "g \<in> set gids"
  shows "Notification_Update n (DeleteGroup gids c) = Panic"
proof -
  have "map_of (delete_all gids (nc_groupToIDList c)) g = None" using assms(4) by (simp add: map_of_delete_all)
  with assms show ?thesis
    by (auto simp: Notification_Update_def DeleteGroup_def Let_def foldM_inner_put)
qed

text \<open>A registry with the notifier 2 in group 1 and the notifier 1 in group 2, for the witnesses.\<close>

definition demo_nt :: "uint64 \<Rightarrow> notification" where
  "demo_nt i = \<lparr>nt_ID = i, nt_Name = ''n'', nt_URL = [], nt_RequestMethod = 1, nt_RequestType = 1,
     nt_RequestHeader = [], nt_RequestBody = [], nt_VerifyTLS = None,
     nt_FormatMetricUnits = None\<rparr>"

definition demo_nc :: notify_class where
  "demo_nc = NewNotificationClass [(1, 2), (2, 1)] [demo_nt 1, demo_nt 2] [(1, ''g''), (2, ''h'')]"

lemma demo_nc: "demo_nc = \<lparr>nc_list = [(1, demo_nt 1), (2, demo_nt 2)], nc_sortedList = [demo_nt 1, demo_nt 2],
    nc_groupToIDList = [(1, [(2, Some (demo_nt 2))]), (2, [(1, Some (demo_nt 1))])],
    nc_idToGroupList = [(2, [1]), (1, [2])], nc_groupList = [(1, ''g''), (2, ''h'')]\<rparr>"
  by (simp add: demo_nc_def NewNotificationClass_def load_group_def demo_nt_def get_or_def set_add_def)

lemma removed_notifier_comes_back_witness:
  "in_group (UpdateGroup 1 ''g'' [] demo_nc) 1 2 = None
   \<and> (\<exists>c'. Notification_Update (demo_nt 2) (UpdateGroup 1 ''g'' [] demo_nc) = Ret c' \<and> in_group c' 1 2 = Some (Some (demo_nt 2)))"
  by (rule removed_notifier_comes_back) (simp_all add: demo_nc get_or_def, simp add: demo_nt_def)

lemma update_group_hits_other_group_witness:
  "in_group demo_nc 2 1 = Some (Some (demo_nt 1)) \<and> in_group (UpdateGroup 1 ''g'' [] demo_nc) 2 1 = None"
proof
  show "in_group demo_nc 2 1 = Some (Some (demo_nt 1))" by (simp add: demo_nc inner_get_def)
  show "in_group (UpdateGroup 1 ''g'' [] demo_nc) 2 1 = None"
    by (rule update_group_hits_other_group [where n = "demo_nt 1"]) (simp_all add: demo_nc inner_get_def)
qed

theorem edit_after_group_deletion_panics_witness:
  "Notification_Update (demo_nt 2) (DeleteGroup [1] demo_nc) = Panic"
  by (rule edit_after_group_deletion_panics [where g = 1 and a = 2]) (simp_all add: demo_nc get_or_def, simp add: demo_nt_def)

subsection \<open>Spacing of repeated notifications\<close>

text \<open>The times at which attempts at the times \<open>ts\<close>, all with the same full label, are let through.\<close>

fun gate_run :: "'c cache_get \<Rightarrow> 'c cache_set \<Rightarrow> string \<Rightarrow> int list \<Rightarrow> 'c \<Rightarrow> int list" where
  "gate_run cget cset label [] cache = []"
| "gate_run cget cset label (t # ts) cache =
     (let (ok, cache') = mute_gate cget cset t label cache
      in if ok then t # gate_run cget cset label ts cache' else gate_run cget cset label ts cache')"

definition long_entries :: "'c cache_get \<Rightarrow> string \<Rightarrow> 'c \<Rightarrow> bool" where
  "long_entries cget label cache \<longleftrightarrow>
     (\<forall>t h. cget cache t label = Some h \<longrightarrow> firstNotificationDelay \<le> nh_Duration h)"

definition muted_between :: "'c cache_get \<Rightarrow> string \<Rightarrow> 'c \<Rightarrow> int \<Rightarrow> int \<Rightarrow> bool" where
  "muted_between cget label cache s u \<longleftrightarrow>
     (\<forall>t. s \<le> t \<and> t \<le> u \<longrightarrow> (\<exists>h. cget cache t label = Some h \<and> t \<le> nh_Until h))"

lemma minute_pos: "0 < minute" "firstNotificationDelay = 15 * minute"
  by (simp_all add: minute_def firstNotificationDelay_def)

lemma mute_gate_sends:
  assumes "cache_laws cget cset" and "long_entries cget label cache" and "mute_gate cget cset t label cache = (True, cache')"
  shows "long_entries cget label cache' \<and> muted_between cget label cache' t (t + firstNotificationDelay)"
proof -
  have law: "0 < ttl \<Longrightarrow> now \<le> t' \<Longrightarrow> t' \<le> now + ttl \<Longrightarrow> cget (cset c now k h ttl) t' k = Some h"
    "cget (cset c now k h ttl) t' k = None \<or> cget (cset c now k h ttl) t' k = Some h" for c now k h ttl t'
    using assms(1) by (simp_all add: cache_laws_def)
  have stored: "long_entries cget label (cset cache t label \<lparr>nh_Duration = d, nh_Until = t + d\<rparr> (d + 10 * minute))
      \<and> muted_between cget label (cset cache t label \<lparr>nh_Duration = d, nh_Until = t + d\<rparr> (d + 10 * minute)) t (t + firstNotificationDelay)"
    if "firstNotificationDelay \<le> d" for d
  proof -
    let ?h = "\<lparr>nh_Duration = d, nh_Until = t + d\<rparr>"
    have "cget (cset cache t label ?h (d + 10 * minute)) t' label = Some ?h" if "t \<le> t'" "t' \<le> t + firstNotificationDelay" for t'
      using that \<open>firstNotificationDelay \<le> d\<close> minute_pos by (intro law(1)) linarith+
    moreover have "nh_Duration h = d" if "cget (cset cache t label ?h (d + 10 * minute)) t' label = Some h" for t' h
      using that law(2) [of cache t label ?h "d + 10 * minute" t'] by auto
    ultimately show ?thesis using that by (auto simp: long_entries_def muted_between_def)
  qed
  show ?thesis
  proof (cases "cget cache t label")
    case None
    then show ?thesis using assms(3) stored [of firstNotificationDelay] by (auto simp: mute_gate_def)
  next
    case (Some h)
    then have "firstNotificationDelay \<le> nh_Duration h" using assms(2) by (auto simp: long_entries_def)
    then have "firstNotificationDelay \<le> min (nh_Duration h * 2) (24 * 60 * minute)" using minute_pos by simp
    with Some assms(3) stored [OF this] show ?thesis by (auto simp: mute_gate_def Let_def split: if_splits)
  qed
qed

lemma mute_gate_keeps: "mute_gate cget cset t label cache = (False, cache') \<Longrightarrow> cache' = cache"
  by (auto simp: mute_gate_def Let_def split: option.splits if_splits)

lemma gate_run_spaced:
  assumes "cache_laws cget cset"
  shows "long_entries cget label cache \<Longrightarrow> sorted ts \<Longrightarrow> \<forall>t\<in>set ts. s \<le> t \<Longrightarrow> muted_between cget label cache s u
    \<Longrightarrow> (\<forall>x\<in>set (gate_run cget cset label ts cache). u < x)
      \<and> sorted_wrt (\<lambda>a b. a + firstNotificationDelay < b) (gate_run cget cset label ts cache)"
proof (induction ts arbitrary: cache s u)
  case (Cons t ts)
  obtain ok cache' where g: "mute_gate cget cset t label cache = (ok, cache')" by fastforce
  show ?case
  proof (cases ok)
    case True
    then have g': "mute_gate cget cset t label cache = (True, cache')" using g by simp
    from mute_gate_sends [OF assms Cons.prems(1) g'] Cons.prems(2)
    have IH: "(\<forall>x\<in>set (gate_run cget cset label ts cache'). t + firstNotificationDelay < x)
      \<and> sorted_wrt (\<lambda>a b. a + firstNotificationDelay < b) (gate_run cget cset label ts cache')"
      by (intro Cons.IH [where s = t]) auto
    have "u < t"
    proof (rule ccontr)
      assume "\<not> u < t"
      then obtain h where "cget cache t label = Some h" "t \<le> nh_Until h"
        using Cons.prems(3,4) by (auto simp: muted_between_def)
      then show False using g' by (simp add: mute_gate_def)
    qed
    with IH minute_pos g' show ?thesis by (fastforce simp: Let_def)
  next
    case False
    then have g': "mute_gate cget cset t label cache = (False, cache')" using g by simp
    then have "cache' = cache" by (rule mute_gate_keeps)
    with Cons.IH [OF Cons.prems(1) _ _ Cons.prems(4)] Cons.prems g' show ?thesis by simp
  qed
qed simp

text \<open>whatever the times of the attempts, the notifications that pass the mute rule under one label are more than
  fifteen minutes apart, from the first one on, as long as nobody unmutes the label.\<close>

lemma notifications_spaced:
  assumes "cache_laws cget cset" and "\<forall>t. cget cache t label = None" and "sorted ts"
  shows "sorted_wrt (\<lambda>a b. a + firstNotificationDelay < b) (gate_run cget cset label ts cache)
    \<and> (ts \<noteq> [] \<longrightarrow> hd (gate_run cget cset label ts cache) = hd ts)"
proof
  have l: "long_entries cget label cache" using assms(2) by (simp add: long_entries_def)
  show "sorted_wrt (\<lambda>a b. a + firstNotificationDelay < b) (gate_run cget cset label ts cache)"
  proof (cases ts)
    case (Cons t ts')
    have "muted_between cget label cache t (t - 1)" by (auto simp: muted_between_def)
    with gate_run_spaced [OF assms(1) l assms(3), of t "t - 1"] assms(3) Cons show ?thesis by simp
  qed simp
  show "ts \<noteq> [] \<longrightarrow> hd (gate_run cget cset label ts cache) = hd ts"
    using assms(2) by (cases ts) (simp_all add: mute_gate_def)
qed

text \<open>A cache of one label, for the witness.\<close>

definition one_get :: "(int \<times> notify_history) option cache_get" where
  "one_get c t k = (case c of None \<Rightarrow> None | Some (e, h) \<Rightarrow> if t \<le> e then Some h else None)"

definition one_set :: "(int \<times> notify_history) option cache_set" where
  "one_set c t k h ttl = Some (t + ttl, h)"

lemma notifications_spaced_witness:
  "sorted_wrt (\<lambda>a b. a + firstNotificationDelay < b) (gate_run one_get one_set ''l'' [0, minute, 16 * minute, 20 * minute] None)
   \<and> gate_run one_get one_set ''l'' [0, minute, 16 * minute, 20 * minute] None = [0, 16 * minute]"
proof
  show "sorted_wrt (\<lambda>a b. a + firstNotificationDelay < b) (gate_run one_get one_set ''l'' [0, minute, 16 * minute, 20 * minute] None)"
    by (rule notifications_spaced [THEN conjunct1])
      (simp_all add: cache_laws_def one_get_def one_set_def minute_def)
  show "gate_run one_get one_set ''l'' [0, minute, 16 * minute, 20 * minute] None = [0, 16 * minute]"
    by (simp add: mute_gate_def one_get_def one_set_def minute_def firstNotificationDelay_def Let_def)
qed

end
