(* ===== verification/Alert_Sentinel.thy ===== *)
theory Alert_Sentinel
  imports Alert_Rule Notify
begin

text \<open>
  The alert sentinel (\<open>service/singleton/alertsentinel.go\<close>): the histories of samples, the state of each pair of
  alert and server, and the check that runs every three seconds.

  The package variables are the record \<open>alert_state\<close>. What a check starts in the background (trigger tasks,
  notifications, unmuting) is the list of events it returns, in order. Arguments of the check: the SQL sums of the
  transfer columns \<open>sum_since\<close>, the value \<open>nan\<close> of \<open>next_check_seconds\<close>, the clock \<open>now\<close>, the localiser \<open>tr\<close>, the
  printed address \<open>ipd\<close> of a server, the roles of the users and the servers in the order of the map iteration.
\<close>

definition RuleCheckNoData :: uint8 where "RuleCheckNoData = 0"
definition RuleCheckFail :: uint8 where "RuleCheckFail = 1"
definition RuleCheckPass :: uint8 where "RuleCheckPass = 2"

lemmas rule_checks = RuleCheckNoData_def RuleCheckFail_def RuleCheckPass_def

record alert_state =
  as_Alerts :: "alert_rule list"
  as_Store :: "(uint64, (uint64, bool list list) gomap) gomap"
  as_PrevState :: "(uint64, (uint64, uint8) gomap) gomap"
  as_CycleStats :: "(uint64, cycle_stats) gomap"

datatype alert_event =
    TriggerTasks "uint64 list" uint64
  | Notification uint64 string string uint64
  | UnMute uint64 string

definition no_alerts :: alert_state where
  "no_alerts = \<lparr>as_Alerts = [], as_Store = [], as_PrevState = [], as_CycleStats = []\<rparr>"

subsection \<open>Registration of alerts\<close>

definition addCycleTransferStatsInfo :: "int \<Rightarrow> alert_rule \<Rightarrow> alert_state \<Rightarrow> alert_state go" where
  "addCycleTransferStatsInfo now alert st =
     (if \<not> Alert_Enabled alert then Ret st
      else go_foldM (\<lambda>s u.
        if \<not> IsTransferDurationRule u then Ret s
        else if map_of (as_CycleStats s) (ar_ID alert) \<noteq> None then Ret s
        else go_bind (cycle_start u now) (\<lambda>from. go_bind (cycle_end u now) (\<lambda>to.
          Ret (s\<lparr>as_CycleStats := AList.update (ar_ID alert)
            \<lparr>ct_Name = ar_Name alert, ct_From = from, ct_To = to, ct_Max = f2u (r_Max u), ct_Min = f2u (r_Min u),
             ct_ServerName = [], ct_Transfer = [], ct_NextUpdate = []\<rparr> (as_CycleStats s)\<rparr>)))) st (ar_Rules alert))"

text \<open>\<open>AlertSentinelStart\<close> up to its ticker, over the alerts the database returns.\<close>

definition alert_start1 :: "int \<Rightarrow> alert_state \<Rightarrow> alert_rule \<Rightarrow> alert_state go" where
  "alert_start1 now st alert = addCycleTransferStatsInfo now alert
     (st\<lparr>as_Store := AList.update (ar_ID alert) [] (as_Store st),
         as_PrevState := AList.update (ar_ID alert) [] (as_PrevState st)\<rparr>)"

definition AlertSentinelStart :: "int \<Rightarrow> alert_rule list \<Rightarrow> alert_state go" where
  "AlertSentinelStart now alerts = go_foldM (alert_start1 now) (no_alerts\<lparr>as_Alerts := alerts\<rparr>) alerts"

definition OnRefreshOrAddAlert :: "int \<Rightarrow> alert_rule \<Rightarrow> alert_state \<Rightarrow> alert_state go" where
  "OnRefreshOrAddAlert now alert st =
     (let isEdit = (\<exists>a \<in> set (as_Alerts st). ar_ID a = ar_ID alert);
          alerts = map (\<lambda>a. if ar_ID a = ar_ID alert then alert else a) (as_Alerts st)
      in addCycleTransferStatsInfo now alert
          (st\<lparr>as_Alerts := (if isEdit then alerts else alerts @ [alert]),
              as_Store := AList.update (ar_ID alert) [] (AList.delete (ar_ID alert) (as_Store st)),
              as_PrevState := AList.update (ar_ID alert) [] (AList.delete (ar_ID alert) (as_PrevState st)),
              as_CycleStats := AList.delete (ar_ID alert) (as_CycleStats st)\<rparr>))"

definition delete_alert :: "uint64 \<Rightarrow> alert_state \<Rightarrow> alert_state" where
  "delete_alert i st = st\<lparr>as_Store := AList.delete i (as_Store st), as_PrevState := AList.delete i (as_PrevState st),
     as_Alerts := filter (\<lambda>a. ar_ID a \<noteq> i) (as_Alerts st), as_CycleStats := AList.delete i (as_CycleStats st)\<rparr>"

definition OnDeleteAlert :: "uint64 list \<Rightarrow> alert_state \<Rightarrow> alert_state" where
  "OnDeleteAlert ids st = fold delete_alert ids st"

subsection \<open>The check\<close>

text \<open>Who may watch a server: its owner, and an administrator. An unknown owner counts as a member.\<close>

definition may_watch :: "(uint64, uint8) gomap \<Rightarrow> alert_rule \<Rightarrow> server \<Rightarrow> bool" where
  "may_watch roles alert sv \<longleftrightarrow>
     ar_UserID alert = sv_UserID sv \<or> IsAdmin (get_or RoleMember roles (ar_UserID alert))"

definition alert_message :: "(string \<Rightarrow> string) \<Rightarrow> (server \<Rightarrow> string) \<Rightarrow> string \<Rightarrow> server \<Rightarrow> alert_rule \<Rightarrow> string" where
  "alert_message tr ipd what sv alert =
     ''['' @ tr what @ ''] '' @ sv_Name sv @ ''('' @ ipd sv @ '') '' @ ar_Name alert"

text \<open>The reaction to a verdict: the new state of the pair and the events.\<close>

definition alert_react ::
  "(string \<Rightarrow> string) \<Rightarrow> (server \<Rightarrow> string) \<Rightarrow> alert_rule \<Rightarrow> server \<Rightarrow> uint8 \<Rightarrow> bool \<Rightarrow> uint8 \<times> alert_event list" where
  "alert_react tr ipd alert sv prev passed =
     (if \<not> passed then
        (if ar_TriggerMode alert = ModeAlwaysTrigger \<or> prev \<noteq> RuleCheckFail
         then (RuleCheckFail,
           [TriggerTasks (ar_FailTriggerTasks alert) (sv_ID sv),
            Notification (ar_NotificationGroupID alert) (alert_message tr ipd ''Incident'' sv alert)
              (lbl_ServerIncident (sv_ID sv) (ar_ID alert)) (sv_ID sv),
            UnMute (ar_NotificationGroupID alert) (lbl_ServerIncidentResolved (sv_ID sv) (ar_ID alert))])
         else (prev, []))
      else (RuleCheckPass,
        (if prev = RuleCheckFail then
           [TriggerTasks (ar_RecoverTriggerTasks alert) (sv_ID sv),
            Notification (ar_NotificationGroupID alert) (alert_message tr ipd ''Resolved'' sv alert)
              (lbl_ServerIncidentResolved (sv_ID sv) (ar_ID alert)) (sv_ID sv),
            UnMute (ar_NotificationGroupID alert) (lbl_ServerIncident (sv_ID sv) (ar_ID alert))]
         else [])))"

text \<open>The clean-up of the history after a check whose longest duration is \<open>mx\<close>.\<close>

definition trim_history :: "int \<Rightarrow> bool list list \<Rightarrow> bool list list" where
  "trim_history mx h = (if 0 < mx \<and> mx < int (length h) then drop (length h - nat mx) h else h)"

text \<open>One sample of one pair: append, check, react, trim.\<close>

definition check_server ::
  "(uint64 \<Rightarrow> string \<Rightarrow> int \<Rightarrow> uint64) \<Rightarrow> int \<Rightarrow> int \<Rightarrow> (string \<Rightarrow> string) \<Rightarrow> (server \<Rightarrow> string) \<Rightarrow> (uint64, uint8) gomap
    \<Rightarrow> alert_rule \<times> alert_state \<times> alert_event list \<Rightarrow> server \<Rightarrow> (alert_rule \<times> alert_state \<times> alert_event list) go" where
  "check_server sum_since nan now tr ipd roles acc sv =
     (let (alert, st, evs) = acc; aid = ar_ID alert; sid = sv_ID sv
      in if \<not> may_watch roles alert sv then Ret acc
         else go_bind (Alert_Snapshot (sum_since sid) nan now sv alert (map_of (as_CycleStats st) aid)) (\<lambda>(pts, alert', c).
           (let hist = get_or [] (get_or [] (as_Store st) aid) sid @ [pts];
                stats = (case c of None \<Rightarrow> as_CycleStats st | Some c' \<Rightarrow> AList.update aid c' (as_CycleStats st))
            in go_bind (inner_put aid sid hist (as_Store st)) (\<lambda>_.
               go_bind (Check (ar_Rules alert') hist) (\<lambda>(mx, passed).
               (let r = alert_react tr ipd alert' sv (get_or 0 (get_or [] (as_PrevState st) aid) sid) passed
                in go_bind (inner_put aid sid (fst r) (as_PrevState st)) (\<lambda>prev'.
                   go_bind (inner_put aid sid (trim_history mx hist) (as_Store st)) (\<lambda>store'.
                     Ret (alert', st\<lparr>as_Store := store', as_PrevState := prev', as_CycleStats := stats\<rparr>, evs @ snd r)))))))))"

text \<open>All pairs: the alerts in order, each over all servers; disabled alerts are skipped.\<close>

fun check_alerts ::
  "(uint64 \<Rightarrow> string \<Rightarrow> int \<Rightarrow> uint64) \<Rightarrow> int \<Rightarrow> int \<Rightarrow> (string \<Rightarrow> string) \<Rightarrow> (server \<Rightarrow> string) \<Rightarrow> (uint64, uint8) gomap
    \<Rightarrow> server list \<Rightarrow> alert_rule list \<Rightarrow> alert_state \<Rightarrow> (alert_rule list \<times> alert_state \<times> alert_event list) go" where
  "check_alerts sum_since nan now tr ipd roles svs [] st = Ret ([], st, [])"
| "check_alerts sum_since nan now tr ipd roles svs (a # as) st =
     (if \<not> Alert_Enabled a
      then go_bind (check_alerts sum_since nan now tr ipd roles svs as st) (\<lambda>(as', st', evs). Ret (a # as', st', evs))
      else go_bind (go_foldM (check_server sum_since nan now tr ipd roles) (a, st, []) svs) (\<lambda>(a', st1, evs1).
        go_bind (check_alerts sum_since nan now tr ipd roles svs as st1) (\<lambda>(as', st2, evs2).
          Ret (a' # as', st2, evs1 @ evs2))))"

definition checkStatus ::
  "(uint64 \<Rightarrow> string \<Rightarrow> int \<Rightarrow> uint64) \<Rightarrow> int \<Rightarrow> int \<Rightarrow> (string \<Rightarrow> string) \<Rightarrow> (server \<Rightarrow> string) \<Rightarrow> (uint64, uint8) gomap
    \<Rightarrow> server list \<Rightarrow> alert_state \<Rightarrow> (alert_state \<times> alert_event list) go" where
  "checkStatus sum_since nan now tr ipd roles svs st =
     go_bind (check_alerts sum_since nan now tr ipd roles svs (as_Alerts st) st) (\<lambda>(as', st', evs).
       Ret (st'\<lparr>as_Alerts := as'\<rparr>, evs))"

text \<open>
  \<open>validateRule\<close> of \<open>cmd/dashboard/controller/alertrule.go\<close>; \<open>perm\<close> is the permission on the ids of \<open>Ignore\<close>.
\<close>

definition validateRule :: "(uint64 list \<Rightarrow> bool) \<Rightarrow> int \<Rightarrow> rule list \<Rightarrow> go_error" where
  "validateRule perm now rules =
     (if rules = [] then Some ''need to configure at least a single rule''
      else FirstError (map (\<lambda>u.
        if \<not> perm (map fst (r_Ignore u)) then Some ''permission denied''
        else if \<not> IsTransferDurationRule u then
          (if r_Duration u < 3 then Some ''duration need to be at least 3'' else None)
        else if r_CycleInterval u < 1 then Some ''cycle_interval need to be at least 1''
        else (case r_CycleStart u of None \<Rightarrow> Some ''cycle_start is not set''
              | Some s \<Rightarrow> if s > now then Some ''cycle_start is a future value'' else None)) rules))"

end
