(* ===== verification/Alert_Properties.thy ===== *)
theory Alert_Properties
  imports Alert_Sentinel
begin

text \<open>
  What the alerts guarantee: the decision of \<open>Check\<close> against a reference definition, the order of incidents and
  recoveries, and the cases in which a condition measures something else than its name says or is never evaluated.
\<close>

subsection \<open>The reference decision\<close>

definition recent :: "nat \<Rightarrow> bool list list \<Rightarrow> bool list list" where
  "recent d pts = drop (length pts - d) pts"

definition fails_at :: "nat \<Rightarrow> bool list list \<Rightarrow> nat" where
  "fails_at i pts = length (filter (\<lambda>p. \<not> p ! i) pts)"

text \<open>
  When a condition counts as passed on its own: a cycle condition when the last sample passed, an offline
  condition when some of the last \<open>d\<close> samples passed or there are fewer, any other when there are fewer than \<open>d\<close>
  samples or less than 71 percent of the last \<open>d\<close> failed.
\<close>

definition rule_passes :: "bool list list \<Rightarrow> nat \<Rightarrow> rule \<Rightarrow> bool" where
  "rule_passes pts i u \<longleftrightarrow>
     (let d = unat (r_Duration u)
      in if IsTransferDurationRule u then pts \<noteq> [] \<and> last pts ! i
         else if IsOfflineRule u then length pts < d \<or> (\<exists>p\<in>set (recent d pts). p ! i)
         else length pts < d \<or> 100 * fails_at i (recent d pts) < 71 * d)"

text \<open>A condition the validation admits, with a duration below \<open>2 ^ 31\<close>.\<close>

definition rule_valid :: "rule \<Rightarrow> bool" where
  "rule_valid u \<longleftrightarrow> (\<not> IsTransferDurationRule u \<longrightarrow> 3 \<le> unat (r_Duration u) \<and> unat (r_Duration u) < 2 ^ 31)"

definition points_ok :: "nat \<Rightarrow> bool list list \<Rightarrow> bool" where
  "points_ok k pts \<longleftrightarrow> (\<forall>p\<in>set pts. length p = k) \<and> length pts < 2 ^ 62"

lemma offline_scan_spec:
  "\<forall>p\<in>set ps. i < length p \<Longrightarrow> \<exists>n. offline_scan i ps = Ret (n, \<exists>p\<in>set ps. p ! i) \<and> n \<le> length ps"
proof (induction ps)
  case (Cons p ps)
  then obtain n where "offline_scan i ps = Ret (n, \<exists>p\<in>set ps. p ! i)" "n \<le> length ps" by auto
  with Cons.prems show ?case by (auto simp: point_at_def)
qed simp

lemma count_fails_spec: "\<forall>p\<in>set ps. i < length p \<Longrightarrow> count_fails i ps = Ret (fails_at i ps)"
  by (induction ps) (auto simp: point_at_def fails_at_def)

lemma tick_of:
  assumes "unat d \<le> n" and "n < 2 ^ 62"
  shows "sint (of_nat n - d :: uint64) = int (n - unat d)"
proof -
  have "of_nat n - d = of_nat (n - unat d)" using assms(1) by (simp add: of_nat_diff)
  moreover have "unat (of_nat (n - unat d) :: uint64) = n - unat d"
    using assms(2) by (intro unat_of_nat_uint64) simp
  ultimately show ?thesis using assms(2) by (simp add: sint_small)
qed

lemma threshold: "0 < d \<Longrightarrow> go_div (int f * 100) (int d) \<le> 70 \<longleftrightarrow> 100 * f < 71 * d"
proof -
  assume "0 < d"
  then have "go_div (int f * 100) (int d) = int (f * 100 div d)"
    by (simp add: go_div_nonneg zdiv_int)
  moreover have "f * 100 div d \<le> 70 \<longleftrightarrow> f * 100 div d < 71" by linarith
  moreover have "f * 100 div d < 71 \<longleftrightarrow> f * 100 < 71 * d" using \<open>0 < d\<close> by (simp add: div_less_iff_less_mult)
  ultimately show ?thesis by (simp add: mult.commute)
qed

lemma check_rule_regular:
  assumes "rule_valid u" and "points_ok k pts" and "i < k"
    and "\<not> IsTransferDurationRule u" and "\<not> IsOfflineRule u"
  shows "check_rule pts i u passed =
    Ret (if passed \<or> length pts < unat (r_Duration u) then 0 else int (unat (r_Duration u)), passed \<or> rule_passes pts i u)"
proof -
  let ?d = "unat (r_Duration u)"
  have len: "length pts < 2 ^ 62" and rec: "\<forall>p\<in>set (recent ?d pts). i < length p"
    using assms(2,3) by (auto simp: points_ok_def recent_def dest: in_set_dropD)
  have sd: "sint (r_Duration u) = int ?d" and pos: "0 < ?d"
    using assms(1,4) by (simp_all add: rule_valid_def sint_small del: of_nat_unat)
  show ?thesis
  proof (cases "passed \<or> length pts < ?d")
    case True
    then show ?thesis using assms(4,5) sd
      by (auto simp: check_rule_def Let_def rule_passes_def boundCheck_def simp del: of_nat_unat)
  next
    case False
    then have t: "sint (of_nat (length pts) - r_Duration u) = int (length pts - ?d)"
      using len by (intro tick_of) simp_all
    have "count_fails i (drop (length pts - ?d) pts) = Ret (fails_at i (recent ?d pts))"
      using count_fails_spec [OF rec] by (simp add: recent_def)
    then show ?thesis using False assms(4,5) sd pos threshold [OF pos, of "fails_at i (recent ?d pts)"]
      by (simp add: check_rule_def Let_def rule_passes_def boundCheck_def t del: of_nat_unat of_nat_diff)
  qed
qed

lemma check_rule_spec:
  assumes "rule_valid u" and "points_ok k pts" and "i < k"
  shows "\<exists>d. check_rule pts i u passed = Ret (d, passed \<or> rule_passes pts i u) \<and> 0 \<le> d"
proof -
  let ?d = "unat (r_Duration u)"
  have len: "length pts < 2 ^ 62" and wf: "\<forall>p\<in>set pts. i < length p"
    using assms by (auto simp: points_ok_def)
  have sd: "sint (r_Duration u) = int ?d" if "\<not> IsTransferDurationRule u"
    using that assms(1) by (intro sint_small) (simp add: rule_valid_def)
  have rec: "\<forall>p\<in>set (recent ?d pts). i < length p"
    using wf by (auto simp: recent_def dest: in_set_dropD)
  consider (cycle) "IsTransferDurationRule u" | (off) "\<not> IsTransferDurationRule u" "IsOfflineRule u"
    | (reg) "\<not> IsTransferDurationRule u" "\<not> IsOfflineRule u" by blast
  then show ?thesis
  proof cases
    case cycle
    then show ?thesis using wf by (auto simp: check_rule_def Let_def rule_passes_def point_at_def)
  next
    case off
    show ?thesis
    proof (cases "passed \<or> length pts < ?d")
      case True
      then show ?thesis using off sd
        by (auto simp: check_rule_def Let_def rule_passes_def boundCheck_def simp del: of_nat_unat)
    next
      case False
      then have t: "sint (of_nat (length pts) - r_Duration u) = int (length pts - ?d)"
        using len by (intro tick_of) simp_all
      obtain n where "offline_scan i (rev (recent ?d pts)) = Ret (n, \<exists>p\<in>set (recent ?d pts). p ! i)"
        using offline_scan_spec [of "rev (recent ?d pts)" i] rec by auto
      moreover have "go_slice pts (int (length pts - ?d)) (int (length pts)) = Ret (recent ?d pts)"
        by (simp add: go_slice_def recent_def)
      ultimately show ?thesis using False off sd
        by (auto simp: check_rule_def Let_def rule_passes_def boundCheck_def t simp del: of_nat_unat of_nat_diff)
    qed
  next
    case reg
    then show ?thesis using check_rule_regular [OF assms, of passed] by auto
  qed
qed

lemma check_rules_spec:
  assumes "points_ok k pts" and "i + length us \<le> k" and "\<forall>u\<in>set us. rule_valid u"
  shows "\<exists>ds. check_rules pts i us passed = Ret (ds, passed \<or> (\<exists>j<length us. rule_passes pts (i + j) (us ! j)))
    \<and> length ds = length us \<and> (\<forall>d\<in>set ds. 0 \<le> d)"
  using assms(2,3)
proof (induction us arbitrary: i passed)
  case (Cons u us)
  obtain d where d: "check_rule pts i u passed = Ret (d, passed \<or> rule_passes pts i u)" "0 \<le> d"
    using check_rule_spec [OF _ assms(1), of u i passed] Cons.prems by auto
  obtain ds where ds: "check_rules pts (Suc i) us (passed \<or> rule_passes pts i u) =
      Ret (ds, (passed \<or> rule_passes pts i u) \<or> (\<exists>j<length us. rule_passes pts (Suc i + j) (us ! j)))"
    "length ds = length us" "\<forall>d\<in>set ds. 0 \<le> d"
    using Cons.IH [of "Suc i" "passed \<or> rule_passes pts i u"] Cons.prems by auto
  have "(\<exists>j<length (u # us). rule_passes pts (i + j) ((u # us) ! j)) \<longleftrightarrow>
      rule_passes pts i u \<or> (\<exists>j<length us. rule_passes pts (Suc i + j) (us ! j))"
    by (simp add: Ex_less_Suc2)
  with d ds show ?case by auto
qed simp

lemma slices_Max_ge: "xs \<noteq> [] \<Longrightarrow> \<exists>m. slices_Max xs = Ret m \<and> (\<forall>x\<in>set xs. x \<le> m) \<and> m \<in> set xs"
proof -
  assume "xs \<noteq> []"
  then obtain x xs' where "xs = x # xs'" by (cases xs) auto
  moreover have "fold max xs' x = Max (set (x # xs'))" using Max.set_eq_fold [of x xs'] by simp
  ultimately show ?thesis by (auto simp: slices_Max_def intro: Max_ge Max_in simp del: list.set)
qed

subsection \<open>Properties\<close>



subsection \<open>An alert that can never fire\<close>

lemma Rule_Snapshot_regular:
  "\<not> IsTransferDurationRule u \<Longrightarrow> Rule_Snapshot sum_since nan now sv (u, c) = Ret (b, u', c') \<Longrightarrow> u' = u \<and> c' = c"
  by (auto simp: Rule_Snapshot_def Let_def go_bind_Ret_iff split: if_splits)

lemma rules_snapshot_regular:
  "\<forall>u\<in>set us. \<not> IsTransferDurationRule u \<Longrightarrow> rules_snapshot sum_since nan now sv us c = Ret (bs, us', c')
    \<Longrightarrow> us' = us \<and> c' = c \<and> length bs = length us"
  by (induction us arbitrary: c bs us' c') (auto simp: go_bind_Ret_iff dest!: Rule_Snapshot_regular)

lemma Alert_Snapshot_regular:
  "\<forall>u\<in>set (ar_Rules a). \<not> IsTransferDurationRule u \<Longrightarrow> Alert_Snapshot sum_since nan now sv a c = Ret (bs, a', c')
    \<Longrightarrow> a' = a \<and> c' = c \<and> length bs = length (ar_Rules a)"
  by (auto simp: Alert_Snapshot_def go_bind_Ret_iff dest: rules_snapshot_regular)

text \<open>Two conditions over samples, the first of a duration shorter by more than one.\<close>

definition starved :: "rule \<Rightarrow> rule \<Rightarrow> bool" where
  "starved u1 u2 \<longleftrightarrow> rule_valid u1 \<and> rule_valid u2
     \<and> \<not> IsTransferDurationRule u1 \<and> \<not> IsOfflineRule u1 \<and> \<not> IsTransferDurationRule u2 \<and> \<not> IsOfflineRule u2
     \<and> unat (r_Duration u1) + 1 < unat (r_Duration u2)"

lemma starved_check:
  assumes "starved u1 u2" and "\<forall>p\<in>set h. length p = 2" and "length h \<le> unat (r_Duration u1) + 1"
  shows "Check [u1, u2] h = Ret (if length h < unat (r_Duration u1) then 0 else int (unat (r_Duration u1)), True)"
proof -
  have "unat (r_Duration u1) < 2 ^ 31" using assms(1) by (simp add: starved_def rule_valid_def)
  then have ok: "points_ok 2 h" using assms(2,3) by (simp add: points_ok_def)
  note r1 = check_rule_regular [OF _ ok, of u1 0 False] and r2 = check_rule_regular [OF _ ok, of u2 1]
  have "rule_passes h 1 u2" using assms by (simp add: rule_passes_def starved_def)
  then show ?thesis
    using r1 r2 assms(1,3)
    by (simp add: Check_def starved_def slices_Max_def del: of_nat_unat)
qed

definition starved_inv :: "rule \<Rightarrow> rule \<Rightarrow> alert_rule \<times> alert_state \<times> alert_event list \<Rightarrow> bool" where
  "starved_inv u1 u2 acc \<longleftrightarrow> (case acc of (a, st, evs) \<Rightarrow>
     ar_Rules a = [u1, u2] \<and> evs = []
     \<and> (\<forall>sid. length (get_or [] (get_or [] (as_Store st) (ar_ID a)) sid) \<le> unat (r_Duration u1)
         \<and> (\<forall>p\<in>set (get_or [] (get_or [] (as_Store st) (ar_ID a)) sid). length p = 2)
         \<and> get_or 0 (get_or [] (as_PrevState st) (ar_ID a)) sid \<noteq> RuleCheckFail))"

lemma inner_put_get_or:
  "inner_put g k v m = Ret m' \<Longrightarrow> get_or [] m' g = AList.update k v (get_or [] m g)"
  by (auto simp: inner_put_def get_or_def map_of_update split: option.splits)

lemma starved_inv_step:
  assumes "starved u1 u2" and "starved_inv u1 u2 acc"
    and "check_server sum_since nan now tr ipd roles acc sv = Ret acc'"
  shows "starved_inv u1 u2 acc'"
proof -
  obtain a st evs where acc: "acc = (a, st, evs)" by (cases acc)
  have inv: "ar_Rules a = [u1, u2]" "evs = []" using assms(2) by (simp_all add: starved_inv_def acc)
  show ?thesis
  proof (cases "may_watch roles a sv")
    case False
    then show ?thesis using assms(2,3) by (simp add: check_server_def acc)
  next
    case True
    let ?h = "get_or [] (get_or [] (as_Store st) (ar_ID a)) (sv_ID sv)"
    from assms(3) True obtain pts a' c mx passed prev' store' where
      s: "Alert_Snapshot (sum_since (sv_ID sv)) nan now sv a (map_of (as_CycleStats st) (ar_ID a)) = Ret (pts, a', c)"
      and ch: "Check (ar_Rules a') (?h @ [pts]) = Ret (mx, passed)"
      and pu: "inner_put (ar_ID a) (sv_ID sv) (fst (alert_react tr ipd a' sv (get_or 0 (get_or [] (as_PrevState st) (ar_ID a)) (sv_ID sv)) passed))
          (as_PrevState st) = Ret prev'"
      and su: "inner_put (ar_ID a) (sv_ID sv) (trim_history mx (?h @ [pts])) (as_Store st) = Ret store'"
      and acc': "acc' = (a', st\<lparr>as_Store := store', as_PrevState := prev',
          as_CycleStats := (case c of None \<Rightarrow> as_CycleStats st | Some c' \<Rightarrow> AList.update (ar_ID a) c' (as_CycleStats st))\<rparr>,
          evs @ snd (alert_react tr ipd a' sv (get_or 0 (get_or [] (as_PrevState st) (ar_ID a)) (sv_ID sv)) passed))"
      by (auto simp: check_server_def acc Let_def go_bind_Ret_iff)
    have nc: "\<forall>u\<in>set (ar_Rules a). \<not> IsTransferDurationRule u" using assms(1) inv by (simp add: starved_def)
    from Alert_Snapshot_regular [OF nc s] inv(1) have a': "a' = a" and lp: "length pts = 2" by simp_all
    have h: "length ?h \<le> unat (r_Duration u1)" "\<forall>p\<in>set ?h. length p = 2"
      and pr: "get_or 0 (get_or [] (as_PrevState st) (ar_ID a)) (sv_ID sv) \<noteq> RuleCheckFail"
      using assms(2) by (simp_all add: starved_inv_def acc)
    have "Check [u1, u2] (?h @ [pts]) = Ret (if length (?h @ [pts]) < unat (r_Duration u1) then 0 else int (unat (r_Duration u1)), True)"
      by (rule starved_check [OF assms(1)]) (use h lp in auto)
    with ch a' inv have passed: "passed" and mx: "mx = (if length (?h @ [pts]) < unat (r_Duration u1) then 0 else int (unat (r_Duration u1)))"
      by (simp_all del: of_nat_unat)
    have re: "alert_react tr ipd a' sv (get_or 0 (get_or [] (as_PrevState st) (ar_ID a)) (sv_ID sv)) passed = (RuleCheckPass, [])"
      using passed pr by (simp add: alert_react_def)
    have tl: "length (trim_history mx (?h @ [pts])) \<le> unat (r_Duration u1)"
    proof -
      have "0 < unat (r_Duration u1)" using assms(1) by (auto simp: starved_def rule_valid_def)
      then show ?thesis using h(1) unfolding mx trim_history_def by (auto simp del: of_nat_unat)
    qed
    have tw: "\<forall>p\<in>set (trim_history mx (?h @ [pts])). length p = 2"
      using h(2) lp unfolding trim_history_def by (auto dest: in_set_dropD)
    have pu': "inner_put (ar_ID a) (sv_ID sv) RuleCheckPass (as_PrevState st) = Ret prev'" using pu re by simp
    show ?thesis using assms(2) inv a' re tl tw
      by (simp add: acc' starved_inv_def acc inner_put_get_or [OF pu'] inner_put_get_or [OF su] get_or_update)
        (simp add: rule_checks)
  qed
qed

text \<open>an alert of two sampled conditions whose second one needs over one sample more than the first never fires:
  started on an empty history, whatever samples of whatever servers are taken at whatever times, no event is produced
  and no state becomes failed, because the history is cut to the first duration after every check.\<close>

lemma two_condition_alert_never_fires:
  assumes "starved u1 u2" and "ar_Rules a = [u1, u2]"
    and "get_or [] (as_Store st) (ar_ID a) = []" and "get_or [] (as_PrevState st) (ar_ID a) = []"
    and "go_foldM (\<lambda>acc (sum_since, now, roles, sv). check_server sum_since nan now tr ipd roles acc sv) (a, st, []) steps
      = Ret (a', st', evs)"
  shows "evs = [] \<and> (\<forall>sid. get_or 0 (get_or [] (as_PrevState st') (ar_ID a')) sid \<noteq> RuleCheckFail)"
proof -
  have "starved_inv u1 u2 (a, st, [])" using assms(2-4) by (simp add: starved_inv_def get_or_def rule_checks)
  then have "starved_inv u1 u2 (a', st', evs)"
    by (rule go_foldM_invariant [OF assms(5)]) (auto intro: starved_inv_step [OF assms(1)])
  then show ?thesis by (simp add: starved_inv_def)
qed

definition demo_rule :: "string \<Rightarrow> uint64 \<Rightarrow> rule" where
  "demo_rule ty d = \<lparr>r_Type = ty, r_Min = 0, r_Max = 1, r_CycleStart = None, r_Zone = 0, r_CycleInterval = 0,
     r_CycleUnit = [], r_Duration = d, r_Cover = 0, r_Ignore = [], r_NextTransferAt = [], r_LastCycleStatus = []\<rparr>"

definition demo_alert :: alert_rule where
  "demo_alert = \<lparr>ar_ID = 7, ar_UserID = 1, ar_Name = ''a'', ar_Enable = Some True, ar_TriggerMode = 0,
     ar_NotificationGroupID = 1, ar_Rules = [demo_rule ''cpu'' 3, demo_rule ''load1'' 5],
     ar_FailTriggerTasks = [], ar_RecoverTriggerTasks = []\<rparr>"

definition hot_server :: server where
  "hot_server = (init_server 4 1 ''s'' ''u'')\<lparr>sv_State := zero_state\<lparr>hs_CPU := 99, hs_Load1 := 99\<rparr>\<rparr>"

definition demo_alert_state :: alert_state where
  "demo_alert_state = \<lparr>as_Alerts = [demo_alert], as_Store = [(7, [])], as_PrevState = [(7, [])], as_CycleStats = []\<rparr>"

lemma demo_starved: "starved (demo_rule ''cpu'' 3) (demo_rule ''load1'' 5)"
  by (simp add: starved_def rule_valid_def demo_rule_def IsTransferDurationRule_def IsOfflineRule_def HasSuffix_def)

text \<open>The witness: one sample of a server that violates both conditions.\<close>

lemma two_condition_alert_never_fires_witness:
  "\<exists>a' st'. go_foldM (\<lambda>acc (sum_since, now, roles, sv). check_server sum_since 0 now (\<lambda>s. s) (\<lambda>s. []) roles acc sv)
      (demo_alert, demo_alert_state, []) [((\<lambda>_ _ _. 0), 10, [], hot_server)] = Ret (a', st', [])
    \<and> get_or [] (as_Store st') 7 = [(4, [[False, False]])]"
proof -
  let ?f = "\<lambda>acc (sum_since, now, roles, sv). check_server sum_since 0 now (\<lambda>s. s) (\<lambda>s. []) roles acc sv"
  let ?steps = "[((\<lambda>_ _ _. 0), 10, [], hot_server)]"
  have snap: "Alert_Snapshot (\<lambda>_ _. 0) 0 10 hot_server demo_alert None = Ret ([False, False], demo_alert, None)"
    by (simp add: Alert_Snapshot_def demo_alert_def demo_rule_def Rule_Snapshot_def RuleCoverAll_def RuleCoverIgnoreAll_def
      IsTransferDurationRule_def HasSuffix_def rule_src_def hot_server_def init_server_def zero_state_def get_or_def
      out_of_bounds_def Let_def)
  have chk: "Check (ar_Rules demo_alert) [[False, False]] = Ret (0, True)"
    using starved_check [OF demo_starved, of "[[False, False]]"] by (simp add: demo_alert_def) (simp add: demo_rule_def)
  have "\<exists>a' st' evs. go_foldM ?f (demo_alert, demo_alert_state, []) ?steps = Ret (a', st', evs)
      \<and> get_or [] (as_Store st') 7 = [(4, [[False, False]])]"
    using snap chk
    by (simp add: check_server_def may_watch_def Let_def demo_alert_state_def)
      (simp add: demo_alert_def hot_server_def init_server_def get_or_def inner_put_def trim_history_def)
  moreover have "evs = []" if "go_foldM ?f (demo_alert, demo_alert_state, []) ?steps = Ret (a', st', evs)" for a' st' evs
    using two_condition_alert_never_fires [OF demo_starved _ _ _ that]
    by (simp add: demo_alert_def demo_alert_state_def get_or_def)
  ultimately show ?thesis by blast
qed

subsection \<open>Incidents and recoveries\<close>

text \<open>The verdicts of successive checks of one pair, and the events they cause.\<close>

fun react_run :: "(string \<Rightarrow> string) \<Rightarrow> (server \<Rightarrow> string) \<Rightarrow> alert_rule \<Rightarrow> server \<Rightarrow> uint8 \<Rightarrow> bool list
    \<Rightarrow> uint8 \<times> alert_event list" where
  "react_run tr ipd a sv prev [] = (prev, [])"
| "react_run tr ipd a sv prev (v # vs) =
     (let r = alert_react tr ipd a sv prev v; q = react_run tr ipd a sv (fst r) vs in (fst q, snd r @ snd q))"

definition notifies :: "string \<Rightarrow> alert_event \<Rightarrow> bool" where
  "notifies lbl e = (case e of Notification g m l s \<Rightarrow> l = lbl | _ \<Rightarrow> False)"

lemma incident_labels_differ: "lbl_ServerIncident a s \<noteq> lbl_ServerIncidentResolved a' s'"
  by (simp add: lbl_ServerIncident_def lbl_ServerIncidentResolved_def)

lemma react_run_counts:
  assumes "ar_TriggerMode a \<noteq> ModeAlwaysTrigger"
  shows "length (filter (notifies (lbl_ServerIncident (sv_ID sv) (ar_ID a))) (snd (react_run tr ipd a sv p vs)))
        + (if p = RuleCheckFail then 1 else 0)
      = length (filter (notifies (lbl_ServerIncidentResolved (sv_ID sv) (ar_ID a))) (snd (react_run tr ipd a sv p vs)))
        + (if fst (react_run tr ipd a sv p vs) = RuleCheckFail then 1 else 0)"
proof (induction vs arbitrary: p)
  case (Cons v vs)
  show ?case
    using Cons.IH [of "fst (alert_react tr ipd a sv p v)"] assms
      incident_labels_differ [of "sv_ID sv" "ar_ID a"] incident_labels_differ [THEN not_sym, of _ _ "sv_ID sv" "ar_ID a"]
    by (auto simp: Let_def alert_react_def notifies_def rule_checks split: if_splits)
qed simp

lemma react_run_state:
  "vs \<noteq> [] \<Longrightarrow> fst (react_run tr ipd a sv p vs) = (if last vs then RuleCheckPass else RuleCheckFail)"
proof (induction vs arbitrary: p)
  case (Cons v vs)
  show ?case
  proof (cases "vs = []")
    case True
    then show ?thesis by (simp add: Let_def alert_react_def)
  next
    case False
    then show ?thesis using Cons.IH [OF False] by (simp add: Let_def)
  qed
qed simp

text \<open>in the one-time mode incidents and recoveries of a pair alternate: after any sequence of verdicts there is one
  incident more than there are recoveries when the last verdict failed, and as many otherwise.\<close>

lemma onetime_incidents_alternate:
  assumes "ar_TriggerMode a \<noteq> ModeAlwaysTrigger"
  shows "length (filter (notifies (lbl_ServerIncident (sv_ID sv) (ar_ID a))) (snd (react_run tr ipd a sv RuleCheckNoData vs)))
      = length (filter (notifies (lbl_ServerIncidentResolved (sv_ID sv) (ar_ID a))) (snd (react_run tr ipd a sv RuleCheckNoData vs)))
        + (if vs \<noteq> [] \<and> \<not> last vs then 1 else 0)"
proof -
  have "fst (react_run tr ipd a sv RuleCheckNoData vs) = RuleCheckFail \<longleftrightarrow> vs \<noteq> [] \<and> \<not> last vs"
    using react_run_state [of vs tr ipd a sv RuleCheckNoData] by (cases "vs = []") (auto simp: rule_checks)
  then show ?thesis using react_run_counts [OF assms, of sv tr ipd RuleCheckNoData vs] by (simp add: rule_checks)
qed

lemma onetime_incidents_alternate_witness:
  "length (filter (notifies (lbl_ServerIncident 4 7))
     (snd (react_run (\<lambda>s. s) (\<lambda>s. []) (demo_alert\<lparr>ar_TriggerMode := 1\<rparr>) hot_server RuleCheckNoData [False, False, True, False])))
   = length (filter (notifies (lbl_ServerIncidentResolved 4 7))
     (snd (react_run (\<lambda>s. s) (\<lambda>s. []) (demo_alert\<lparr>ar_TriggerMode := 1\<rparr>) hot_server RuleCheckNoData [False, False, True, False]))) + 1"
proof -
  have m: "ar_TriggerMode (demo_alert\<lparr>ar_TriggerMode := 1\<rparr>) \<noteq> ModeAlwaysTrigger" by (simp add: ModeAlwaysTrigger_def)
  have i: "sv_ID hot_server = 4" "ar_ID (demo_alert\<lparr>ar_TriggerMode := 1\<rparr>) = 7"
    by (simp_all add: demo_alert_def hot_server_def init_server_def)
  have l: "(if [False, False, True, False] \<noteq> [] \<and> \<not> last [False, False, True, False] then 1 else 0) = (1 :: nat)" by simp
  show ?thesis
    using onetime_incidents_alternate [OF m, of hot_server "\<lambda>s. s" "\<lambda>s. []" "[False, False, True, False]"] unfolding i l .
qed

text \<open>a condition on \<open>net_all_speed\<close> does not depend on the inbound speed of the server: it measures the outbound
  speed twice.\<close>

theorem net_all_speed_ignores_inbound:
  assumes "r_Type u = ''net_all_speed''"
  shows "Rule_Snapshot sum_since nan now (sv\<lparr>sv_State := (sv_State sv)\<lparr>hs_NetInSpeed := x\<rparr>\<rparr>) (u, c)
      = Rule_Snapshot sum_since nan now sv (u, c)
    \<and> rule_src sum_since now u sv = Ret (u2f (2 * hs_NetOutSpeed (sv_State sv)))"
  using assms by (simp add: Rule_Snapshot_def rule_src_def Let_def IsTransferDurationRule_def HasSuffix_def)

theorem net_all_speed_ignores_inbound_witness:
  "Rule_Snapshot (\<lambda>_ _. 0) 0 0 (hot_server\<lparr>sv_State := (sv_State hot_server)\<lparr>hs_NetInSpeed := 1000\<rparr>\<rparr>) (demo_rule ''net_all_speed'' 3, None)
     = Rule_Snapshot (\<lambda>_ _. 0) 0 0 hot_server (demo_rule ''net_all_speed'' 3, None)"
  by (rule net_all_speed_ignores_inbound [THEN conjunct1]) (simp add: demo_rule_def)

end
