(* ===== verification/Service_Sentinel.thy ===== *)
theory Service_Sentinel
  imports Server_Model Notify
begin

text \<open>
  The service sentinel (\<open>service/singleton/servicesentinel.go\<close>): the month of statistics it keeps per service, the
  statistics of the day, the window of recent results and the worker that digests the reports of the agents.

  A map to pointers is a map; a dereference of a missing entry is \<open>Panic\<close>. The arrays of 30 days are lists of length
  30. What the worker starts or writes is the list of events it returns. Arguments: the clock, whether the time-series
  database is in use, the running servers by number, the localiser \<open>tf\<close>, the number format \<open>ff\<close>, and the parser and
  printer of certificate dates. \<open>float32\<close> and \<open>float64\<close> are rationals, times are nanoseconds.
\<close>

definition CurrentStatusSize :: nat where "CurrentStatusSize = 30"

definition TaskTypeICMPPing :: uint64 where "TaskTypeICMPPing = 2"
definition TaskTypeTCPPing :: uint64 where "TaskTypeTCPPing = 3"

record service =
  sc_ID :: uint64
  sc_UserID :: uint64
  sc_Name :: string
  sc_Type :: uint8
  sc_Target :: string
  sc_Duration :: uint64
  sc_DisplayIndex :: int
  sc_Notify :: bool
  sc_NotificationGroupID :: uint64
  sc_Cover :: uint8
  sc_EnableTriggerTask :: bool
  sc_EnableShowInService :: bool
  sc_FailTriggerTasks :: "uint64 list"
  sc_RecoverTriggerTasks :: "uint64 list"
  sc_MinLatency :: float64
  sc_MaxLatency :: float64
  sc_LatencyNotify :: bool
  sc_SkipServers :: "(uint64, bool) gomap"
  sc_CronJobID :: int

text \<open>\<open>CronSpec\<close> sets a missing interval to 30 seconds.\<close>

definition CronSpec :: "service \<Rightarrow> string \<times> service" where
  "CronSpec m = (let m' = (if sc_Duration m = 0 then m\<lparr>sc_Duration := 30\<rparr> else m)
     in (''@every '' @ show_uint (sc_Duration m') @ ''s'', m'))"

record task_result =
  tr_Id :: uint64
  tr_Type :: uint64
  tr_Delay :: float64
  tr_Data :: string
  tr_Successful :: bool

record today_stats =
  td_Up :: uint64
  td_Down :: uint64
  td_Delay :: float64

record task_status =
  sk_lastStatus :: uint8
  sk_t :: "int option"
  sk_result :: "task_result list"

record ping_store =
  pg_count :: int
  pg_ping :: float64
  pg_successCount :: int

record response_item =
  ri_service :: service
  ri_ServiceName :: string
  ri_CurrentUp :: uint64
  ri_CurrentDown :: uint64
  ri_TotalUp :: uint64
  ri_TotalDown :: uint64
  ri_Delay :: "float64 list"
  ri_Up :: "uint64 list"
  ri_Down :: "uint64 list"

record sentinel =
  ss_today :: "(uint64, today_stats) gomap"
  ss_current :: "(uint64, task_status) gomap"
  ss_data :: "(uint64, today_stats) gomap"
  ss_ping :: "(uint64, (uint64, ping_store) gomap) gomap"
  ss_tls :: "(uint64, string) gomap"
  ss_services :: "(uint64, service) gomap"
  ss_list :: "service list"
  ss_monthly :: "(uint64, response_item) gomap"

definition no_today :: today_stats where "no_today = \<lparr>td_Up = 0, td_Down = 0, td_Delay = 0\<rparr>"
definition no_status :: task_status where "no_status = \<lparr>sk_lastStatus = 0, sk_t = None, sk_result = []\<rparr>"
definition no_ping :: ping_store where "no_ping = \<lparr>pg_count = 0, pg_ping = 0, pg_successCount = 0\<rparr>"

definition no_sentinel :: sentinel where
  "no_sentinel = \<lparr>ss_today = [], ss_current = [], ss_data = [], ss_ping = [], ss_tls = [], ss_services = [],
     ss_list = [], ss_monthly = []\<rparr>"

definition new_item :: "service \<Rightarrow> response_item" where
  "new_item m = \<lparr>ri_service = m, ri_ServiceName = [], ri_CurrentUp = 0, ri_CurrentDown = 0, ri_TotalUp = 0,
     ri_TotalDown = 0, ri_Delay = replicate 30 0, ri_Up = replicate 30 0, ri_Down = replicate 30 0\<rparr>"

text \<open>A read through a pointer in a map, and a write through it.\<close>

definition deref :: "('k, 'v) gomap \<Rightarrow> 'k \<Rightarrow> 'v go" where
  "deref m k = (case map_of m k of None \<Rightarrow> Panic | Some v \<Rightarrow> Ret v)"

lemma deref_Ret [simp]: "deref m k = Ret v \<longleftrightarrow> map_of m k = Some v"
  by (simp add: deref_def split: option.split)

lemma deref_Panic [simp]: "deref m k = Panic \<longleftrightarrow> map_of m k = None"
  by (simp add: deref_def split: option.split)

subsection \<open>The list of services\<close>

definition sortServices :: "service list \<Rightarrow> service list" where
  "sortServices xs = sort_key (\<lambda>s. (- sc_DisplayIndex s, sc_ID s)) xs"

definition UpdateServiceList :: "sentinel \<Rightarrow> sentinel" where
  "UpdateServiceList ss = ss\<lparr>ss_list := sortServices (MapValuesToSlice (ss_services ss))\<rparr>"

subsection \<open>The month of statistics\<close>

definition load_item :: "today_stats \<Rightarrow> service \<Rightarrow> response_item \<Rightarrow> response_item" where
  "load_item v s r = r\<lparr>ri_service := s,
     ri_TotalUp := ri_TotalUp r - ri_Up r ! 29 + td_Up v,
     ri_TotalDown := ri_TotalDown r - ri_Down r ! 29 + td_Down v,
     ri_Up := (ri_Up r)[29 := td_Up v], ri_Down := (ri_Down r)[29 := td_Down v],
     ri_Delay := (ri_Delay r)[29 := td_Delay v]\<rparr>"

definition LoadStats :: "sentinel \<Rightarrow> sentinel go" where
  "LoadStats ss =
     go_bind (go_foldM (\<lambda>m (k, s). go_bind (deref m k) (\<lambda>r. go_bind (deref (ss_today ss) k) (\<lambda>v.
         Ret (AList.update k (load_item v s r) m)))) (ss_monthly ss) (ss_services ss))
       (\<lambda>m1. go_bind (go_foldM (\<lambda>m (k, v). go_bind (deref m k) (\<lambda>r.
         Ret (AList.update k (r\<lparr>ri_CurrentDown := td_Down v, ri_CurrentUp := td_Up v\<rparr>) m))) m1 (ss_data ss))
       (\<lambda>m2. Ret (ss\<lparr>ss_monthly := m2\<rparr>)))"

text \<open>Moving an item forward by a day: the first day leaves the totals, the last one starts at zero.\<close>

definition shift_item :: "response_item \<Rightarrow> response_item" where
  "shift_item r = r\<lparr>ri_TotalDown := ri_TotalDown r - ri_Down r ! 0, ri_TotalUp := ri_TotalUp r - ri_Up r ! 0,
     ri_Up := tl (ri_Up r) @ [0], ri_Down := tl (ri_Down r) @ [0], ri_Delay := tl (ri_Delay r) @ [0]\<rparr>"

definition refreshMonthlyServiceStatus :: "sentinel \<Rightarrow> sentinel go" where
  "refreshMonthlyServiceStatus ss0 = go_bind (LoadStats ss0) (\<lambda>ss.
     go_foldM (\<lambda>s (k, r). go_bind (deref (ss_today s) k) (\<lambda>v.
       Ret (s\<lparr>ss_monthly := AList.update k (shift_item r) (ss_monthly s),
              ss_data := AList.update k no_today (ss_data s),
              ss_today := AList.update k (v\<lparr>td_Delay := 0, td_Up := 0, td_Down := 0\<rparr>) (ss_today s)\<rparr>)))
       ss (ss_monthly ss))"

definition CopyStats :: "sentinel \<Rightarrow> (sentinel \<times> (uint64, response_item) gomap) go" where
  "CopyStats ss0 = go_bind (LoadStats ss0) (\<lambda>ss.
     Ret (ss, map (\<lambda>(k, r). (k, r\<lparr>ri_ServiceName := sc_Name (ri_service r)\<rparr>))
       (filter (\<lambda>(k, r). sc_EnableShowInService (ri_service r)) (ss_monthly ss))))"

definition TotalUptime :: "response_item \<Rightarrow> float64" where
  "TotalUptime r = (if ri_TotalUp r + ri_TotalDown r = 0 then 0
     else of_nat (unat (ri_TotalUp r)) / of_nat (unat (ri_TotalUp r + ri_TotalDown r)) * 100)"

subsection \<open>Loading\<close>

record service_history =
  sh_ServiceID :: uint64
  sh_CreatedAt :: int
  sh_AvgDelay :: float64
  sh_Up :: uint64
  sh_Down :: uint64

record daily_stats =
  dl_Up :: uint64
  dl_Down :: uint64
  dl_Delay :: float64

text \<open>\<open>loadServiceHistory\<close> for one service, with the number cron gives its job.\<close>

definition load_service :: "service \<times> int \<Rightarrow> sentinel \<Rightarrow> sentinel" where
  "load_service e ss = (let m = (snd (CronSpec (fst e)))\<lparr>sc_CronJobID := snd e\<rparr>; k = sc_ID m
     in ss\<lparr>ss_services := AList.update k m (ss_services ss), ss_current := AList.update k no_status (ss_current ss),
           ss_today := AList.update k no_today (ss_today ss), ss_monthly := AList.update k (new_item m) (ss_monthly ss)\<rparr>)"

text \<open>The first 29 days of a service from the time-series database; a failed query is \<open>None\<close>.\<close>

definition load_tsdb_item :: "daily_stats list \<Rightarrow> response_item \<Rightarrow> response_item" where
  "load_tsdb_item ds r = fold (\<lambda>i r. let d = ds ! i in r\<lparr>ri_Up := (ri_Up r)[i := dl_Up d], ri_TotalUp := ri_TotalUp r + dl_Up d,
       ri_Down := (ri_Down r)[i := dl_Down d], ri_TotalDown := ri_TotalDown r + dl_Down d,
       ri_Delay := (ri_Delay r)[i := dl_Delay d]\<rparr>) [0..<29] r"

definition loadMonthlyStatusFromTSDB :: "(uint64 \<Rightarrow> daily_stats list option) \<Rightarrow> service list \<Rightarrow> sentinel \<Rightarrow> sentinel go" where
  "loadMonthlyStatusFromTSDB query services ss = go_foldM (\<lambda>s m. case query (sc_ID m) of None \<Rightarrow> Ret s
     | Some ds \<Rightarrow> go_bind (deref (ss_monthly s) (sc_ID m)) (\<lambda>r.
         Ret (s\<lparr>ss_monthly := AList.update (sc_ID m) (load_tsdb_item ds r) (ss_monthly s)\<rparr>))) ss services"

definition hour :: int where "hour = 3600000000000"

text \<open>\<open>int(d.Hours())\<close> truncates towards zero.\<close>

definition day_index :: "int \<Rightarrow> service_history \<Rightarrow> int" where
  "day_index today mh = 28 - go_div (go_div (today - sh_CreatedAt mh) hour) 24"

text \<open>A row counts once per day and service in the running average of the delay.\<close>

definition load_db_row :: "int \<Rightarrow> service_history
    \<Rightarrow> (uint64, response_item) gomap \<times> (uint64 \<times> int, nat) gomap \<Rightarrow> (uint64, response_item) gomap \<times> (uint64 \<times> int, nat) gomap" where
  "load_db_row today mh acc = (let (ms, cnt) = acc; i = day_index today mh; k = sh_ServiceID mh; n = get_or 0 cnt (k, i)
     in if i < 0 then acc
        else (case map_of ms k of None \<Rightarrow> acc
          | Some r \<Rightarrow> (AList.update k (r\<lparr>
               ri_Delay := (ri_Delay r)[nat i := (ri_Delay r ! nat i * of_nat n + sh_AvgDelay mh) / of_nat (n + 1)],
               ri_Up := (ri_Up r)[nat i := ri_Up r ! nat i + sh_Up mh], ri_TotalUp := ri_TotalUp r + sh_Up mh,
               ri_Down := (ri_Down r)[nat i := ri_Down r ! nat i + sh_Down mh], ri_TotalDown := ri_TotalDown r + sh_Down mh\<rparr>) ms,
             AList.update (k, i) (n + 1) cnt)))"

definition loadMonthlyStatusFromDB :: "int \<Rightarrow> service_history list \<Rightarrow> sentinel \<Rightarrow> sentinel" where
  "loadMonthlyStatusFromDB today mhs ss =
     ss\<lparr>ss_monthly := fst (fold (load_db_row today)
       (filter (\<lambda>mh. today - 29 * 24 * hour < sh_CreatedAt mh \<and> sh_CreatedAt mh < today) mhs) (ss_monthly ss, []))\<rparr>"

text \<open>
  \<open>loadTodayStats\<close>: with the time-series database over the per-server statistics (up, down, average delay) of the
  last day, without it over the rows of the day.
\<close>

definition load_today_tsdb1 :: "(uint64 \<Rightarrow> (uint64 \<times> uint64 \<times> float64) list option) \<Rightarrow> sentinel \<Rightarrow> uint64 \<times> response_item \<Rightarrow> sentinel go" where
  "load_today_tsdb1 query s e = (let k = fst e in case query k of None \<Rightarrow> Ret s
     | Some rs \<Rightarrow>
        (let up = sum_list (map fst rs); down = sum_list (map (fst \<circ> snd) rs);
             ds = filter (\<lambda>d. d > 0) (map (snd \<circ> snd) rs)
         in go_bind (deref (ss_today s) k) (\<lambda>t. go_bind (deref (ss_monthly s) k) (\<lambda>r.
            Ret (s\<lparr>ss_today := AList.update k (t\<lparr>td_Up := up, td_Down := down,
                     td_Delay := (if ds = [] then td_Delay t else sum_list ds / of_nat (length ds))\<rparr>) (ss_today s),
                   ss_monthly := AList.update k (r\<lparr>ri_TotalUp := ri_TotalUp r + up, ri_TotalDown := ri_TotalDown r + down\<rparr>)
                     (ss_monthly s)\<rparr>)))))"

definition loadTodayStatsTSDB :: "(uint64 \<Rightarrow> (uint64 \<times> uint64 \<times> float64) list option) \<Rightarrow> sentinel \<Rightarrow> sentinel go" where
  "loadTodayStatsTSDB query ss = go_foldM (load_today_tsdb1 query) ss (ss_monthly ss)"

definition loadTodayStatsDB :: "int \<Rightarrow> service_history list \<Rightarrow> sentinel \<Rightarrow> sentinel go" where
  "loadTodayStatsDB today mhs0 ss =
     (let mhs = filter (\<lambda>mh. today \<le> sh_CreatedAt mh) mhs0
      in go_bind (go_foldM (\<lambda>s mh. go_bind (deref (ss_today s) (sh_ServiceID mh)) (\<lambda>t. go_bind (deref (ss_monthly s) (sh_ServiceID mh)) (\<lambda>r.
           Ret (s\<lparr>ss_today := AList.update (sh_ServiceID mh) (t\<lparr>td_Up := td_Up t + sh_Up mh, td_Down := td_Down t + sh_Down mh\<rparr>) (ss_today s),
                  ss_monthly := AList.update (sh_ServiceID mh)
                    (r\<lparr>ri_TotalUp := ri_TotalUp r + sh_Up mh, ri_TotalDown := ri_TotalDown r + sh_Down mh\<rparr>) (ss_monthly s)\<rparr>)))) ss mhs)
         (\<lambda>s. Ret (s\<lparr>ss_today := map (\<lambda>(k, t). let ds = map sh_AvgDelay (filter (\<lambda>mh. sh_ServiceID mh = k) mhs)
             in (k, if ds = [] then t else t\<lparr>td_Delay := sum_list ds / of_nat (length ds)\<rparr>)) (ss_today s)\<rparr>)))"

subsection \<open>Adding, editing and deleting services\<close>

text \<open>
  \<open>Update\<close>: \<open>job\<close> is the outcome of \<open>AddFunc\<close>; the second component of the result is the cron job that is removed.
\<close>

definition Service_Update :: "string + int \<Rightarrow> service \<Rightarrow> sentinel \<Rightarrow> go_error \<times> int option \<times> sentinel" where
  "Service_Update job m0 ss = (case job of Inl err \<Rightarrow> (Some err, None, ss)
     | Inr j \<Rightarrow>
        (let m = (snd (CronSpec m0))\<lparr>sc_CronJobID := j\<rparr>; k = sc_ID m
         in (case map_of (ss_services ss) k of
               Some old \<Rightarrow> (None, Some (sc_CronJobID old), ss\<lparr>ss_services := AList.update k m (ss_services ss)\<rparr>)
             | None \<Rightarrow> (None, None, ss\<lparr>
                 ss_monthly := AList.update k (new_item m) (ss_monthly ss),
                 ss_current := AList.update k ((get_or no_status (ss_current ss) k)\<lparr>sk_result := []\<rparr>) (ss_current ss),
                 ss_today := AList.update k no_today (ss_today ss),
                 ss_services := AList.update k m (ss_services ss)\<rparr>))))"

text \<open>\<open>Delete\<close>: the cron jobs it removes, in order; an unknown number is a nil dereference.\<close>

definition delete_service :: "sentinel \<times> int list \<Rightarrow> uint64 \<Rightarrow> (sentinel \<times> int list) go" where
  "delete_service acc k = (let (ss, jobs) = acc;
       ss1 = ss\<lparr>ss_current := AList.delete k (ss_current ss), ss_data := AList.delete k (ss_data ss),
                ss_tls := AList.delete k (ss_tls ss), ss_today := AList.delete k (ss_today ss)\<rparr>
     in go_bind (deref (ss_services ss1) k) (\<lambda>s. Ret (ss1\<lparr>ss_services := AList.delete k (ss_services ss1),
          ss_monthly := AList.delete k (ss_monthly ss1)\<rparr>, jobs @ [sc_CronJobID s])))"

definition Service_Delete :: "uint64 list \<Rightarrow> sentinel \<Rightarrow> (sentinel \<times> int list) go" where
  "Service_Delete ids ss = go_foldM delete_service (ss, []) ids"

text \<open>\<open>CheckPermission\<close>: numbers that name no service are passed.\<close>

definition Service_CheckPermission :: "user option \<Rightarrow> uint64 list \<Rightarrow> sentinel \<Rightarrow> bool" where
  "Service_CheckPermission auth ids ss \<longleftrightarrow>
     (\<forall>k \<in> set ids. case map_of (ss_services ss) k of None \<Rightarrow> True | Some s \<Rightarrow> HasPermission auth (sc_UserID s))"

end
