(* ===== verification/Service_Worker.thy ===== *)
theory Service_Worker
  imports Service_Sentinel
begin

text \<open>
  The worker of the service sentinel (\<open>worker\<close>, \<open>delayCheck\<close> and \<open>notifyCheck\<close> of
  \<open>service/singleton/servicesentinel.go\<close>): what one report of an agent changes, and what it writes and sends.

  \<open>check_report\<close>, \<open>ping_step\<close>, \<open>digest_report\<close> and \<open>tls_step\<close> are the parts of the loop body in their order; the lock
  of the tables is taken only for \<open>digest_report\<close>. \<open>worker_report\<close> is the body run without interruption. The environment
  holds the clock, the configuration, the servers and the functions of the localiser, of the number format and of the
  parser and printer of certificate dates. Texts of the source outside ASCII are their bytes in UTF-8.
\<close>

definition StatusNoData :: uint8 where "StatusNoData = 1"
definition StatusGood :: uint8 where "StatusGood = 2"
definition StatusLowAvailability :: uint8 where "StatusLowAvailability = 3"
definition StatusDown :: uint8 where "StatusDown = 4"

definition GetStatusCode :: "uint64 \<Rightarrow> uint8" where
  "GetStatusCode p = (if p = 0 then StatusNoData else if p > 95 then StatusGood
     else if p > 80 then StatusLowAvailability else StatusDown)"

record worker_env =
  we_now :: int
  we_tsdb :: bool
  we_AvgPingCount :: int
  we_servers :: "(uint64, server) gomap"
  we_T :: "string \<Rightarrow> string"
  we_Tf :: "string \<Rightarrow> string list \<Rightarrow> string"
  we_ff :: "float64 \<Rightarrow> string"
  we_parse :: "string \<Rightarrow> int"
  we_show :: "int \<Rightarrow> string"

definition StatusCodeToString :: "(string \<Rightarrow> string) \<Rightarrow> uint8 \<Rightarrow> string" where
  "StatusCodeToString tr c = (if c = StatusNoData then tr ''No Data'' else if c = StatusGood then tr ''Good''
     else if c = StatusLowAvailability then tr ''Low Availability'' else if c = StatusDown then tr ''Down'' else [])"

text \<open>
  What the worker writes and starts: a point of the time-series database (service, server, delay, success), a row of the
  history (service, server, mean delay, data, up, down), a notification (group, text, label), the end of a mute, and
  trigger tasks for a server.
\<close>

datatype worker_event =
    WriteMetric uint64 uint64 float64 bool
  | WriteHistory uint64 uint64 float64 string uint64 uint64
  | SendEv uint64 string string
  | UnMuteEv uint64 string
  | TriggerEv "uint64 list" uint64

definition check_report :: "sentinel \<Rightarrow> task_result \<Rightarrow> bool" where
  "check_report ss mh \<longleftrightarrow> (case map_of (ss_services ss) (tr_Id mh) of None \<Rightarrow> False | Some s \<Rightarrow> sc_ID s \<noteq> 0)"

subsection \<open>Averaging pings\<close>

definition is_ping :: "task_result \<Rightarrow> bool" where
  "is_ping mh \<longleftrightarrow> tr_Type mh = TaskTypeTCPPing \<or> tr_Type mh = TaskTypeICMPPing"

definition ping_add :: "task_result \<Rightarrow> ping_store \<Rightarrow> ping_store" where
  "ping_add mh ts = (let n = pg_count ts + 1 in
     \<lparr>pg_count = n, pg_ping = (pg_ping ts * of_int (n - 1) + tr_Delay mh) / of_int n,
      pg_successCount = (if tr_Successful mh then pg_successCount ts + 1 else pg_successCount ts)\<rparr>)"

definition ping_step :: "worker_env \<Rightarrow> uint64 \<Rightarrow> task_result \<Rightarrow> sentinel \<Rightarrow> sentinel \<times> worker_event list" where
  "ping_step w rep mh ss =
     (if is_ping mh then
        let k = tr_Id mh; ts = ping_add mh (get_or no_ping (get_or [] (ss_ping ss) k) rep);
            full = (pg_count ts = we_AvgPingCount w)
        in (ss\<lparr>ss_ping := AList.update k (AList.update rep (if full then no_ping else ts) (get_or [] (ss_ping ss) k)) (ss_ping ss)\<rparr>,
            if \<not> full then []
            else if we_tsdb w then [WriteMetric k rep (pg_ping ts) (pg_successCount ts * 2 \<ge> pg_count ts)]
            else [WriteHistory k rep (pg_ping ts) (tr_Data mh) 0 0])
      else (ss, if we_tsdb w then [WriteMetric (tr_Id mh) rep (tr_Delay mh) (tr_Successful mh)] else []))"

subsection \<open>The tables\<close>

definition today_add :: "task_result \<Rightarrow> today_stats \<Rightarrow> today_stats" where
  "today_add mh v = (if tr_Successful mh
     then v\<lparr>td_Delay := (td_Delay v * of_nat (unat (td_Up v)) + tr_Delay mh) / of_nat (unat (td_Up v + 1)), td_Up := td_Up v + 1\<rparr>
     else v\<lparr>td_Down := td_Down v + 1\<rparr>)"

text \<open>A result enters the window when the last one is older than 30 seconds; the first one only sets the clock.\<close>

definition window_add :: "int \<Rightarrow> task_result \<Rightarrow> task_status \<Rightarrow> task_status" where
  "window_add now mh st = (let t = (case sk_t st of None \<Rightarrow> now | Some t \<Rightarrow> t) in
     if t < now then st\<lparr>sk_t := Some (now + 30 * 1000000000), sk_result := sk_result st @ [mh]\<rparr> else st\<lparr>sk_t := Some t\<rparr>)"

definition count_result :: "task_result \<Rightarrow> today_stats \<Rightarrow> today_stats" where
  "count_result cs rd = (if tr_Id cs > 0
     then if tr_Successful cs
       then rd\<lparr>td_Up := td_Up rd + 1,
            td_Delay := (td_Delay rd * of_nat (unat (td_Up rd)) + tr_Delay cs) / of_nat (unat (td_Up rd + 1))\<rparr>
       else rd\<lparr>td_Down := td_Down rd + 1\<rparr>
     else rd)"

definition up_percent :: "today_stats \<Rightarrow> uint64" where
  "up_percent rd = (if td_Down rd + td_Up rd > 0 then td_Up rd * 100 div (td_Down rd + td_Up rd) else 0)"

text \<open>The tables of service \<open>k\<close> after a report, the new status code, and the row written for a full window.\<close>

definition update_tables :: "worker_env \<Rightarrow> task_result \<Rightarrow> sentinel \<Rightarrow> (sentinel \<times> uint8 \<times> worker_event list) go" where
  "update_tables w mh ss =
     (let k = tr_Id mh in
      go_bind (deref (ss_today ss) k) (\<lambda>v. go_bind (deref (ss_current ss) k) (\<lambda>st0.
        let st1 = window_add (we_now w) mh st0;
            rd = fold count_result (sk_result st1) no_today;
            full = (length (sk_result st1) = CurrentStatusSize);
            st2 = (if full then st1\<lparr>sk_t := Some (we_now w), sk_result := []\<rparr> else st1)
        in Ret (ss\<lparr>ss_today := AList.update k (today_add mh v) (ss_today ss), ss_current := AList.update k st2 (ss_current ss),
                   ss_data := AList.update k rd (ss_data ss)\<rparr>,
                GetStatusCode (up_percent rd),
                if full \<and> \<not> we_tsdb w then [WriteHistory k 0 (td_Delay rd) (tr_Data mh) (td_Up rd) (td_Down rd)] else []))))"

subsection \<open>Notifications of a report\<close>

definition delayCheck :: "worker_env \<Rightarrow> uint64 \<Rightarrow> service \<Rightarrow> task_result \<Rightarrow> worker_event list go" where
  "delayCheck w rep cs mh =
     (let gid = sc_NotificationGroupID cs; minMuteLabel = lbl_ServiceLatencyMin (tr_Id mh); maxMuteLabel = lbl_ServiceLatencyMax (tr_Id mh)
      in if \<not> sc_LatencyNotify cs then Ret []
         else if tr_Delay mh > sc_MaxLatency cs then go_bind (deref (we_servers w) rep) (\<lambda>s.
           Ret [SendEv gid (we_Tf w ''[Latency] %s %2f > %2f, Reporter: %s''
              [sc_Name cs, we_ff w (tr_Delay mh), we_ff w (sc_MaxLatency cs), sv_Name s]) minMuteLabel])
         else if tr_Delay mh < sc_MinLatency cs then go_bind (deref (we_servers w) rep) (\<lambda>s.
           Ret [SendEv gid (we_Tf w ''[Latency] %s %2f < %2f, Reporter: %s''
              [sc_Name cs, we_ff w (tr_Delay mh), we_ff w (sc_MinLatency cs), sv_Name s]) maxMuteLabel])
         else Ret [UnMuteEv gid minMuteLabel, UnMuteEv gid maxMuteLabel])"

definition state_events :: "worker_env \<Rightarrow> service \<Rightarrow> task_result \<Rightarrow> uint8 \<Rightarrow> uint8 \<Rightarrow> server \<Rightarrow> worker_event list" where
  "state_events w cs mh lastStatus stateCode s =
     (let gid = sc_NotificationGroupID cs; muteLabel = lbl_ServiceStateChanged (tr_Id mh)
      in (if stateCode \<noteq> lastStatus then [UnMuteEv gid muteLabel] else []) @
         [SendEv gid (we_Tf w ''[%s] %s Reporter: %s, Error: %s''
            [StatusCodeToString (we_T w) stateCode, sc_Name cs, sv_Name s, tr_Data mh]) muteLabel])"

definition trigger_events :: "service \<Rightarrow> uint8 \<Rightarrow> uint8 \<Rightarrow> server \<Rightarrow> worker_event list" where
  "trigger_events cs lastStatus stateCode s =
     (if stateCode = StatusGood \<and> lastStatus \<noteq> stateCode then [TriggerEv (sc_RecoverTriggerTasks cs) (sv_ID s)]
      else if lastStatus = StatusGood \<and> lastStatus \<noteq> stateCode then [TriggerEv (sc_FailTriggerTasks cs) (sv_ID s)]
      else [])"

text \<open>A missing server panics where a field of it is read.\<close>

definition notifyCheck :: "worker_env \<Rightarrow> uint64 \<Rightarrow> service \<Rightarrow> task_result \<Rightarrow> uint8 \<Rightarrow> uint8 \<Rightarrow> worker_event list go" where
  "notifyCheck w rep cs mh lastStatus stateCode =
     (let send = (sc_Notify cs \<and> (lastStatus \<noteq> 0 \<or> stateCode = StatusDown));
          trigger = (sc_EnableTriggerTask cs \<and> lastStatus \<noteq> 0 \<and> lastStatus \<noteq> stateCode \<and>
                     (stateCode = StatusGood \<or> lastStatus = StatusGood))
      in if \<not> send \<and> \<not> trigger then Ret []
         else go_bind (deref (we_servers w) rep) (\<lambda>s. Ret
           ((if send then state_events w cs mh lastStatus stateCode s else []) @
            (if trigger then trigger_events cs lastStatus stateCode s else []))))"

text \<open>The part under the lock.\<close>

definition digest_report :: "worker_env \<Rightarrow> uint64 \<Rightarrow> task_result \<Rightarrow> sentinel \<Rightarrow> (sentinel \<times> worker_event list) go" where
  "digest_report w rep mh ss0 =
     go_bind (update_tables w mh ss0) (\<lambda>(ss, stateCode, ev1).
       let k = tr_Id mh; cs = map_of (ss_services ss) k; last = sk_lastStatus (get_or no_status (ss_current ss) k);
           changed = (stateCode = StatusDown \<or> stateCode \<noteq> last)
       in go_bind (if tr_Delay mh > 0 then (case cs of None \<Rightarrow> Panic | Some c \<Rightarrow> delayCheck w rep c mh) else Ret []) (\<lambda>ev2.
          go_bind (if changed then (case cs of None \<Rightarrow> Panic | Some c \<Rightarrow> notifyCheck w rep c mh last stateCode) else Ret []) (\<lambda>ev3.
            Ret (if changed then ss\<lparr>ss_current := AList.update k ((get_or no_status (ss_current ss) k)\<lparr>sk_lastStatus := stateCode\<rparr>)
                   (ss_current ss)\<rparr> else ss, ev1 @ ev2 @ ev3))))"

subsection \<open>Certificates\<close>

definition SSL_ERROR :: string where
  "SSL_ERROR = ''SSL'' @ [CHR 0xE8, CHR 0xAF, CHR 0x81, CHR 0xE4, CHR 0xB9, CHR 0xA6, CHR 0xE9, CHR 0x94, CHR 0x99,
     CHR 0xE8, CHR 0xAF, CHR 0xAF, CHR 0xEF, CHR 0xBC, CHR 0x9A]"

definition index :: "'a list \<Rightarrow> nat \<Rightarrow> 'a go" where
  "index xs i = (if i < length xs then Ret (xs ! i) else Panic)"

definition cert_events :: "worker_env \<Rightarrow> service \<Rightarrow> uint64 \<Rightarrow> bool \<Rightarrow> string list \<Rightarrow> int \<Rightarrow> string list \<Rightarrow> int \<Rightarrow> worker_event list" where
  "cert_events w cs k changed oldCert expiresOld newCert expiresNew =
     (let send = (\<lambda>msg. SendEv (sc_NotificationGroupID cs) (''[TLS] '' @ sc_Name cs @ '' '' @ msg));
          expires = we_show w expiresNew
      in (if expiresNew < we_now w + 7 * 24 * hour
          then [send (we_Tf w ''The TLS certificate will expire within seven days. Expiration time: %s'' [expires])
                  (lbl_ServiceTLS k (''expire_'' @ expires))] else []) @
         (if changed
          then [send (we_Tf w ''TLS certificate changed, old: issuer %s, expires at %s; new: issuer %s, expires at %s''
                  [oldCert ! 0, we_show w expiresOld, newCert ! 0, expires]) []] else []))"

definition tls_step :: "worker_env \<Rightarrow> service option \<Rightarrow> task_result \<Rightarrow> sentinel \<Rightarrow> (sentinel \<times> worker_event list) go" where
  "tls_step w cs0 mh ss =
     (let k = tr_Id mh; data = tr_Data mh in
      if HasPrefix data SSL_ERROR
      then if \<not> HasSuffix data ''timeout'' \<and> \<not> HasSuffix data ''EOF'' \<and> \<not> HasSuffix data ''timed out''
        then (case cs0 of None \<Rightarrow> Panic | Some cs \<Rightarrow> Ret (ss, if sc_Notify cs
          then [SendEv (sc_NotificationGroupID cs) (we_Tf w ''[TLS] Fetch cert info failed, Reporter: %s, Error: %s'' [sc_Name cs, data])
                  (lbl_ServiceTLS k ''network'')] else []))
        else Ret (ss, [])
      else (case cs0 of None \<Rightarrow> Panic | Some cs \<Rightarrow>
        let unmute = UnMuteEv (sc_NotificationGroupID cs) (lbl_ServiceTLS k ''network''); newCert = go_split (CHR ''|'') data
        in if length newCert > 1
           then (let cache1 = (if get_or [] (ss_tls ss) k = [] then AList.update k data (ss_tls ss) else ss_tls ss);
                     oldCert = go_split (CHR ''|'') (get_or [] cache1 k)
                 in go_bind (index oldCert 1) (\<lambda>old1.
                    let expiresOld = we_parse w old1; expiresNew = we_parse w (newCert ! 1);
                        changed = (oldCert ! 0 \<noteq> newCert ! 0 \<and> expiresNew \<noteq> expiresOld)
                    in Ret (ss\<lparr>ss_tls := (if changed then AList.update k data cache1 else cache1)\<rparr>,
                         unmute # (if sc_Notify cs then cert_events w cs k changed oldCert expiresOld newCert expiresNew else []))))
           else Ret (ss, [unmute])))"

definition worker_report :: "worker_env \<Rightarrow> uint64 \<Rightarrow> task_result \<Rightarrow> sentinel \<Rightarrow> (sentinel \<times> worker_event list) go" where
  "worker_report w rep mh ss0 =
     (if check_report ss0 mh
      then (let (ss1, ev1) = ping_step w rep mh ss0 in
        go_bind (digest_report w rep mh ss1) (\<lambda>(ss2, ev2).
        go_bind (tls_step w (map_of (ss_services ss1) (tr_Id mh)) mh ss2) (\<lambda>(ss3, ev3).
          Ret (ss3, ev1 @ ev2 @ ev3))))
      else Ret (ss0, []))"

text \<open>A run of reports, each with its environment and reporter.\<close>

fun worker_run :: "(worker_env \<times> uint64 \<times> task_result) list \<Rightarrow> sentinel \<Rightarrow> (sentinel \<times> worker_event list) go" where
  "worker_run [] ss = Ret (ss, [])" |
  "worker_run ((w, rep, mh) # rs) ss = go_bind (worker_report w rep mh ss) (\<lambda>(ss1, ev1).
     go_bind (worker_run rs ss1) (\<lambda>(ss2, ev2). Ret (ss2, ev1 @ ev2)))"

definition IsServiceSentinelNeeded :: "uint64 \<Rightarrow> bool" where
  "IsServiceSentinelNeeded t \<longleftrightarrow> t \<notin> {4, 8, 6, 7, 9, 11, 12, 13, 14, 15}"

end
