(* ===== verification/Service_Properties.thy ===== *)
theory Service_Properties
  imports Service_Worker
begin

text \<open>
  What the service sentinel guarantees and where it fails: the average of pings, the window of recent results and the
  status it gives, the tables that every operation keeps aligned, the totals of the month, and deletions.
\<close>

subsection \<open>Pings\<close>

definition ping_run :: "worker_env \<Rightarrow> uint64 \<Rightarrow> task_result list \<Rightarrow> sentinel \<Rightarrow> sentinel \<times> worker_event list" where
  "ping_run w rep mhs ss = fold (\<lambda>mh (s, ev). let (s', ev') = ping_step w rep mh s in (s', ev @ ev')) mhs (ss, [])"

definition ping_of :: "sentinel \<Rightarrow> uint64 \<Rightarrow> uint64 \<Rightarrow> ping_store" where
  "ping_of ss k rep = get_or no_ping (get_or [] (ss_ping ss) k) rep"

definition successes :: "task_result list \<Rightarrow> nat" where
  "successes mhs = length (filter tr_Successful mhs)"

lemma ping_add_mean:
  assumes "ts = \<lparr>pg_count = int n, pg_ping = d, pg_successCount = int c\<rparr>" and "d * of_nat n = s"
  shows "pg_ping (ping_add mh ts) = (s + tr_Delay mh) / of_nat (n + 1)"
    and "pg_count (ping_add mh ts) = int (n + 1)"
    and "pg_successCount (ping_add mh ts) = int (c + (if tr_Successful mh then 1 else 0))"
  using assms by (auto simp: ping_add_def Let_def)

lemma ping_of_step:
  assumes "is_ping mh" "tr_Id mh = k"
  shows "ping_of (fst (ping_step w rep mh ss)) k rep =
           (let ts = ping_add mh (ping_of ss k rep) in if pg_count ts = we_AvgPingCount w then no_ping else ts)"
  using assms by (simp add: ping_step_def ping_of_def Let_def gomap_simps)

text \<open>Below the configured count the store holds the count, the mean and the successes of the pings so far.\<close>

lemma ping_run_partial:
  assumes "\<forall>mh \<in> set mhs. is_ping mh \<and> tr_Id mh = k" "int (length mhs) < we_AvgPingCount w" "ping_of ss k rep = no_ping"
  shows "snd (ping_run w rep mhs ss) = [] \<and> ping_of (fst (ping_run w rep mhs ss)) k rep =
           \<lparr>pg_count = int (length mhs), pg_ping = sum_list (map tr_Delay mhs) / of_nat (length mhs), pg_successCount = int (successes mhs)\<rparr>"
  using assms(1,2)
proof (induction mhs rule: rev_induct)
  case Nil
  then show ?case using assms(3) by (simp add: ping_run_def no_ping_def successes_def)
next
  case (snoc mh mhs)
  let ?s = "fst (ping_run w rep mhs ss)"
  have mh: "is_ping mh" "tr_Id mh = k" and IH: "snd (ping_run w rep mhs ss) = []"
    "ping_of ?s k rep = \<lparr>pg_count = int (length mhs), pg_ping = sum_list (map tr_Delay mhs) / of_nat (length mhs),
      pg_successCount = int (successes mhs)\<rparr>" using snoc by auto
  have run: "ping_run w rep (mhs @ [mh]) ss = (let (s', ev') = ping_step w rep mh ?s in (s', snd (ping_run w rep mhs ss) @ ev'))"
    by (simp add: ping_run_def case_prod_beta Let_def)
  have m: "sum_list (map tr_Delay mhs) / of_nat (length mhs) * of_nat (length mhs) = sum_list (map tr_Delay mhs)"
    by (cases "mhs = []") auto
  note add = ping_add_mean [OF IH(2) m, of mh]
  have ne: "pg_count (ping_add mh (ping_of ?s k rep)) \<noteq> we_AvgPingCount w" using add(2) snoc.prems(2) by simp
  have "snd (ping_step w rep mh ?s) = []" using mh ne by (simp add: ping_step_def Let_def ping_of_def)
  moreover have "ping_of (fst (ping_step w rep mh ?s)) k rep = ping_add mh (ping_of ?s k rep)"
    using ping_of_step [OF mh] ne by (simp add: Let_def)
  moreover have "ping_add mh (ping_of ?s k rep) = \<lparr>pg_count = int (length mhs + 1),
      pg_ping = (sum_list (map tr_Delay mhs) + tr_Delay mh) / of_nat (length mhs + 1),
      pg_successCount = int (successes (mhs @ [mh]))\<rparr>"
    using add by (cases "ping_add mh (ping_of ?s k rep)") (simp add: successes_def)
  ultimately show ?case by (simp add: run IH(1) case_prod_beta Let_def)
qed

text \<open>After exactly the configured number of pings of one service from one agent, one measurement is written: the
  mean of their delays, counted as a success when at least half of them succeeded; then the store starts again.\<close>

lemma ping_batch_is_averaged:
  assumes "\<forall>mh \<in> set mhs. is_ping mh \<and> tr_Id mh = k" and "mhs \<noteq> []" and "int (length mhs) = we_AvgPingCount w"
    and "ping_of ss k rep = no_ping" and "we_tsdb w"
  shows "snd (ping_run w rep mhs ss) =
           [WriteMetric k rep (sum_list (map tr_Delay mhs) / of_nat (length mhs)) (length mhs \<le> 2 * successes mhs)]
         \<and> ping_of (fst (ping_run w rep mhs ss)) k rep = no_ping"
proof -
  obtain ys mh where mhs: "mhs = ys @ [mh]" using assms(2) by (metis rev_exhaust)
  let ?s = "fst (ping_run w rep ys ss)"
  have mh: "is_ping mh" "tr_Id mh = k" using assms(1) mhs by auto
  have IH: "snd (ping_run w rep ys ss) = []"
    "ping_of ?s k rep = \<lparr>pg_count = int (length ys), pg_ping = sum_list (map tr_Delay ys) / of_nat (length ys),
      pg_successCount = int (successes ys)\<rparr>"
    using ping_run_partial [of ys k w ss rep] assms(1,3,4) mhs by auto
  have run: "ping_run w rep mhs ss = (let (s', ev') = ping_step w rep mh ?s in (s', snd (ping_run w rep ys ss) @ ev'))"
    by (simp add: mhs ping_run_def case_prod_beta Let_def)
  have m: "sum_list (map tr_Delay ys) / of_nat (length ys) * of_nat (length ys) = sum_list (map tr_Delay ys)"
    by (cases "ys = []") auto
  note add = ping_add_mean [OF IH(2) m, of mh]
  have full: "pg_count (ping_add mh (ping_of ?s k rep)) = we_AvgPingCount w" using add(2) assms(3) mhs by simp
  have succ: "(pg_count (ping_add mh (ping_of ?s k rep)) \<le> pg_successCount (ping_add mh (ping_of ?s k rep)) * 2)
      = (length mhs \<le> 2 * successes mhs)"
    unfolding add mhs successes_def by (auto simp: mult.commute)
  have "snd (ping_step w rep mh ?s) = [WriteMetric k rep (pg_ping (ping_add mh (ping_of ?s k rep)))
      (pg_count (ping_add mh (ping_of ?s k rep)) \<le> pg_successCount (ping_add mh (ping_of ?s k rep)) * 2)]"
    using mh full assms(5) by (simp add: ping_step_def Let_def ping_of_def)
  moreover have "ping_of (fst (ping_step w rep mh ?s)) k rep = no_ping"
    using ping_of_step [OF mh] full by (simp add: Let_def)
  ultimately show ?thesis unfolding run IH(1) succ add(1) by (simp add: case_prod_beta Let_def mhs)
qed

subsection \<open>The window of recent results\<close>

definition failures :: "task_result list \<Rightarrow> nat" where
  "failures mhs = length (filter (\<lambda>m. \<not> tr_Successful m) mhs)"

lemma successes_failures: "successes xs + failures xs = length xs"
  by (simp add: successes_def failures_def sum_length_filter_compl)

lemma count_result_fields:
  assumes "tr_Id x > 0"
  shows "td_Up (count_result x rd) = (if tr_Successful x then td_Up rd + 1 else td_Up rd)"
    and "td_Down (count_result x rd) = (if tr_Successful x then td_Down rd else td_Down rd + 1)"
    and "td_Delay (count_result x rd) = (if tr_Successful x
      then (td_Delay rd * of_nat (unat (td_Up rd)) + tr_Delay x) / of_nat (unat (td_Up rd + 1)) else td_Delay rd)"
  using assms by (simp_all add: count_result_def)

lemma window_counts:
  assumes "\<forall>m \<in> set xs. tr_Id m > 0" and "length xs \<le> 30"
  shows "td_Up (fold count_result xs no_today) = of_nat (successes xs)"
    and "td_Down (fold count_result xs no_today) = of_nat (failures xs)"
    and "td_Delay (fold count_result xs no_today) * of_nat (successes xs) = sum_list (map tr_Delay (filter tr_Successful xs))"
proof -
  have "td_Up (fold count_result xs no_today) = of_nat (successes xs) \<and>
    td_Down (fold count_result xs no_today) = of_nat (failures xs) \<and>
    td_Delay (fold count_result xs no_today) * of_nat (successes xs) = sum_list (map tr_Delay (filter tr_Successful xs))"
    using assms
  proof (induction xs rule: rev_induct)
    case Nil
    then show ?case by (simp add: no_today_def successes_def failures_def)
  next
    case (snoc x xs)
    let ?rd = "fold count_result xs no_today"
    have IH: "td_Up ?rd = of_nat (successes xs)" "td_Down ?rd = of_nat (failures xs)"
      "td_Delay ?rd * of_nat (successes xs) = sum_list (map tr_Delay (filter tr_Successful xs))" using snoc by auto
    have n: "successes xs < 30" using snoc.prems(2) successes_failures [of xs] by simp
    have u: "unat (td_Up ?rd) = successes xs" "unat (td_Up ?rd + 1) = successes xs + 1"
      using unat_of_nat_uint64 [of "successes xs"] unat_of_nat_uint64 [of "successes xs + 1"] n by (simp_all add: IH(1) add.commute)
    have x: "tr_Id x > 0" using snoc.prems(1) by simp
    have step: "fold count_result (xs @ [x]) no_today = count_result x ?rd" by simp
    show ?case
    proof (cases "tr_Successful x")
      case True
      then have c: "successes (xs @ [x]) = successes xs + 1" "failures (xs @ [x]) = failures xs"
        "filter tr_Successful (xs @ [x]) = filter tr_Successful xs @ [x]" by (simp_all add: successes_def failures_def)
      have pos: "(of_nat (successes xs + 1) :: float64) \<noteq> 0" by (simp only: of_nat_eq_0_iff)
      show ?thesis unfolding step c count_result_fields [OF x] u using True IH pos by (simp add: add.commute u)
    next
      case False
      then have c: "successes (xs @ [x]) = successes xs" "failures (xs @ [x]) = failures xs + 1"
        "filter tr_Successful (xs @ [x]) = filter tr_Successful xs" by (simp_all add: successes_def failures_def)
      show ?thesis unfolding step c count_result_fields [OF x] u using False IH by simp
    qed
  qed
  then show "td_Up (fold count_result xs no_today) = of_nat (successes xs)"
    and "td_Down (fold count_result xs no_today) = of_nat (failures xs)"
    and "td_Delay (fold count_result xs no_today) * of_nat (successes xs) = sum_list (map tr_Delay (filter tr_Successful xs))"
    by auto
qed

text \<open>The status of a window by its counts, without machine arithmetic.\<close>

definition window_status :: "nat \<Rightarrow> nat \<Rightarrow> uint8" where
  "window_status up n = (if up = 0 then StatusNoData else if 96 * n \<le> 100 * up then StatusGood
     else if 81 * n \<le> 100 * up then StatusLowAvailability else StatusDown)"

lemma div_gt_iff: "0 < n \<Longrightarrow> a < m div n \<longleftrightarrow> (a + 1) * n \<le> (m :: nat)"
  by (metis Suc_eq_plus1 Suc_le_eq less_eq_div_iff_mult_less_eq)

lemma status_of_window:
  assumes "td_Up rd = of_nat u" "td_Down rd = of_nat d" "u + d \<le> 30"
  shows "GetStatusCode (up_percent rd) = window_status u (u + d)"
proof (cases "u + d = 0")
  case True
  then show ?thesis using assms by (simp add: up_percent_def GetStatusCode_def window_status_def)
next
  case False
  have n: "unat (td_Down rd + td_Up rd) = u + d"
    using unat_of_nat_uint64 [of "u + d"] assms by (simp add: add.commute)
  have pos: "td_Down rd + td_Up rd > 0" using n False by (metis unat_0 word_gt_0)
  have m: "unat (td_Up rd * 100) = 100 * u"
    using unat_of_nat_uint64 [of "100 * u"] assms by (simp add: mult.commute)
  have p: "unat (up_percent rd) = 100 * u div (u + d)"
    using pos n m by (simp add: up_percent_def unat_div_distrib)
  have zero: "up_percent rd = 0 \<longleftrightarrow> u = 0"
  proof
    assume "up_percent rd = 0"
    then have "100 * u div (u + d) = 0" using p by simp
    then have "100 * u < u + d" using False by (auto simp: div_eq_0_iff)
    then show "u = 0" using assms(3) by simp
  next
    assume "u = 0" then show "up_percent rd = 0" using p by (simp add: unat_eq_zero)
  qed
  have g: "up_percent rd > 95 \<longleftrightarrow> 96 * (u + d) \<le> 100 * u" "up_percent rd > 80 \<longleftrightarrow> 81 * (u + d) \<le> 100 * u"
    using False div_gt_iff [of "u + d" 95 "100 * u"] div_gt_iff [of "u + d" 80 "100 * u"]
    by (simp_all add: word_less_nat_alt p)
  show ?thesis by (simp only: GetStatusCode_def window_status_def zero g)
qed

text \<open>What holds of the window of a service between reports.\<close>

definition window_ok :: "task_status \<Rightarrow> bool" where
  "window_ok st \<longleftrightarrow> length (sk_result st) < 30 \<and> (\<forall>m \<in> set (sk_result st). tr_Id m > 0)"

definition current_of :: "sentinel \<Rightarrow> uint64 \<Rightarrow> task_status" where
  "current_of ss k = get_or no_status (ss_current ss) k"

lemma update_tables_Ret:
  assumes "update_tables w mh ss = Ret (ss', code, ev)"
  obtains v st where "map_of (ss_today ss) (tr_Id mh) = Some v" "map_of (ss_current ss) (tr_Id mh) = Some st"
    "ss' = ss\<lparr>ss_today := AList.update (tr_Id mh) (today_add mh v) (ss_today ss),
      ss_current := AList.update (tr_Id mh) (let st1 = window_add (we_now w) mh st in
        if length (sk_result st1) = 30 then st1\<lparr>sk_t := Some (we_now w), sk_result := []\<rparr> else st1) (ss_current ss),
      ss_data := AList.update (tr_Id mh) (fold count_result (sk_result (window_add (we_now w) mh st)) no_today) (ss_data ss)\<rparr>"
    "code = GetStatusCode (up_percent (fold count_result (sk_result (window_add (we_now w) mh st)) no_today))"
  using assms by (auto simp: update_tables_def Let_def go_bind_Ret_iff CurrentStatusSize_def)

lemma window_add_result:
  "sk_result (window_add now mh st) = sk_result st \<or> sk_result (window_add now mh st) = sk_result st @ [mh]"
  by (auto simp: window_add_def Let_def)

lemma window_add_ok:
  assumes "window_ok st" "tr_Id mh > 0"
  shows "length (sk_result (window_add now mh st)) \<le> 30" "\<forall>m \<in> set (sk_result (window_add now mh st)). tr_Id m > 0"
  using assms window_add_result [of now mh st] by (auto simp: window_ok_def)

lemma window_gives_status_aux:
  assumes "update_tables w mh ss = Ret (ss', code, ev)" and "tr_Id mh > 0" and "window_ok (current_of ss (tr_Id mh))"
  defines "win \<equiv> sk_result (window_add (we_now w) mh (current_of ss (tr_Id mh)))"
  shows "window_ok (current_of ss' (tr_Id mh)) \<and> code = window_status (successes win) (length win) \<and>
    (\<exists>rd. map_of (ss_data ss') (tr_Id mh) = Some rd \<and> unat (td_Up rd) = successes win \<and> unat (td_Down rd) = failures win \<and>
       td_Delay rd * of_nat (successes win) = sum_list (map tr_Delay (filter tr_Successful win)))"
proof -
  obtain v st where st: "map_of (ss_current ss) (tr_Id mh) = Some st"
    and ss': "ss' = ss\<lparr>ss_today := AList.update (tr_Id mh) (today_add mh v) (ss_today ss),
      ss_current := AList.update (tr_Id mh) (let st1 = window_add (we_now w) mh st in
        if length (sk_result st1) = 30 then st1\<lparr>sk_t := Some (we_now w), sk_result := []\<rparr> else st1) (ss_current ss),
      ss_data := AList.update (tr_Id mh) (fold count_result (sk_result (window_add (we_now w) mh st)) no_today) (ss_data ss)\<rparr>"
    and code: "code = GetStatusCode (up_percent (fold count_result (sk_result (window_add (we_now w) mh st)) no_today))"
    using assms(1) by (rule update_tables_Ret)
  have cur: "current_of ss (tr_Id mh) = st" using st by (simp add: current_of_def get_or_def)
  have win: "win = sk_result (window_add (we_now w) mh st)" by (simp add: win_def cur)
  have ok: "length win \<le> 30" "\<forall>m \<in> set win. tr_Id m > 0" using window_add_ok [of st mh] assms(2,3) cur win by auto
  note counts = window_counts [OF ok(2,1)]
  have sum: "successes win + failures win = length win" by (rule successes_failures)
  have "window_ok (current_of ss' (tr_Id mh))"
    using ok win by (auto simp: ss' current_of_def gomap_simps Let_def window_ok_def)
  moreover have "code = window_status (successes win) (length win)"
    using status_of_window [OF counts(1,2)] ok sum by (simp add: code win)
  moreover have "unat (of_nat (successes win) :: uint64) = successes win" "unat (of_nat (failures win) :: uint64) = failures win"
    using ok sum by (auto intro!: unat_of_nat_uint64)
  ultimately show ?thesis using counts by (simp add: ss' gomap_simps win)
qed

text \<open>A report leaves fewer than 30 results in the window; the counts published for the service are the successes and
  the failures of the window with the report, its delay is the mean over the successes, and the new status is the one the
  share of successes gives: no data exactly when none succeeded, good from 96 per cent, low availability from 81 per cent,
  down below.\<close>

lemma window_gives_status:
  assumes "update_tables w mh ss = Ret (ss', code, ev)" and "tr_Id mh > 0" and "window_ok (current_of ss (tr_Id mh))"
  defines "win \<equiv> sk_result (window_add (we_now w) mh (current_of ss (tr_Id mh)))"
  shows "window_ok (current_of ss' (tr_Id mh)) \<and> code = window_status (successes win) (length win) \<and>
    (\<exists>rd. map_of (ss_data ss') (tr_Id mh) = Some rd \<and> unat (td_Up rd) = successes win \<and> unat (td_Down rd) = failures win \<and>
       td_Delay rd * of_nat (successes win) = sum_list (map tr_Delay (filter tr_Successful win)))"
  unfolding win_def using assms(1-3) by (rule window_gives_status_aux)

subsection \<open>A service that never answers\<close>

definition no_state_notice :: "uint64 \<Rightarrow> worker_event list \<Rightarrow> bool" where
  "no_state_notice k ev \<longleftrightarrow> (\<forall>gid msg. SendEv gid msg (lbl_ServiceStateChanged k) \<notin> set ev)"

lemma no_state_notice_simps [simp]:
  "no_state_notice k []" "no_state_notice k (xs @ ys) \<longleftrightarrow> no_state_notice k xs \<and> no_state_notice k ys"
  "no_state_notice k (SendEv g m l # xs) \<longleftrightarrow> l \<noteq> lbl_ServiceStateChanged k \<and> no_state_notice k xs"
  "no_state_notice k (UnMuteEv g l # xs) \<longleftrightarrow> no_state_notice k xs"
  "no_state_notice k (WriteMetric a b c d # xs) \<longleftrightarrow> no_state_notice k xs"
  "no_state_notice k (WriteHistory a b c s e f # xs) \<longleftrightarrow> no_state_notice k xs"
  "no_state_notice k (TriggerEv i r # xs) \<longleftrightarrow> no_state_notice k xs"
  by (auto simp: no_state_notice_def)

lemma state_label_distinct [simp]:
  "lbl_ServiceStateChanged j = lbl_ServiceStateChanged k \<longleftrightarrow> j = k" "lbl_ServiceLatencyMin j \<noteq> lbl_ServiceStateChanged k"
  "lbl_ServiceLatencyMax j \<noteq> lbl_ServiceStateChanged k" "lbl_ServiceTLS j e \<noteq> lbl_ServiceStateChanged k"
  "[] \<noteq> lbl_ServiceStateChanged k"
  by (simp_all add: lbl_ServiceStateChanged_def lbl_ServiceLatencyMin_def lbl_ServiceLatencyMax_def lbl_ServiceTLS_def
      show_uint_inj)

lemma ping_step_frame:
  "fst (ping_step w rep mh ss) = ss\<lparr>ss_ping := ss_ping (fst (ping_step w rep mh ss))\<rparr>"
  "no_state_notice k (snd (ping_step w rep mh ss))"
  by (auto simp: ping_step_def Let_def)

lemma tls_step_frame:
  assumes "tls_step w cs mh ss = Ret (ss', ev)"
  shows "ss' = ss\<lparr>ss_tls := ss_tls ss'\<rparr>" "no_state_notice k ev"
  using assms by (auto simp: tls_step_def Let_def cert_events_def go_bind_Ret_iff split: if_splits option.splits)

lemma delayCheck_notices: "delayCheck w rep cs mh = Ret ev \<Longrightarrow> no_state_notice k ev"
  by (auto simp: delayCheck_def Let_def go_bind_Ret_iff split: if_splits)

lemma notifyCheck_notices:
  assumes "notifyCheck w rep cs mh old code = Ret ev" and "tr_Id mh \<noteq> k \<or> old = 0 \<and> code \<noteq> StatusDown"
  shows "no_state_notice k ev"
  using assms by (auto simp: notifyCheck_def Let_def go_bind_Ret_iff state_events_def trigger_events_def split: if_splits)

text \<open>What \<open>digest_report\<close> leaves of the status of a service, with the events it adds.\<close>

definition changed_status :: "task_result \<Rightarrow> sentinel \<Rightarrow> uint8 \<Rightarrow> bool" where
  "changed_status mh ss code \<longleftrightarrow> code = StatusDown \<or> code \<noteq> sk_lastStatus (current_of ss (tr_Id mh))"

lemma digest_report_Ret:
  assumes "digest_report w rep mh ss0 = Ret (ss', ev)"
  shows "\<exists>ss code ev1 ev2 ev3. update_tables w mh ss0 = Ret (ss, code, ev1) \<and> ev = ev1 @ ev2 @ ev3 \<and> no_state_notice k ev2 \<and>
    ss' = (if changed_status mh ss code then ss\<lparr>ss_current := AList.update (tr_Id mh)
      ((current_of ss (tr_Id mh))\<lparr>sk_lastStatus := code\<rparr>) (ss_current ss)\<rparr> else ss) \<and>
    (if changed_status mh ss code then \<exists>c. notifyCheck w rep c mh (sk_lastStatus (current_of ss (tr_Id mh))) code = Ret ev3 else ev3 = [])"
proof -
  let ?cs = "\<lambda>ss. map_of (ss_services ss) (tr_Id mh)"
  let ?old = "\<lambda>ss. sk_lastStatus (get_or no_status (ss_current ss) (tr_Id mh))"
  obtain ss code ev1 where upd: "update_tables w mh ss0 = Ret (ss, code, ev1)"
    using assms by (auto simp: digest_report_def go_bind_Ret_iff)
  have cur: "current_of ss (tr_Id mh) = get_or no_status (ss_current ss) (tr_Id mh)" by (simp add: current_of_def)
  obtain ev2 where ev2: "(if tr_Delay mh > 0 then (case ?cs ss of None \<Rightarrow> Panic | Some c \<Rightarrow> delayCheck w rep c mh) else Ret []) = Ret ev2"
    using assms upd by (auto simp: digest_report_def go_bind_Ret_iff Let_def split: if_splits)
  obtain ev3 where ev3: "(if code = StatusDown \<or> code \<noteq> ?old ss
      then (case ?cs ss of None \<Rightarrow> Panic | Some c \<Rightarrow> notifyCheck w rep c mh (?old ss) code) else Ret []) = Ret ev3"
    using assms unfolding digest_report_def upd go_bind.simps(1) prod.case Let_def ev2 go_bind_Ret_iff by blast
  have res: "Ret (if code = StatusDown \<or> code \<noteq> ?old ss then ss\<lparr>ss_current := AList.update (tr_Id mh)
      ((get_or no_status (ss_current ss) (tr_Id mh))\<lparr>sk_lastStatus := code\<rparr>) (ss_current ss)\<rparr> else ss, ev1 @ ev2 @ ev3) = Ret (ss', ev)"
    using assms unfolding digest_report_def upd go_bind.simps(1) prod.case Let_def ev2 ev3 .
  have "no_state_notice k ev2" using ev2 by (auto split: if_splits option.splits intro: delayCheck_notices)
  moreover have "if changed_status mh ss code then \<exists>c. notifyCheck w rep c mh (sk_lastStatus (current_of ss (tr_Id mh))) code = Ret ev3
      else ev3 = []"
    using ev3 unfolding changed_status_def cur
    by (cases "code = StatusDown \<or> code \<noteq> ?old ss"; cases "?cs ss") auto
  moreover have "ss' = (if changed_status mh ss code then ss\<lparr>ss_current := AList.update (tr_Id mh)
      ((current_of ss (tr_Id mh))\<lparr>sk_lastStatus := code\<rparr>) (ss_current ss)\<rparr> else ss)" "ev = ev1 @ ev2 @ ev3"
    using res unfolding changed_status_def cur go.inject prod.inject by metis+
  ultimately show ?thesis using upd by blast
qed

lemma update_tables_events:
  "update_tables w mh ss = Ret (ss', code, ev) \<Longrightarrow> no_state_notice k ev"
  by (auto simp: update_tables_def Let_def go_bind_Ret_iff)

definition never_answered :: "uint64 \<Rightarrow> sentinel \<Rightarrow> bool" where
  "never_answered k ss \<longleftrightarrow> window_ok (current_of ss k) \<and> (\<forall>m \<in> set (sk_result (current_of ss k)). \<not> tr_Successful m) \<and>
     sk_lastStatus (current_of ss k) \<in> {0, StatusNoData}"

lemma update_tables_status:
  assumes "update_tables w mh ss = Ret (ss', code, ev)"
  shows "sk_lastStatus (current_of ss' k) = sk_lastStatus (current_of ss k)"
    and "k \<noteq> tr_Id mh \<Longrightarrow> current_of ss' k = current_of ss k"
    and "set (sk_result (current_of ss' (tr_Id mh))) \<subseteq> insert mh (set (sk_result (current_of ss (tr_Id mh))))"
  using assms by (auto elim!: update_tables_Ret simp: current_of_def gomap_simps get_or_def Let_def window_add_def split: if_splits)

lemma digest_never_answered:
  assumes dig: "digest_report w rep mh ss = Ret (ss', ev)" and inv: "never_answered k ss" and k: "k > 0"
    and fails: "tr_Id mh = k \<Longrightarrow> \<not> tr_Successful mh"
  shows "never_answered k ss' \<and> no_state_notice k ev"
proof -
  obtain ss1 code ev1 ev2 ev3 where upd: "update_tables w mh ss = Ret (ss1, code, ev1)" and ev: "ev = ev1 @ ev2 @ ev3"
    and ev2: "no_state_notice k ev2" and cur: "ss' = (if changed_status mh ss1 code then ss1\<lparr>ss_current := AList.update (tr_Id mh)
      ((current_of ss1 (tr_Id mh))\<lparr>sk_lastStatus := code\<rparr>) (ss_current ss1)\<rparr> else ss1)"
    and ev3: "if changed_status mh ss1 code then \<exists>c. notifyCheck w rep c mh (sk_lastStatus (current_of ss1 (tr_Id mh))) code = Ret ev3
      else ev3 = []"
    using digest_report_Ret [OF dig, of k] by blast
  have ev1: "no_state_notice k ev1" using upd by (rule update_tables_events)
  note st = update_tables_status [OF upd]
  show ?thesis
  proof (cases "tr_Id mh = k")
    case False
    have "current_of ss' k = current_of ss k"
      using cur st(2) [of k] False by (auto simp: current_of_def gomap_simps)
    moreover have "no_state_notice k ev3"
      using ev3 notifyCheck_notices False by (fastforce split: if_splits)
    ultimately show ?thesis using inv ev ev1 ev2 by (simp add: never_answered_def)
  next
    case True
    let ?win = "sk_result (window_add (we_now w) mh (current_of ss k))"
    have winfail: "\<forall>m \<in> set ?win. \<not> tr_Successful m"
      using window_add_result [of "we_now w" mh "current_of ss k"] inv fails True by (auto simp: never_answered_def)
    have w: "window_ok (current_of ss1 k)" "code = window_status (successes ?win) (length ?win)"
      using window_gives_status_aux [of w mh ss ss1 code ev1] upd inv k True by (auto simp: never_answered_def)
    have code: "code = StatusNoData" using w(2) winfail by (simp add: window_status_def successes_def)
    have old: "sk_lastStatus (current_of ss1 k) \<in> {0, StatusNoData}" using st(1) [of k] inv by (simp add: never_answered_def)
    have "window_ok (current_of ss' k)" "sk_result (current_of ss' k) = sk_result (current_of ss1 k)"
      "sk_lastStatus (current_of ss' k) \<in> {0, StatusNoData}"
      using w(1) cur code old True by (auto simp: current_of_def gomap_simps window_ok_def)
    moreover have "\<forall>m \<in> set (sk_result (current_of ss1 k)). \<not> tr_Successful m"
      using st(3) True inv fails by (auto simp: never_answered_def)
    moreover have "no_state_notice k ev3"
    proof (cases "sk_lastStatus (current_of ss1 k) = StatusNoData")
      case True
      then show ?thesis using ev3 code \<open>tr_Id mh = k\<close> by (simp add: changed_status_def StatusNoData_def StatusDown_def)
    next
      case False
      then have z: "sk_lastStatus (current_of ss1 k) = 0" using old by simp
      have "\<exists>c. notifyCheck w rep c mh 0 code = Ret ev3"
        using ev3 code z \<open>tr_Id mh = k\<close> by (simp add: changed_status_def StatusNoData_def)
      then show ?thesis using code notifyCheck_notices [of w rep _ mh 0 code ev3 k] by (auto simp: StatusNoData_def StatusDown_def)
    qed
    ultimately show ?thesis using ev ev1 ev2 by (simp add: never_answered_def)
  qed
qed

lemma worker_report_never_answered:
  assumes "worker_report w rep mh ss = Ret (ss', ev)" and "never_answered k ss" "k > 0" "tr_Id mh = k \<Longrightarrow> \<not> tr_Successful mh"
  shows "never_answered k ss' \<and> no_state_notice k ev"
proof (cases "check_report ss mh")
  case True
  obtain ss1 ev1 where p: "ping_step w rep mh ss = (ss1, ev1)" by fastforce
  obtain ss2 ev2 ev3 where d: "digest_report w rep mh ss1 = Ret (ss2, ev2)"
    and t: "tls_step w (map_of (ss_services ss1) (tr_Id mh)) mh ss2 = Ret (ss', ev3)" and ev: "ev = ev1 @ ev2 @ ev3"
    using assms(1) True p by (auto simp: worker_report_def Let_def go_bind_Ret_iff)
  have "current_of ss1 k = current_of ss k" using ping_step_frame(1) [of w rep mh ss] p
    by (metis current_of_def fst_conv sentinel.select_convs(2) sentinel.surjective sentinel.update_convs(4))
  then have "never_answered k ss1" using assms(2) by (simp add: never_answered_def)
  then have "never_answered k ss2 \<and> no_state_notice k ev2" using digest_never_answered [OF d] assms(3,4) by blast
  moreover have "current_of ss' k = current_of ss2 k" using tls_step_frame(1) [OF t]
    by (metis current_of_def sentinel.select_convs(2) sentinel.surjective sentinel.update_convs(5))
  moreover have "no_state_notice k ev1" using ping_step_frame(2) [of k w rep mh ss] p by simp
  ultimately show ?thesis using tls_step_frame(2) [OF t] ev by (simp add: never_answered_def)
qed (use assms in \<open>auto simp: worker_report_def\<close>)

text \<open>As long as every probe of a service fails from the moment it is added, its status is never down and no
  notification about its state is sent, whatever the other services report.\<close>

lemma dead_service_is_silent:
  assumes "worker_run rs ss = Ret (ss', ev)" and "k > 0" and "map_of (ss_current ss) k = Some no_status"
    and "\<forall>(w, rep, mh) \<in> set rs. tr_Id mh = k \<longrightarrow> \<not> tr_Successful mh"
  shows "no_state_notice k ev \<and> sk_lastStatus (current_of ss' k) \<noteq> StatusDown"
proof -
  have "never_answered k ss" using assms(3) by (simp add: never_answered_def current_of_def get_or_def no_status_def window_ok_def)
  then have "never_answered k ss' \<and> no_state_notice k ev" using assms(1,4)
  proof (induction rs arbitrary: ss ev)
    case (Cons r rs)
    obtain w rep mh where r: "r = (w, rep, mh)" by (cases r)
    obtain ss1 ev1 ev2 where one: "worker_report w rep mh ss = Ret (ss1, ev1)" and rest: "worker_run rs ss1 = Ret (ss', ev2)"
      and ev: "ev = ev1 @ ev2" using Cons.prems(2) r by (auto simp: go_bind_Ret_iff)
    have "never_answered k ss1 \<and> no_state_notice k ev1"
      using worker_report_never_answered [OF one Cons.prems(1) assms(2)] Cons.prems(3) r by auto
    then show ?case using Cons.IH [OF _ rest] Cons.prems(3) ev by auto
  qed simp
  then show ?thesis by (auto simp: never_answered_def StatusNoData_def StatusDown_def)
qed

end
