(* ===== verification/Service_Tables.thy ===== *)
theory Service_Tables
  imports Service_Properties
begin

text \<open>
  The operations of the service sentinel together: the tables they keep aligned, so that no read goes through a nil
  pointer, the deletions that do panic, and the totals of the month.
\<close>

definition keys :: "('k, 'v) gomap \<Rightarrow> 'k set" where
  "keys m = dom (map_of m)"

lemma keys_update [simp]: "keys (AList.update k v m) = insert k (keys m)"
  by (auto simp: keys_def gomap_simps)

lemma keys_delete [simp]: "keys (AList.delete k m) = keys m - {k}"
  by (auto simp: keys_def gomap_simps)

lemma keys_update_same: "k \<in> keys m \<Longrightarrow> keys (AList.update k v m) = keys m"
  by (simp add: insert_absorb)

lemma keys_Nil [simp]: "keys [] = {}"
  by (simp add: keys_def)

lemma keys_mem: "(k, v) \<in> set m \<Longrightarrow> k \<in> keys m"
  by (simp add: keys_def dom_map_of_conv_image_fst rev_image_eqI)

lemma keysE: "k \<in> keys m \<Longrightarrow> (\<And>v. map_of m k = Some v \<Longrightarrow> P) \<Longrightarrow> P"
  by (auto simp: keys_def)

lemma keysI: "map_of m k = Some v \<Longrightarrow> k \<in> keys m"
  by (auto simp: keys_def)

lemma deref_keys: "k \<in> keys m \<Longrightarrow> \<exists>v. deref m k = Ret v"
  by (auto elim: keysE)

subsection \<open>Operations and reachable states\<close>

datatype sentinel_op =
    OpUpdate "string + int" service
  | OpDelete "uint64 list"
  | OpReport worker_env uint64 task_result
  | OpLoadStats
  | OpCopyStats
  | OpRefresh
  | OpList
  | OpMonthDB int "service_history list"
  | OpMonthTSDB "uint64 \<Rightarrow> daily_stats list option" "service list"
  | OpTodayDB int "service_history list"
  | OpTodayTSDB "uint64 \<Rightarrow> (uint64 \<times> uint64 \<times> float64) list option"

fun sentinel_step :: "sentinel_op \<Rightarrow> sentinel \<Rightarrow> sentinel go" where
  "sentinel_step (OpUpdate job m) ss = Ret (snd (snd (Service_Update job m ss)))" |
  "sentinel_step (OpDelete ids) ss = go_bind (Service_Delete ids ss) (\<lambda>(s, _). Ret s)" |
  "sentinel_step (OpReport w rep mh) ss = go_bind (worker_report w rep mh ss) (\<lambda>(s, _). Ret s)" |
  "sentinel_step OpLoadStats ss = LoadStats ss" |
  "sentinel_step OpCopyStats ss = go_bind (CopyStats ss) (\<lambda>(s, _). Ret s)" |
  "sentinel_step OpRefresh ss = refreshMonthlyServiceStatus ss" |
  "sentinel_step OpList ss = Ret (UpdateServiceList ss)" |
  "sentinel_step (OpMonthDB today mhs) ss = Ret (loadMonthlyStatusFromDB today mhs ss)" |
  "sentinel_step (OpMonthTSDB query ms) ss = loadMonthlyStatusFromTSDB query ms ss" |
  "sentinel_step (OpTodayDB today mhs) ss = loadTodayStatsDB today mhs ss" |
  "sentinel_step (OpTodayTSDB query) ss = loadTodayStatsTSDB query ss"

text \<open>What the callers have to provide: known services, each once, and a reporter that is a known server.\<close>

fun op_ok :: "sentinel_op \<Rightarrow> sentinel \<Rightarrow> bool" where
  "op_ok (OpDelete ids) ss \<longleftrightarrow> distinct ids \<and> set ids \<subseteq> keys (ss_services ss)" |
  "op_ok (OpReport w rep mh) ss \<longleftrightarrow> rep \<in> keys (we_servers w)" |
  "op_ok (OpMonthTSDB query ms) ss \<longleftrightarrow> sc_ID ` set ms \<subseteq> keys (ss_services ss)" |
  "op_ok (OpTodayDB today mhs) ss \<longleftrightarrow> sh_ServiceID ` set mhs \<subseteq> keys (ss_services ss)" |
  "op_ok _ ss \<longleftrightarrow> True"

inductive sentinel_reach :: "sentinel \<Rightarrow> bool" where
  start: "sentinel_reach no_sentinel"
| load: "sentinel_reach ss \<Longrightarrow> sentinel_reach (load_service e ss)"
| step: "sentinel_reach ss \<Longrightarrow> op_ok oper ss \<Longrightarrow> sentinel_step oper ss = Ret ss' \<Longrightarrow> sentinel_reach ss'"

definition certs_ok :: "sentinel \<Rightarrow> bool" where
  "certs_ok ss \<longleftrightarrow> (\<forall>k d. map_of (ss_tls ss) k = Some d \<longrightarrow> 1 < length (go_split (CHR ''|'') d))"

definition sentinel_ok :: "sentinel \<Rightarrow> bool" where
  "sentinel_ok ss \<longleftrightarrow> keys (ss_services ss) \<subseteq> keys (ss_current ss) \<and>
     keys (ss_services ss) \<subseteq> keys (ss_monthly ss) \<and>
     keys (ss_monthly ss) \<subseteq> keys (ss_today ss) \<and>
     keys (ss_data ss) \<subseteq> keys (ss_monthly ss) \<and> certs_ok ss"

text \<open>Two states that agree on which entries the tables have, and on the certificates.\<close>

definition same_shape :: "sentinel \<Rightarrow> sentinel \<Rightarrow> bool" where
  "same_shape ss t \<longleftrightarrow> ss_services t = ss_services ss \<and> keys (ss_current t) = keys (ss_current ss) \<and>
     keys (ss_monthly t) = keys (ss_monthly ss) \<and> keys (ss_today t) = keys (ss_today ss) \<and>
     keys (ss_data t) \<subseteq> keys (ss_data ss) \<union> keys (ss_monthly ss) \<and> ss_tls t = ss_tls ss"

lemma same_shape_refl [simp]: "same_shape ss ss"
  by (simp add: same_shape_def)

lemma same_shape_trans: "same_shape a b \<Longrightarrow> same_shape b c \<Longrightarrow> same_shape a c"
  unfolding same_shape_def by auto

lemma same_shape_ok: "same_shape ss t \<Longrightarrow> sentinel_ok ss \<Longrightarrow> sentinel_ok t"
  unfolding same_shape_def sentinel_ok_def certs_ok_def by auto

text \<open>Writing an entry that is there, or the current data of a service with a month, keeps the shape.\<close>

lemma same_shape_writes:
  assumes "same_shape a s"
  shows "k \<in> keys (ss_monthly a) \<Longrightarrow> same_shape a (s\<lparr>ss_monthly := AList.update k r (ss_monthly s)\<rparr>)"
    and "k \<in> keys (ss_today a) \<Longrightarrow> same_shape a (s\<lparr>ss_today := AList.update k v (ss_today s)\<rparr>)"
    and "k \<in> keys (ss_current a) \<Longrightarrow> same_shape a (s\<lparr>ss_current := AList.update k c (ss_current s)\<rparr>)"
    and "k \<in> keys (ss_monthly a) \<Longrightarrow> same_shape a (s\<lparr>ss_data := AList.update k d (ss_data s)\<rparr>)"
    and "same_shape a (s\<lparr>ss_ping := pg\<rparr>)"
  using assms by (auto simp: same_shape_def)

lemma ok_keys:
  assumes "sentinel_ok ss"
  shows "k \<in> keys (ss_services ss) \<Longrightarrow> k \<in> keys (ss_current ss)" "k \<in> keys (ss_services ss) \<Longrightarrow> k \<in> keys (ss_monthly ss)"
    "k \<in> keys (ss_monthly ss) \<Longrightarrow> k \<in> keys (ss_today ss)" "k \<in> keys (ss_services ss) \<Longrightarrow> k \<in> keys (ss_today ss)"
    "k \<in> keys (ss_data ss) \<Longrightarrow> k \<in> keys (ss_monthly ss)"
  using assms by (auto simp: sentinel_ok_def)

lemma shape_keys:
  assumes "same_shape a s"
  shows "keys (ss_current s) = keys (ss_current a)" "keys (ss_monthly s) = keys (ss_monthly a)" "keys (ss_today s) = keys (ss_today a)"
    "ss_services s = ss_services a" "ss_tls s = ss_tls a"
  using assms by (auto simp: same_shape_def)

subsection \<open>Every operation keeps the tables\<close>

lemma LoadStats_total:
  assumes "sentinel_ok ss"
  shows "\<exists>t. LoadStats ss = Ret t \<and> same_shape ss t \<and> (\<exists>m. t = ss\<lparr>ss_monthly := m\<rparr>)"
proof -
  let ?D = "keys (ss_monthly ss)"
  have "\<exists>m1. go_foldM (\<lambda>m (k, s). go_bind (deref m k) (\<lambda>r. go_bind (deref (ss_today ss) k) (\<lambda>v.
         Ret (AList.update k (load_item v s r) m)))) (ss_monthly ss) (ss_services ss) = Ret m1 \<and> keys m1 = ?D"
  proof (rule go_foldM_total)
    fix m :: "(uint64, response_item) gomap" and e assume e: "e \<in> set (ss_services ss)" and m: "keys m = ?D"
    obtain k s where ks: "e = (k, s)" by (cases e)
    have k: "k \<in> ?D" "k \<in> keys (ss_today ss)"
      using e ks keys_mem [of k s "ss_services ss"] ok_keys [OF assms] by blast+
    obtain r v where "deref m k = Ret r" "deref (ss_today ss) k = Ret v" using k m deref_keys by metis
    then show "\<exists>m'. (\<lambda>(k, s). go_bind (deref m k) (\<lambda>r. go_bind (deref (ss_today ss) k) (\<lambda>v.
         Ret (AList.update k (load_item v s r) m)))) e = Ret m' \<and> keys m' = ?D"
      using m k(1) by (simp add: ks del: deref_Ret) (simp add: insert_absorb)
  qed simp
  then obtain m1 where m1: "go_foldM (\<lambda>m (k, s). go_bind (deref m k) (\<lambda>r. go_bind (deref (ss_today ss) k) (\<lambda>v.
         Ret (AList.update k (load_item v s r) m)))) (ss_monthly ss) (ss_services ss) = Ret m1" and d1: "keys m1 = ?D" by blast
  have "\<exists>m2. go_foldM (\<lambda>m (k, v). go_bind (deref m k) (\<lambda>r.
         Ret (AList.update k (r\<lparr>ri_CurrentDown := td_Down v, ri_CurrentUp := td_Up v\<rparr>) m))) m1 (ss_data ss) = Ret m2 \<and> keys m2 = ?D"
  proof (rule go_foldM_total)
    fix m :: "(uint64, response_item) gomap" and e assume e: "e \<in> set (ss_data ss)" and m: "keys m = ?D"
    obtain k v where kv: "e = (k, v)" by (cases e)
    have k: "k \<in> ?D" using e kv keys_mem [of k v "ss_data ss"] ok_keys [OF assms] by blast
    obtain r where "deref m k = Ret r" using k m deref_keys by metis
    then show "\<exists>m'. (\<lambda>(k, v). go_bind (deref m k) (\<lambda>r.
         Ret (AList.update k (r\<lparr>ri_CurrentDown := td_Down v, ri_CurrentUp := td_Up v\<rparr>) m))) e = Ret m' \<and> keys m' = ?D"
      using m k by (simp add: kv del: deref_Ret) (simp add: insert_absorb)
  qed (rule d1)
  then show ?thesis unfolding LoadStats_def m1 by (auto simp: same_shape_def)
qed

lemma refresh_total:
  assumes "sentinel_ok ss"
  shows "\<exists>t. refreshMonthlyServiceStatus ss = Ret t \<and> same_shape ss t"
proof -
  obtain s0 where s0: "LoadStats ss = Ret s0" "same_shape ss s0" using LoadStats_total [OF assms] by blast
  have ok: "sentinel_ok s0" using s0(2) assms by (rule same_shape_ok)
  have "\<exists>t. go_foldM (\<lambda>s (k, r). go_bind (deref (ss_today s) k) (\<lambda>v.
       Ret (s\<lparr>ss_monthly := AList.update k (shift_item r) (ss_monthly s), ss_data := AList.update k no_today (ss_data s),
              ss_today := AList.update k (v\<lparr>td_Delay := 0, td_Up := 0, td_Down := 0\<rparr>) (ss_today s)\<rparr>)))
       s0 (ss_monthly s0) = Ret t \<and> same_shape s0 t"
  proof (rule go_foldM_total)
    fix s e assume e: "e \<in> set (ss_monthly s0)" and s: "same_shape s0 s"
    obtain k r where kr: "e = (k, r)" by (cases e)
    have k: "k \<in> keys (ss_monthly s0)" "k \<in> keys (ss_today s0)"
      using e kr keys_mem [of k r "ss_monthly s0"] ok_keys [OF ok] by blast+
    obtain v where v: "deref (ss_today s) k = Ret v" using k(2) shape_keys [OF s] deref_keys by metis
    have "same_shape s0 (s\<lparr>ss_monthly := AList.update k (shift_item r) (ss_monthly s), ss_data := AList.update k no_today (ss_data s),
        ss_today := AList.update k (v\<lparr>td_Delay := 0, td_Up := 0, td_Down := 0\<rparr>) (ss_today s)\<rparr>)"
      using same_shape_writes(2) [OF same_shape_writes(4) [OF same_shape_writes(1) [OF s k(1)] k(1)] k(2)] by simp
    then show "\<exists>s'. (\<lambda>(k, r). go_bind (deref (ss_today s) k) (\<lambda>v.
       Ret (s\<lparr>ss_monthly := AList.update k (shift_item r) (ss_monthly s), ss_data := AList.update k no_today (ss_data s),
              ss_today := AList.update k (v\<lparr>td_Delay := 0, td_Up := 0, td_Down := 0\<rparr>) (ss_today s)\<rparr>))) e = Ret s' \<and> same_shape s0 s'"
      by (simp add: kr v)
  qed simp
  then show ?thesis using s0 same_shape_trans unfolding refreshMonthlyServiceStatus_def s0(1) go_bind.simps by blast
qed

lemma month_db_shape: "same_shape ss (loadMonthlyStatusFromDB today mhs ss)"
proof -
  have row: "keys (fst (load_db_row today mh acc)) = keys (fst acc)" for mh acc
    by (cases acc) (auto simp: load_db_row_def Let_def split: option.splits intro: keysI)
  have "keys (fst (fold (load_db_row today) xs acc)) = keys (fst acc)" for xs acc
    by (induction xs arbitrary: acc) (simp_all add: row)
  then show ?thesis by (simp add: same_shape_def loadMonthlyStatusFromDB_def)
qed

lemma month_tsdb_total:
  assumes "sentinel_ok ss" "sc_ID ` set ms \<subseteq> keys (ss_services ss)"
  shows "\<exists>t. loadMonthlyStatusFromTSDB query ms ss = Ret t \<and> same_shape ss t"
  unfolding loadMonthlyStatusFromTSDB_def
proof (rule go_foldM_total)
  fix s m assume m: "m \<in> set ms" and s: "same_shape ss s"
  have k: "sc_ID m \<in> keys (ss_monthly ss)" using m assms(2) ok_keys [OF assms(1)] by blast
  obtain r where r: "deref (ss_monthly s) (sc_ID m) = Ret r" using k shape_keys [OF s] deref_keys by metis
  show "\<exists>s'. (case query (sc_ID m) of None \<Rightarrow> Ret s | Some ds \<Rightarrow> go_bind (deref (ss_monthly s) (sc_ID m)) (\<lambda>r.
      Ret (s\<lparr>ss_monthly := AList.update (sc_ID m) (load_tsdb_item ds r) (ss_monthly s)\<rparr>))) = Ret s' \<and> same_shape ss s'"
    using s same_shape_writes(1) [OF s k] by (cases "query (sc_ID m)") (simp_all add: r)
qed simp

lemma today_tsdb_total:
  assumes "sentinel_ok ss"
  shows "\<exists>t. loadTodayStatsTSDB query ss = Ret t \<and> same_shape ss t"
  unfolding loadTodayStatsTSDB_def
proof (rule go_foldM_total)
  fix s e assume e: "e \<in> set (ss_monthly ss)" and s: "same_shape ss s"
  let ?k = "fst e"
  have k: "?k \<in> keys (ss_monthly ss)" "?k \<in> keys (ss_today ss)"
    using e keys_mem [of ?k "snd e" "ss_monthly ss"] ok_keys [OF assms] by auto
  obtain t r where tr: "deref (ss_today s) ?k = Ret t" "deref (ss_monthly s) ?k = Ret r"
    using k shape_keys [OF s] deref_keys by metis
  show "\<exists>s'. load_today_tsdb1 query s e = Ret s' \<and> same_shape ss s'"
    using s same_shape_writes(1) [OF same_shape_writes(2) [OF s k(2)] k(1)] unfolding load_today_tsdb1_def Let_def tr go_bind.simps
    by (cases "query ?k") simp_all
qed simp

lemma today_db_total:
  assumes "sentinel_ok ss" "sh_ServiceID ` set mhs \<subseteq> keys (ss_services ss)"
  shows "\<exists>t. loadTodayStatsDB today mhs ss = Ret t \<and> same_shape ss t"
proof -
  let ?f = "\<lambda>s mh. go_bind (deref (ss_today s) (sh_ServiceID mh)) (\<lambda>t. go_bind (deref (ss_monthly s) (sh_ServiceID mh)) (\<lambda>r.
           Ret (s\<lparr>ss_today := AList.update (sh_ServiceID mh) (t\<lparr>td_Up := td_Up t + sh_Up mh, td_Down := td_Down t + sh_Down mh\<rparr>) (ss_today s),
                  ss_monthly := AList.update (sh_ServiceID mh)
                    (r\<lparr>ri_TotalUp := ri_TotalUp r + sh_Up mh, ri_TotalDown := ri_TotalDown r + sh_Down mh\<rparr>) (ss_monthly s)\<rparr>)))"
  have "\<exists>s. go_foldM ?f ss (filter (\<lambda>mh. today \<le> sh_CreatedAt mh) mhs) = Ret s \<and> same_shape ss s"
  proof (rule go_foldM_total)
    fix s mh assume mh: "mh \<in> set (filter (\<lambda>mh. today \<le> sh_CreatedAt mh) mhs)" and s: "same_shape ss s"
    let ?k = "sh_ServiceID mh"
    have k: "?k \<in> keys (ss_monthly ss)" "?k \<in> keys (ss_today ss)"
      using mh assms(2) ok_keys [OF assms(1)] by auto
    obtain t r where tr: "deref (ss_today s) ?k = Ret t" "deref (ss_monthly s) ?k = Ret r"
      using k shape_keys [OF s] deref_keys by metis
    show "\<exists>s'. ?f s mh = Ret s' \<and> same_shape ss s'"
      using same_shape_writes(1) [OF same_shape_writes(2) [OF s k(2)] k(1)] unfolding tr go_bind.simps by simp
  qed simp
  then obtain s where s: "go_foldM ?f ss (filter (\<lambda>mh. today \<le> sh_CreatedAt mh) mhs) = Ret s" "same_shape ss s" by blast
  have keys: "keys (map (\<lambda>(k, t). (k, g k t)) m) = keys m" for g and m :: "(uint64, today_stats) gomap"
    by (simp add: keys_def dom_map_of_conv_image_fst image_image case_prod_beta)
  have split: "(\<lambda>(k, t). let ds = map sh_AvgDelay (filter (\<lambda>mh. sh_ServiceID mh = k) ys) in (k, if ds = [] then t else h t ds))
      = (\<lambda>(k, t). (k, let ds = map sh_AvgDelay (filter (\<lambda>mh. sh_ServiceID mh = k) ys) in if ds = [] then t else h t ds))"
    for ys and h :: "today_stats \<Rightarrow> rat list \<Rightarrow> today_stats" by (auto simp: Let_def)
  show ?thesis using s(2) unfolding loadTodayStatsDB_def Let_def [of "filter (\<lambda>mh. today \<le> sh_CreatedAt mh) mhs"] s(1) go_bind.simps split
    by (simp add: same_shape_def keys)
qed

lemma load_service_ok: "sentinel_ok ss \<Longrightarrow> sentinel_ok (load_service e ss)"
  by (auto simp: load_service_def Let_def sentinel_ok_def certs_ok_def)

lemma Service_Update_ok: "sentinel_ok ss \<Longrightarrow> sentinel_ok (snd (snd (Service_Update job m ss)))"
  by (auto simp: Service_Update_def Let_def sentinel_ok_def certs_ok_def split: sum.split option.split intro: keysI)

text \<open>A deletion panics exactly when a number is unknown or comes twice.\<close>

lemma delete_service_step:
  "delete_service (ss, jobs) k = (case map_of (ss_services ss) k of None \<Rightarrow> Panic
     | Some s \<Rightarrow> Ret (ss\<lparr>ss_current := AList.delete k (ss_current ss), ss_data := AList.delete k (ss_data ss),
          ss_tls := AList.delete k (ss_tls ss), ss_today := AList.delete k (ss_today ss),
          ss_services := AList.delete k (ss_services ss), ss_monthly := AList.delete k (ss_monthly ss)\<rparr>, jobs @ [sc_CronJobID s]))"
  by (simp add: delete_service_def Let_def deref_def split: option.split)

lemma Service_Delete_cases:
  "if distinct ids \<and> set ids \<subseteq> keys (ss_services ss)
   then \<exists>t js. go_foldM delete_service (ss, jobs) ids = Ret (t, js) \<and> keys (ss_services t) = keys (ss_services ss) - set ids
   else go_foldM delete_service (ss, jobs) ids = Panic"
proof (induction ids arbitrary: ss jobs)
  case (Cons k ids)
  show ?case
  proof (cases "map_of (ss_services ss) k")
    case None
    then have "k \<notin> keys (ss_services ss)" by (auto elim: keysE)
    then show ?thesis using None by (simp add: delete_service_step)
  next
    case (Some s)
    let ?t = "ss\<lparr>ss_current := AList.delete k (ss_current ss), ss_data := AList.delete k (ss_data ss),
          ss_tls := AList.delete k (ss_tls ss), ss_today := AList.delete k (ss_today ss),
          ss_services := AList.delete k (ss_services ss), ss_monthly := AList.delete k (ss_monthly ss)\<rparr>"
    have k: "k \<in> keys (ss_services ss)" using Some by (rule keysI)
    have iff: "(distinct (k # ids) \<and> set (k # ids) \<subseteq> keys (ss_services ss)) = (distinct ids \<and> set ids \<subseteq> keys (ss_services ?t))"
      using k by auto
    have dif: "keys (ss_services ?t) - set ids = keys (ss_services ss) - set (k # ids)" by auto
    show ?thesis using Cons.IH [of ?t "jobs @ [sc_CronJobID s]"]
      unfolding iff dif go_foldM.simps delete_service_step Some option.case go_bind.simps .
  qed
qed simp

lemma Service_Delete_ok:
  assumes "sentinel_ok ss" "Service_Delete ids ss = Ret (t, js)"
  shows "sentinel_ok t"
proof -
  have "sentinel_ok (fst (t, js))"
  proof (rule go_foldM_invariant [where P = "\<lambda>a. sentinel_ok (fst a)"])
    show "go_foldM delete_service (ss, []) ids = Ret (t, js)" using assms(2) by (simp add: Service_Delete_def)
    show "sentinel_ok (fst (ss, []))" using assms(1) by simp
    fix a k a' assume "sentinel_ok (fst a)" "delete_service a k = Ret a'"
    then show "sentinel_ok (fst a')"
      by (cases a) (auto simp: delete_service_step sentinel_ok_def certs_ok_def gomap_simps split: option.splits if_splits)
  qed
  then show ?thesis by simp
qed

lemma ping_step_shape: "same_shape ss (fst (ping_step w rep mh ss))"
  using same_shape_writes(5) [OF same_shape_refl] ping_step_frame(1) by metis

lemma update_tables_total:
  assumes "sentinel_ok ss" "tr_Id mh \<in> keys (ss_services ss)"
  shows "\<exists>t code ev. update_tables w mh ss = Ret (t, code, ev) \<and> same_shape ss t"
proof -
  have k: "tr_Id mh \<in> keys (ss_today ss)" "tr_Id mh \<in> keys (ss_current ss)" "tr_Id mh \<in> keys (ss_monthly ss)"
    using assms(2) ok_keys [OF assms(1)] by blast+
  obtain v st where d: "deref (ss_today ss) (tr_Id mh) = Ret v" "deref (ss_current ss) (tr_Id mh) = Ret st"
    using k deref_keys by metis
  show ?thesis unfolding update_tables_def d go_bind.simps Let_def
    using same_shape_writes(4) [OF same_shape_writes(3) [OF same_shape_writes(2) [OF same_shape_refl k(1)] k(2)] k(3)] by simp
qed

lemma checks_total:
  assumes "rep \<in> keys (we_servers w)"
  shows "\<exists>ev. delayCheck w rep cs mh = Ret ev" "\<exists>ev. notifyCheck w rep cs mh old code = Ret ev"
  using deref_keys [OF assms] by (auto simp: delayCheck_def notifyCheck_def Let_def simp del: deref_Ret)

lemma digest_total:
  assumes "sentinel_ok ss" "tr_Id mh \<in> keys (ss_services ss)" "rep \<in> keys (we_servers w)"
  shows "\<exists>t ev. digest_report w rep mh ss = Ret (t, ev) \<and> same_shape ss t"
proof -
  obtain s code ev1 where upd: "update_tables w mh ss = Ret (s, code, ev1)" and s: "same_shape ss s"
    using update_tables_total [OF assms(1,2)] by blast
  obtain cs where cs: "map_of (ss_services s) (tr_Id mh) = Some cs" using assms(2) shape_keys [OF s] by (metis keysE)
  have k: "tr_Id mh \<in> keys (ss_current ss)" using assms(2) ok_keys [OF assms(1)] by blast
  let ?old = "sk_lastStatus (get_or no_status (ss_current s) (tr_Id mh))"
  obtain ev2 ev3 where ev: "delayCheck w rep cs mh = Ret ev2" "notifyCheck w rep cs mh ?old code = Ret ev3"
    using checks_total [OF assms(3)] by meson
  have "same_shape ss (s\<lparr>ss_current := AList.update (tr_Id mh) c (ss_current s)\<rparr>)" for c
    using same_shape_writes(3) [OF s k] .
  then show ?thesis using s unfolding digest_report_def upd go_bind.simps prod.case Let_def cs option.case ev by simp
qed

lemma tls_total:
  assumes "certs_ok ss"
  shows "\<exists>t ev. tls_step w (Some cs) mh ss = Ret (t, ev) \<and> certs_ok t"
proof -
  let ?k = "tr_Id mh" and ?d = "tr_Data mh"
  define c1 where "c1 = (if get_or [] (ss_tls ss) ?k = [] then AList.update ?k ?d (ss_tls ss) else ss_tls ss)"
  show ?thesis
  proof (cases "\<not> HasPrefix ?d SSL_ERROR \<and> 1 < length (go_split (CHR ''|'') ?d)")
    case True
    have ok1: "\<forall>k d. map_of c1 k = Some d \<longrightarrow> 1 < length (go_split (CHR ''|'') d)"
      using assms True by (auto simp: c1_def certs_ok_def gomap_simps)
    have "\<exists>d. map_of c1 ?k = Some d" by (auto simp: c1_def gomap_simps get_or_def split: option.splits)
    then obtain d where d: "map_of c1 ?k = Some d" and get: "get_or [] c1 ?k = d" by (auto simp: get_or_def)
    have i: "index (go_split (CHR ''|'') d) 1 = Ret (go_split (CHR ''|'') d ! 1)" using ok1 d by (simp add: index_def)
    have two: "certs_ok (ss\<lparr>ss_tls := c1\<rparr>)" "certs_ok (ss\<lparr>ss_tls := AList.update ?k ?d c1\<rparr>)"
      using ok1 True by (auto simp: certs_ok_def gomap_simps)
    have "HasPrefix ?d SSL_ERROR = False" "(1 < length (go_split (CHR ''|'') ?d)) = True" using True by auto
    then show ?thesis unfolding tls_step_def Let_def c1_def [symmetric] get i option.case go_bind.simps
      using two by (auto split: if_splits)
  next
    case False
    then show ?thesis using False assms unfolding tls_step_def Let_def by (auto split: if_splits)
  qed
qed

lemma worker_report_total:
  assumes "sentinel_ok ss" "rep \<in> keys (we_servers w)"
  shows "\<exists>t ev. worker_report w rep mh ss = Ret (t, ev) \<and> sentinel_ok t"
proof (cases "check_report ss mh")
  case True
  then have k: "tr_Id mh \<in> keys (ss_services ss)" by (auto simp: check_report_def split: option.splits intro: keysI)
  obtain s1 ev1 where p: "ping_step w rep mh ss = (s1, ev1)" by fastforce
  have sh1: "same_shape ss s1" using ping_step_shape [of ss w rep mh] p by simp
  have ok1: "sentinel_ok s1" using sh1 assms(1) by (rule same_shape_ok)
  have k1: "tr_Id mh \<in> keys (ss_services s1)" using k shape_keys [OF sh1] by simp
  obtain s2 ev2 where d: "digest_report w rep mh s1 = Ret (s2, ev2)" and sh2: "same_shape s1 s2"
    using digest_total [OF ok1 k1 assms(2)] by blast
  have ok2: "sentinel_ok s2" using sh2 ok1 by (rule same_shape_ok)
  obtain cs where cs: "map_of (ss_services s1) (tr_Id mh) = Some cs" using k1 by (rule keysE)
  obtain s3 ev3 where t: "tls_step w (Some cs) mh s2 = Ret (s3, ev3)" "certs_ok s3"
    using tls_total [of s2 w cs mh] ok2 by (auto simp: sentinel_ok_def)
  have "same_shape (s2\<lparr>ss_tls := ss_tls s3\<rparr>) s3" using tls_step_frame(1) [OF t(1)] by (metis same_shape_refl)
  moreover have "sentinel_ok (s2\<lparr>ss_tls := ss_tls s3\<rparr>)" using ok2 t(2) by (simp add: sentinel_ok_def certs_ok_def)
  ultimately have "sentinel_ok s3" by (rule same_shape_ok)
  then show ?thesis using True by (simp add: worker_report_def p d cs t)
qed (use assms in \<open>simp add: worker_report_def\<close>)

lemma sentinel_step_total:
  assumes "sentinel_ok ss" "op_ok oper ss"
  shows "\<exists>t. sentinel_step oper ss = Ret t \<and> sentinel_ok t"
proof (cases oper)
  case (OpUpdate job m)
  then show ?thesis using Service_Update_ok [OF assms(1)] by simp
next
  case (OpDelete ids)
  then have "distinct ids \<and> set ids \<subseteq> keys (ss_services ss)" using assms(2) by (simp add: keys_def)
  then obtain t js where "Service_Delete ids ss = Ret (t, js)"
    using Service_Delete_cases [of ids ss "[]"] by (auto simp: Service_Delete_def)
  then show ?thesis using Service_Delete_ok [OF assms(1)] OpDelete by simp
next
  case (OpReport w rep mh)
  then show ?thesis using worker_report_total [OF assms(1), of rep w mh] assms(2) by (auto simp: keys_def)
next
  case OpLoadStats
  then show ?thesis using LoadStats_total [OF assms(1)] same_shape_ok assms(1) by (metis sentinel_step.simps(4))
next
  case OpCopyStats
  then show ?thesis using LoadStats_total [OF assms(1)] same_shape_ok assms(1) by (auto simp: CopyStats_def)
next
  case OpRefresh
  then show ?thesis using refresh_total [OF assms(1)] same_shape_ok assms(1) by (metis sentinel_step.simps(6))
next
  case OpList
  then show ?thesis using assms(1) by (simp add: UpdateServiceList_def sentinel_ok_def certs_ok_def)
next
  case (OpMonthDB today mhs)
  then show ?thesis using same_shape_ok [OF month_db_shape assms(1)] by simp
next
  case (OpMonthTSDB query ms)
  then show ?thesis using month_tsdb_total [OF assms(1), of ms query] assms(2) same_shape_ok assms(1) by (auto simp: keys_def)
next
  case (OpTodayDB today mhs)
  then show ?thesis using today_db_total [OF assms(1), of mhs today] assms(2) same_shape_ok assms(1) by (auto simp: keys_def)
next
  case (OpTodayTSDB query)
  then show ?thesis using today_tsdb_total [OF assms(1), of query] same_shape_ok assms(1) by auto
qed

lemma sentinel_reach_ok: "sentinel_reach ss \<Longrightarrow> sentinel_ok ss"
proof (induction rule: sentinel_reach.induct)
  case start
  show ?case by (simp add: sentinel_ok_def certs_ok_def no_sentinel_def)
next
  case (load ss e)
  show ?case using load.IH by (rule load_service_ok)
next
  case (step ss oper ss')
  then show ?case using sentinel_step_total by fastforce
qed


subsection \<open>Deletions that panic\<close>

text \<open>A deletion panics exactly when it names an unknown service or one service twice; the permission check before it
  passes every list of unknown services.\<close>

lemma service_delete_panics:
  "(Service_Delete ids ss = Panic \<longleftrightarrow> \<not> (distinct ids \<and> set ids \<subseteq> dom (map_of (ss_services ss)))) \<and>
   (set ids \<inter> dom (map_of (ss_services ss)) = {} \<longrightarrow> Service_CheckPermission auth ids ss)"
proof -
  have "Service_Delete ids ss = Panic \<longleftrightarrow> \<not> (distinct ids \<and> set ids \<subseteq> keys (ss_services ss))"
    using Service_Delete_cases [of ids ss "[]"] by (auto simp: Service_Delete_def split: if_splits)
  then show ?thesis by (auto simp: Service_CheckPermission_def keys_def split: option.split)
qed

text \<open>The worker looks a service up before it takes the lock of the tables. When the service is deleted in between, the
  rest of the iteration panics; had the check come after the deletion, the report would have been skipped.\<close>

lemma report_of_deleted_service_panics:
  assumes "Service_Delete ids ss = Ret (ss', js)" and "tr_Id mh \<in> set ids"
  shows "digest_report w rep mh (fst (ping_step w rep mh ss')) = Panic \<and> worker_report w rep mh ss' = Ret (ss', [])"
proof -
  have "keys (ss_services ss') = keys (ss_services ss) - set ids"
    using Service_Delete_cases [of ids ss "[]"] assms(1) by (auto simp: Service_Delete_def split: if_splits)
  then have "map_of (ss_services ss') (tr_Id mh) = None" using assms(2) by (metis DiffD2 domIff keys_def)
  then have "\<not> check_report ss' mh" by (simp add: check_report_def)
  moreover
  have "tr_Id mh \<notin> keys (ss_today (fst (ss', js)))"
  proof -
    have "k \<in> set ids \<Longrightarrow> go_foldM delete_service a ids = Ret a' \<Longrightarrow> k \<notin> keys (ss_today (fst a'))" for k a a'
    proof (induction ids arbitrary: a)
      case (Cons j ids)
      obtain b where b: "delete_service a j = Ret b" "go_foldM delete_service b ids = Ret a'"
        using Cons.prems(2) by (auto simp: go_bind_Ret_iff)
      show ?case
      proof (cases "k \<in> set ids")
        case False
        have "j \<notin> keys (ss_today (fst b))"
          using b(1) by (cases a) (auto simp: delete_service_step split: option.splits)
        moreover have "keys (ss_today (fst a')) \<subseteq> keys (ss_today (fst b))"
          by (rule go_foldM_invariant [OF b(2), where P = "\<lambda>x. keys (ss_today (fst x)) \<subseteq> keys (ss_today (fst b))"])
            (force simp: delete_service_step split: option.splits)+
        ultimately show ?thesis using False Cons.prems(1) by auto
      qed (use Cons.IH b in blast)
    qed simp
    then show ?thesis using assms unfolding Service_Delete_def by blast
  qed
  ultimately have "\<not> check_report ss' mh" "map_of (ss_today (fst (ping_step w rep mh ss'))) (tr_Id mh) = None"
    using shape_keys(3) [OF ping_step_shape [of ss' w rep mh]] by (simp_all, metis domIff keys_def)
  then show ?thesis by (simp add: digest_report_def update_tables_def Let_def deref_def worker_report_def)
qed

end
