(* ===== verification/Service_Totals.thy ===== *)
theory Service_Totals
  imports Service_Tables
begin

text \<open>
  The totals of the month: they are meant to be the sums of the thirty days. What a total has beyond its sum never
  changes once the sentinel runs, and loading the statistics of the day at the start puts that day there.
\<close>

definition month_ok :: "response_item \<Rightarrow> bool" where
  "month_ok r \<longleftrightarrow> length (ri_Up r) = 30 \<and> length (ri_Down r) = 30"

definition excess :: "response_item \<Rightarrow> uint64 \<times> uint64" where
  "excess r = (ri_TotalUp r - sum_list (ri_Up r), ri_TotalDown r - sum_list (ri_Down r))"

lemma sum_list_set_word:
  "i < length xs \<Longrightarrow> sum_list (xs[i := x]) = sum_list xs - xs ! i + (x :: uint64)"
  by (induction xs arbitrary: i) (auto simp: nth_Cons split: nat.split)

lemma sum_list_shift_word: "xs \<noteq> [] \<Longrightarrow> sum_list (tl xs @ [0]) = sum_list xs - (xs ! 0 :: uint64)"
  by (cases xs) auto

lemma month_steps:
  assumes "month_ok r"
  shows "month_ok (load_item v s r) \<and> excess (load_item v s r) = excess r"
    and "month_ok (shift_item r) \<and> excess (shift_item r) = excess r"
    and "month_ok (r\<lparr>ri_CurrentDown := d, ri_CurrentUp := u\<rparr>) \<and> excess (r\<lparr>ri_CurrentDown := d, ri_CurrentUp := u\<rparr>) = excess r"
proof -
  have ne: "ri_Up r \<noteq> []" "ri_Down r \<noteq> []" using assms by (auto simp: month_ok_def)
  show "month_ok (load_item v s r) \<and> excess (load_item v s r) = excess r"
    using assms by (simp add: month_ok_def excess_def load_item_def sum_list_set_word)
  show "month_ok (shift_item r) \<and> excess (shift_item r) = excess r"
    using assms sum_list_shift_word [OF ne(1)] sum_list_shift_word [OF ne(2)]
    by (simp add: month_ok_def excess_def shift_item_def)
  show "month_ok (r\<lparr>ri_CurrentDown := d, ri_CurrentUp := u\<rparr>) \<and> excess (r\<lparr>ri_CurrentDown := d, ri_CurrentUp := u\<rparr>) = excess r"
    using assms by (simp add: month_ok_def excess_def)
qed

definition month_excess :: "uint64 \<Rightarrow> uint64 \<times> uint64 \<Rightarrow> (uint64, response_item) gomap \<Rightarrow> bool" where
  "month_excess k e ms \<longleftrightarrow> gomap_ok ms \<and> (\<exists>r. map_of ms k = Some r \<and> month_ok r \<and> excess r = e)"

lemma month_excess_write:
  assumes "month_excess k e ms" and "\<And>r0. j = k \<Longrightarrow> map_of ms k = Some r0 \<Longrightarrow> month_ok r0 \<Longrightarrow> month_ok r \<and> excess r = excess r0"
  shows "month_excess k e (AList.update j r ms)"
  using assms by (auto simp: month_excess_def gomap_simps)

lemma LoadStats_excess:
  assumes "LoadStats ss = Ret t" and "month_excess k e (ss_monthly ss)"
  shows "month_excess k e (ss_monthly t)" "t = ss\<lparr>ss_monthly := ss_monthly t\<rparr>"
proof -
  obtain m1 m2 where m1: "go_foldM (\<lambda>m (k, s). go_bind (deref m k) (\<lambda>r. go_bind (deref (ss_today ss) k) (\<lambda>v.
         Ret (AList.update k (load_item v s r) m)))) (ss_monthly ss) (ss_services ss) = Ret m1"
    and m2: "go_foldM (\<lambda>m (k, v). go_bind (deref m k) (\<lambda>r.
         Ret (AList.update k (r\<lparr>ri_CurrentDown := td_Down v, ri_CurrentUp := td_Up v\<rparr>) m))) m1 (ss_data ss) = Ret m2"
    and t: "t = ss\<lparr>ss_monthly := m2\<rparr>" using assms(1) by (auto simp: LoadStats_def go_bind_Ret_iff)
  have "month_excess k e m1"
    by (rule go_foldM_invariant [OF m1, where P = "month_excess k e"])
      (use assms(2) in \<open>auto simp: go_bind_Ret_iff simp: month_steps intro!: month_excess_write\<close>)
  then have "month_excess k e m2"
    by (rule go_foldM_invariant [OF m2, where P = "month_excess k e"])
      (auto simp: go_bind_Ret_iff simp: month_steps intro!: month_excess_write)
  then show "month_excess k e (ss_monthly t)" "t = ss\<lparr>ss_monthly := ss_monthly t\<rparr>" by (simp_all add: t)
qed

lemma refresh_excess:
  assumes "refreshMonthlyServiceStatus ss = Ret t" and "month_excess k e (ss_monthly ss)"
  shows "month_excess k e (ss_monthly t)" "ss_services t = ss_services ss"
proof -
  let ?f = "\<lambda>s (k, r). go_bind (deref (ss_today s) k) (\<lambda>v.
       Ret (s\<lparr>ss_monthly := AList.update k (shift_item r) (ss_monthly s), ss_data := AList.update k no_today (ss_data s),
              ss_today := AList.update k (v\<lparr>td_Delay := 0, td_Up := 0, td_Down := 0\<rparr>) (ss_today s)\<rparr>))"
  obtain s0 where s0: "LoadStats ss = Ret s0" and f: "go_foldM ?f s0 (ss_monthly s0) = Ret t"
    using assms(1) by (auto simp: refreshMonthlyServiceStatus_def go_bind_Ret_iff)
  have ex: "month_excess k e (ss_monthly s0)" using LoadStats_excess(1) [OF s0 assms(2)] .
  then obtain r0 where r0: "map_of (ss_monthly s0) k = Some r0" "month_ok r0" "excess r0 = e" and g: "gomap_ok (ss_monthly s0)"
    by (auto simp: month_excess_def)
  have "month_excess k e (ss_monthly t) \<and> ss_services t = ss_services s0"
  proof (rule go_foldM_invariant [OF f])
    show "month_excess k e (ss_monthly s0) \<and> ss_services s0 = ss_services s0" using ex by simp
    fix s x s' assume x: "x \<in> set (ss_monthly s0)" and s: "month_excess k e (ss_monthly s) \<and> ss_services s = ss_services s0"
      and step: "?f s x = Ret s'"
    obtain j r where jr: "x = (j, r)" by (cases x)
    have "month_ok (shift_item r) \<and> excess (shift_item r) = e" if "j = k"
      using x jr that gomap_ok_lookup [OF g, of k r] r0 month_steps(2) [of r] by auto
    then show "month_excess k e (ss_monthly s') \<and> ss_services s' = ss_services s0"
      using s step by (auto simp: jr go_bind_Ret_iff month_excess_def gomap_simps)
  qed
  moreover have "ss_services s0 = ss_services ss" using LoadStats_excess(2) [OF s0 assms(2)]
    by (metis sentinel.ext_inject sentinel.surjective sentinel.update_convs(8))
  ultimately show "month_excess k e (ss_monthly t)" "ss_services t = ss_services ss" by auto
qed

lemma worker_report_frame:
  assumes "worker_report w rep mh ss = Ret (t, ev)"
  shows "ss_monthly t = ss_monthly ss \<and> ss_services t = ss_services ss"
proof (cases "check_report ss mh")
  case True
  obtain s1 ev1 where p: "ping_step w rep mh ss = (s1, ev1)" by fastforce
  obtain s2 ev2 ev3 where d: "digest_report w rep mh s1 = Ret (s2, ev2)"
    and t: "tls_step w (map_of (ss_services s1) (tr_Id mh)) mh s2 = Ret (t, ev3)"
    using assms True p by (auto simp: worker_report_def Let_def go_bind_Ret_iff)
  have "ss_monthly s1 = ss_monthly ss \<and> ss_services s1 = ss_services ss"
    using p by (auto simp: ping_step_def Let_def split: if_splits)
  moreover have "ss_monthly s2 = ss_monthly s1 \<and> ss_services s2 = ss_services s1"
  proof -
    obtain s code ev where upd: "update_tables w mh s1 = Ret (s, code, ev)"
      and s2: "s2 = (if changed_status mh s code then s\<lparr>ss_current := AList.update (tr_Id mh)
        ((current_of s (tr_Id mh))\<lparr>sk_lastStatus := code\<rparr>) (ss_current s)\<rparr> else s)"
      using digest_report_Ret [OF d, of 0] by blast
    have "ss_monthly s = ss_monthly s1 \<and> ss_services s = ss_services s1"
      using upd by (rule update_tables_Ret) simp
    then show ?thesis by (simp add: s2)
  qed
  moreover have "ss_monthly t = ss_monthly s2 \<and> ss_services t = ss_services s2"
    using t by (auto simp: tls_step_def Let_def go_bind_Ret_iff split: if_splits option.splits)
  ultimately show ?thesis by simp
qed (use assms in \<open>simp add: worker_report_def\<close>)

text \<open>The operations while the sentinel runs, short of deleting service \<open>k\<close>.\<close>

fun running_op :: "uint64 \<Rightarrow> sentinel_op \<Rightarrow> bool" where
  "running_op k (OpDelete ids) \<longleftrightarrow> k \<notin> set ids" |
  "running_op k (OpMonthDB _ _) \<longleftrightarrow> False" |
  "running_op k (OpMonthTSDB _ _) \<longleftrightarrow> False" |
  "running_op k (OpTodayDB _ _) \<longleftrightarrow> False" |
  "running_op k (OpTodayTSDB _) \<longleftrightarrow> False" |
  "running_op k _ \<longleftrightarrow> True"

definition keeps_excess :: "uint64 \<Rightarrow> uint64 \<times> uint64 \<Rightarrow> sentinel \<Rightarrow> bool" where
  "keeps_excess k e ss \<longleftrightarrow> month_excess k e (ss_monthly ss) \<and> k \<in> keys (ss_services ss)"

lemma running_op_excess:
  assumes "sentinel_step oper ss = Ret t" "running_op k oper" "keeps_excess k e ss"
  shows "keeps_excess k e t"
proof (cases oper)
  case (OpUpdate job m)
  then have t: "t = snd (snd (Service_Update job m ss))" using assms(1) by simp
  show ?thesis using assms(3)
    by (auto simp: t keeps_excess_def Service_Update_def Let_def split: sum.split option.split
        intro!: month_excess_write elim!: keysE)
next
  case (OpDelete ids)
  then obtain js where d: "go_foldM delete_service (ss, []) ids = Ret (t, js)" and k: "k \<notin> set ids"
    using assms(1,2) by (auto simp: go_bind_Ret_iff Service_Delete_def)
  have "keeps_excess k e (fst (t, js))"
  proof (rule go_foldM_invariant [OF d])
    show "keeps_excess k e (fst (ss, []))" using assms(3) by simp
    fix a j a' assume "j \<in> set ids" "keeps_excess k e (fst a)" "delete_service a j = Ret a'"
    then show "keeps_excess k e (fst a')" using k
      by (cases a) (auto simp: delete_service_step keeps_excess_def month_excess_def gomap_simps split: option.splits)
  qed
  then show ?thesis by simp
next
  case (OpReport w rep mh)
  then show ?thesis using assms(1,3) worker_report_frame by (fastforce simp: keeps_excess_def go_bind_Ret_iff)
next
  case OpLoadStats
  then show ?thesis using assms(1,3) LoadStats_excess [of ss t k e] unfolding keeps_excess_def
    by (metis sentinel.ext_inject sentinel.surjective sentinel.update_convs(8) sentinel_step.simps(4))
next
  case OpCopyStats
  then have "LoadStats ss = Ret t" using assms(1) by (auto simp: CopyStats_def go_bind_Ret_iff)
  then show ?thesis using assms(3) LoadStats_excess [of ss t k e] unfolding keeps_excess_def
    by (metis sentinel.ext_inject sentinel.surjective sentinel.update_convs(8))
next
  case OpRefresh
  then show ?thesis using assms(1,3) refresh_excess [of ss t k e] by (simp add: keeps_excess_def)
next
  case OpList
  then show ?thesis using assms(1,3) by (auto simp: UpdateServiceList_def keeps_excess_def)
qed (use assms(2) in auto)

lemma running_ops_excess:
  assumes "go_foldM (\<lambda>s oper. sentinel_step oper s) ss opers = Ret t" "\<forall>oper \<in> set opers. running_op k oper" "keeps_excess k e ss"
  shows "keeps_excess k e t"
  by (rule go_foldM_invariant [OF assms(1), where P = "keeps_excess k e"]) (use assms(2,3) running_op_excess in blast)+

subsection \<open>What the start adds\<close>

lemma load_today_tsdb1_Ret:
  assumes "load_today_tsdb1 query s (j, m) = Ret s1"
  shows "ss_services s1 = ss_services s"
    and "query j = None \<Longrightarrow> s1 = s"
    and "query j = Some qs \<Longrightarrow> \<exists>r. map_of (ss_monthly s) j = Some r \<and> ss_monthly s1 = AList.update j
      (r\<lparr>ri_TotalUp := ri_TotalUp r + sum_list (map fst qs), ri_TotalDown := ri_TotalDown r + sum_list (map (fst \<circ> snd) qs)\<rparr>) (ss_monthly s)"
  using assms by (auto simp: load_today_tsdb1_def Let_def go_bind_Ret_iff split: option.splits)

lemma load_today_tsdb1_excess:
  assumes "load_today_tsdb1 query s (j, m) = Ret s1" and "month_excess k (a, b) (ss_monthly s)" and "query k = Some rs"
  shows "month_excess k (if j = k then (a + sum_list (map fst rs), b + sum_list (map (fst \<circ> snd) rs)) else (a, b)) (ss_monthly s1)"
proof (cases "query j")
  case None
  then show ?thesis using load_today_tsdb1_Ret(2) [OF assms(1)] assms(2,3) by auto
next
  case (Some qs)
  obtain r where "map_of (ss_monthly s) j = Some r" "ss_monthly s1 = AList.update j (r\<lparr>ri_TotalUp := ri_TotalUp r + sum_list (map fst qs),
      ri_TotalDown := ri_TotalDown r + sum_list (map (fst \<circ> snd) qs)\<rparr>) (ss_monthly s)"
    using load_today_tsdb1_Ret(3) [OF assms(1) Some] by blast
  then show ?thesis using assms(2,3) Some
    by (auto simp: month_excess_def gomap_simps month_ok_def excess_def)
qed

lemma today_tsdb_excess:
  assumes "go_foldM (load_today_tsdb1 query) s xs = Ret t" and "distinct (map fst xs)"
    and "month_excess k (a, b) (ss_monthly s)" and "query k = Some rs"
  shows "month_excess k (if k \<in> fst ` set xs then (a + sum_list (map fst rs), b + sum_list (map (fst \<circ> snd) rs)) else (a, b)) (ss_monthly t)
    \<and> ss_services t = ss_services s"
  using assms
proof (induction xs arbitrary: s a b)
  case (Cons x xs)
  obtain j m where x: "x = (j, m)" by (cases x)
  obtain s1 where s1: "load_today_tsdb1 query s (j, m) = Ret s1" and rest: "go_foldM (load_today_tsdb1 query) s1 xs = Ret t"
    using Cons.prems(1) by (auto simp: x go_bind_Ret_iff)
  note one = load_today_tsdb1_excess [OF s1 Cons.prems(3,4)] load_today_tsdb1_Ret(1) [OF s1]
  show ?case
  proof (cases "j = k")
    case True
    then have "k \<notin> fst ` set xs" using Cons.prems(2) by (auto simp: x)
    then show ?thesis using Cons.IH [OF rest, of "a + sum_list (map fst rs)" "b + sum_list (map (fst \<circ> snd) rs)"] Cons.prems(2,4) one True
      by (simp add: x)
  next
    case False
    then show ?thesis using Cons.IH [OF rest, of a b] Cons.prems(2,4) one by (simp add: x)
  qed
qed simp

text \<open>When the month of a service is loaded exactly, the statistics of the day that the time-series database adds at the
  start stay counted twice in its totals, whatever the sentinel does afterwards short of deleting the service.\<close>

lemma restart_counts_today_twice:
  assumes "gomap_ok (ss_monthly ss)" and "map_of (ss_monthly ss) k = Some r" and "month_ok r" and "excess r = (0, 0)"
    and "k \<in> dom (map_of (ss_services ss))" and "query k = Some rs" and "loadTodayStatsTSDB query ss = Ret ss1"
    and "go_foldM (\<lambda>s oper. sentinel_step oper s) ss1 opers = Ret ss2" and "\<forall>oper \<in> set opers. running_op k oper"
  shows "\<exists>r2. map_of (ss_monthly ss2) k = Some r2 \<and> ri_TotalUp r2 = sum_list (ri_Up r2) + sum_list (map fst rs)
    \<and> ri_TotalDown r2 = sum_list (ri_Down r2) + sum_list (map (fst \<circ> snd) rs)"
proof -
  let ?e = "(sum_list (map fst rs), sum_list (map (fst \<circ> snd) rs))"
  have "month_excess k (0, 0) (ss_monthly ss)" using assms(1-4) by (auto simp: month_excess_def)
  moreover have "k \<in> fst ` set (ss_monthly ss)" using assms(2) by (metis domI dom_map_of_conv_image_fst)
  ultimately have "month_excess k ?e (ss_monthly ss1) \<and> ss_services ss1 = ss_services ss"
    using today_tsdb_excess [OF assms(7) [unfolded loadTodayStatsTSDB_def], of k 0 0 rs] assms(1,6)
    by (simp add: gomap_ok_def)
  then have "keeps_excess k ?e ss1" using assms(5) by (simp add: keeps_excess_def keys_def)
  then have "keeps_excess k ?e ss2" using running_ops_excess assms(8,9) by blast
  then obtain r2 where "map_of (ss_monthly ss2) k = Some r2" "excess r2 = ?e" by (auto simp: keeps_excess_def month_excess_def)
  then show ?thesis by (auto simp: excess_def diff_eq_eq add.commute)
qed

subsection \<open>Inputs\<close>

definition demo_service :: "uint64 \<Rightarrow> service" where
  "demo_service k = \<lparr>sc_ID = k, sc_UserID = 1, sc_Name = ''web'', sc_Type = 1, sc_Target = ''example.org'', sc_Duration = 30,
     sc_DisplayIndex = 0, sc_Notify = True, sc_NotificationGroupID = 1, sc_Cover = 0, sc_EnableTriggerTask = False,
     sc_EnableShowInService = True, sc_FailTriggerTasks = [], sc_RecoverTriggerTasks = [], sc_MinLatency = 0, sc_MaxLatency = 100,
     sc_LatencyNotify = False, sc_SkipServers = [], sc_CronJobID = 0\<rparr>"

definition demo_sentinel :: sentinel where
  "demo_sentinel = load_service (demo_service 1, 7) no_sentinel"

definition demo_result :: "bool \<Rightarrow> task_result" where
  "demo_result ok = \<lparr>tr_Id = 1, tr_Type = TaskTypeTCPPing, tr_Delay = 10, tr_Data = [], tr_Successful = ok\<rparr>"

definition demo_env :: "int \<Rightarrow> worker_env" where
  "demo_env t = \<lparr>we_now = t, we_tsdb = True, we_AvgPingCount = 2, we_servers = [(5, init_server 5 1 ''s'' ''u'')], we_T = id,
     we_Tf = (\<lambda>f xs. f), we_ff = (\<lambda>_. []), we_parse = (\<lambda>_. 0), we_show = (\<lambda>_. [])\<rparr>"

lemmas demo_defs = demo_service_def demo_sentinel_def demo_result_def demo_env_def load_service_def CronSpec_def
  no_sentinel_def no_status_def no_today_def no_ping_def new_item_def

lemma demo_sentinel: "demo_sentinel = \<lparr>ss_today = [(1, no_today)], ss_current = [(1, no_status)], ss_data = [], ss_ping = [],
    ss_tls = [], ss_services = [(1, (demo_service 1)\<lparr>sc_CronJobID := 7\<rparr>)], ss_list = [],
    ss_monthly = [(1, new_item ((demo_service 1)\<lparr>sc_CronJobID := 7\<rparr>))]\<rparr>"
  by (simp add: demo_defs Let_def)

lemma demo_ok: "sentinel_ok demo_sentinel"
  unfolding demo_sentinel_def by (rule load_service_ok) (simp add: sentinel_ok_def certs_ok_def no_sentinel_def)

lemma restart_counts_today_twice_witness:
  "\<exists>ss1 ss2 r2. loadTodayStatsTSDB (\<lambda>k. Some [(5, 3, 0)]) demo_sentinel = Ret ss1 \<and> sentinel_step OpLoadStats ss1 = Ret ss2 \<and>
     map_of (ss_monthly ss2) 1 = Some r2 \<and> ri_TotalUp r2 = sum_list (ri_Up r2) + 5"
proof -
  obtain ss1 where ss1: "loadTodayStatsTSDB (\<lambda>k. Some [(5, 3, 0)]) demo_sentinel = Ret ss1" "same_shape demo_sentinel ss1"
    using today_tsdb_total [OF demo_ok] by blast
  obtain ss2 where ss2: "sentinel_step OpLoadStats ss1 = Ret ss2"
    using LoadStats_total [OF same_shape_ok [OF ss1(2) demo_ok]] by auto
  have "\<exists>r2. map_of (ss_monthly ss2) 1 = Some r2 \<and> ri_TotalUp r2 = sum_list (ri_Up r2) + sum_list (map fst [(5 :: uint64, 3 :: uint64, 0 :: float64)])
    \<and> ri_TotalDown r2 = sum_list (ri_Down r2) + sum_list (map (fst \<circ> snd) [(5 :: uint64, 3 :: uint64, 0 :: float64)])"
  proof (rule restart_counts_today_twice [OF _ _ _ _ _ _ ss1(1), where opers = "[OpLoadStats]"])
    show "gomap_ok (ss_monthly demo_sentinel)" by (simp add: demo_sentinel gomap_ok_def)
    show "map_of (ss_monthly demo_sentinel) 1 = Some (new_item ((demo_service 1)\<lparr>sc_CronJobID := 7\<rparr>))" by (simp add: demo_sentinel)
    show "month_ok (new_item ((demo_service 1)\<lparr>sc_CronJobID := 7\<rparr>))" by (simp add: month_ok_def new_item_def)
    show "excess (new_item ((demo_service 1)\<lparr>sc_CronJobID := 7\<rparr>)) = (0, 0)" by (simp add: excess_def new_item_def sum_list_replicate)
    show "1 \<in> dom (map_of (ss_services demo_sentinel))" by (simp add: demo_sentinel)
  qed (use ss2 in auto)
  then show ?thesis using ss1(1) ss2 by auto
qed

theorem report_of_deleted_service_panics_witness:
  "\<exists>ss' js. Service_Delete [1] demo_sentinel = Ret (ss', js) \<and>
     digest_report (demo_env 0) 5 (demo_result True) (fst (ping_step (demo_env 0) 5 (demo_result True) ss')) = Panic"
proof -
  obtain ss' js where d: "Service_Delete [1] demo_sentinel = Ret (ss', js)"
    by (simp add: Service_Delete_def delete_service_step demo_sentinel)
  show ?thesis using d report_of_deleted_service_panics [OF d, of "demo_result True" "demo_env 0" 5] by (auto simp: demo_result_def)
qed


theorem service_delete_panics_witness:
  "Service_Delete [1, 2] demo_sentinel = Panic \<and> Service_CheckPermission None [2] demo_sentinel"
  using service_delete_panics [of "[1, 2]" demo_sentinel None] service_delete_panics [of "[2]" demo_sentinel None]
  by (simp add: demo_sentinel)

theorem ping_batch_is_averaged_witness:
  "snd (ping_run (demo_env 0) 5 [demo_result True, demo_result False] demo_sentinel) = [WriteMetric 1 5 10 True]"
  using ping_batch_is_averaged [of "[demo_result True, demo_result False]" 1 "demo_env 0" demo_sentinel 5]
  by (simp add: demo_result_def demo_env_def is_ping_def ping_of_def demo_sentinel get_or_def successes_def)

theorem window_gives_status_witness:
  "\<exists>ss' code ev. update_tables (demo_env 9) (demo_result False) demo_sentinel = Ret (ss', code, ev) \<and> code = window_status 0 0"
proof -
  obtain ss' code ev where u: "update_tables (demo_env 9) (demo_result False) demo_sentinel = Ret (ss', code, ev)"
    using update_tables_total [of demo_sentinel "demo_result False" "demo_env 9"] demo_ok
    by (auto simp: demo_result_def demo_sentinel keys_def)
  have "code = window_status (successes []) (length ([] :: task_result list))"
    using window_gives_status [OF u] by (simp add: demo_result_def current_of_def demo_sentinel get_or_def no_status_def
        window_ok_def window_add_def demo_env_def Let_def)
  then show ?thesis using u by (simp add: successes_def)
qed

theorem dead_service_is_silent_witness:
  "\<exists>ss' ev. worker_run [(demo_env 1, 5, demo_result False), (demo_env 2, 5, demo_result False)] demo_sentinel = Ret (ss', ev) \<and>
     no_state_notice 1 ev"
proof -
  have rep: "5 \<in> keys (we_servers (demo_env t))" for t by (simp add: demo_env_def keys_def)
  obtain s1 e1 where s1: "worker_report (demo_env 1) 5 (demo_result False) demo_sentinel = Ret (s1, e1)" "sentinel_ok s1"
    using worker_report_total [OF demo_ok rep] by blast
  obtain s2 e2 where s2: "worker_report (demo_env 2) 5 (demo_result False) s1 = Ret (s2, e2)"
    using worker_report_total [OF s1(2) rep] by blast
  have run: "worker_run [(demo_env 1, 5, demo_result False), (demo_env 2, 5, demo_result False)] demo_sentinel = Ret (s2, e1 @ e2)"
    by (simp add: s1(1) s2)
  have "no_state_notice 1 (e1 @ e2) \<and> sk_lastStatus (current_of s2 1) \<noteq> StatusDown"
    by (rule dead_service_is_silent [OF run]) (simp_all add: demo_sentinel demo_result_def)
  then show ?thesis using run by blast
qed

end
