(* ===== verification/Service_Locks.thy ===== *)
theory Service_Locks
  imports Prelude
begin

text \<open>
  The locks of the service sentinel. \<open>service/singleton/servicesentinel.go\<close> fixes the order
  serviceResponseDataStoreLock, monthlyStatusLock, servicesLock in a comment; the programs below are the lock calls of
  its methods in their order (a deferred unlock comes last, the last lock first).

  A lock is Go's \<open>sync.RWMutex\<close>: \<open>Lock\<close> first waits until no other writer is there and announces itself, which keeps
  new readers out, then waits for the readers to leave; \<open>RLock\<close> waits until no writer holds the lock or is announced.
\<close>

datatype lock_id = DataStoreLock | MonthlyLock | ServicesLock | ListLock

datatype lock_mode = Announced | Writing | Reading

datatype lock_act = Announce lock_id | EnterWrite lock_id | LeaveWrite lock_id | EnterRead lock_id | LeaveRead lock_id

record lock_thread =
  lt_held :: "(lock_id \<times> lock_mode) list"
  lt_todo :: "lock_act list"

definition wlock :: "lock_id \<Rightarrow> lock_act list" where
  "wlock l = [Announce l, EnterWrite l]"

definition start_thread :: "lock_act list \<Rightarrow> lock_thread" where
  "start_thread p = \<lparr>lt_held = [], lt_todo = p\<rparr>"

definition holds :: "lock_thread list \<Rightarrow> lock_id \<Rightarrow> lock_mode \<Rightarrow> bool" where
  "holds ts l m \<longleftrightarrow> (\<exists>t \<in> set ts. (l, m) \<in> set (lt_held t))"

fun can_act :: "lock_thread list \<Rightarrow> lock_act \<Rightarrow> bool" where
  "can_act ts (Announce l) \<longleftrightarrow> \<not> holds ts l Announced \<and> \<not> holds ts l Writing" |
  "can_act ts (EnterWrite l) \<longleftrightarrow> \<not> holds ts l Reading" |
  "can_act ts (EnterRead l) \<longleftrightarrow> \<not> holds ts l Announced \<and> \<not> holds ts l Writing" |
  "can_act ts (LeaveWrite l) \<longleftrightarrow> True" |
  "can_act ts (LeaveRead l) \<longleftrightarrow> True"

fun held_after :: "lock_act \<Rightarrow> (lock_id \<times> lock_mode) list \<Rightarrow> (lock_id \<times> lock_mode) list" where
  "held_after (Announce l) h = (l, Announced) # h" |
  "held_after (EnterWrite l) h = (l, Writing) # remove1 (l, Announced) h" |
  "held_after (EnterRead l) h = (l, Reading) # h" |
  "held_after (LeaveWrite l) h = remove1 (l, Writing) h" |
  "held_after (LeaveRead l) h = remove1 (l, Reading) h"

inductive lock_step :: "lock_thread list \<Rightarrow> lock_thread list \<Rightarrow> bool" where
  act: "i < length ts \<Longrightarrow> lt_todo (ts ! i) = a # p \<Longrightarrow> can_act ts a \<Longrightarrow>
    lock_step ts (ts[i := \<lparr>lt_held = held_after a (lt_held (ts ! i)), lt_todo = p\<rparr>])"

inductive_cases lock_stepE: "lock_step ts ts'"

inductive lock_steps :: "lock_thread list \<Rightarrow> lock_thread list \<Rightarrow> bool" for ts where
  refl: "lock_steps ts ts"
| step: "lock_steps ts us \<Longrightarrow> lock_step us vs \<Longrightarrow> lock_steps ts vs"

subsection \<open>The methods\<close>

text \<open>\<open>Update\<close> and \<open>Delete\<close>.\<close>

definition update_locks :: "lock_act list" where
  "update_locks = wlock DataStoreLock @ wlock MonthlyLock @ wlock ServicesLock @
     [LeaveWrite ServicesLock, LeaveWrite MonthlyLock, LeaveWrite DataStoreLock]"

definition LoadStats_locks :: "lock_act list" where
  "LoadStats_locks = [EnterRead ServicesLock, EnterRead DataStoreLock] @ wlock MonthlyLock @
     [LeaveWrite MonthlyLock, LeaveRead DataStoreLock, LeaveRead ServicesLock]"

definition refresh_locks :: "lock_act list" where
  "refresh_locks = LoadStats_locks @ wlock DataStoreLock @ wlock MonthlyLock @ [LeaveWrite MonthlyLock, LeaveWrite DataStoreLock]"

text \<open>\<open>Get\<close>, \<open>GetList\<close> and \<open>CheckPermission\<close>.\<close>

definition Get_locks :: "lock_act list" where
  "Get_locks = [EnterRead ServicesLock, LeaveRead ServicesLock]"

definition GetSortedList_locks :: "lock_act list" where
  "GetSortedList_locks = [EnterRead ListLock, LeaveRead ListLock]"

definition UpdateServiceList_locks :: "lock_act list" where
  "UpdateServiceList_locks = EnterRead ServicesLock # wlock ListLock @ [LeaveWrite ListLock, LeaveRead ServicesLock]"

text \<open>One report in the worker.\<close>

definition worker_locks :: "lock_act list" where
  "worker_locks = Get_locks @ wlock DataStoreLock @ Get_locks @ [LeaveWrite DataStoreLock]"

subsection \<open>Locks taken in an order\<close>

text \<open>
  Threads that take locks in the order of their rank always have one that can go on: the one that waits for the lock of
  the highest rank.
\<close>

locale lock_order =
  fixes rank :: "lock_id \<Rightarrow> nat"
begin

definition above :: "(lock_id \<times> lock_mode) list \<Rightarrow> lock_id \<Rightarrow> bool" where
  "above h l \<longleftrightarrow> (\<forall>(l', m) \<in> set h. rank l' < rank l)"

fun in_order :: "(lock_id \<times> lock_mode) list \<Rightarrow> lock_act list \<Rightarrow> bool" where
  "in_order h [] \<longleftrightarrow> h = []" |
  "in_order h (Announce l # p) \<longleftrightarrow> above h l \<and> in_order ((l, Announced) # h) p" |
  "in_order h (EnterWrite l # p) \<longleftrightarrow> (l, Announced) \<in> set h \<and> above (remove1 (l, Announced) h) l \<and>
     in_order ((l, Writing) # remove1 (l, Announced) h) p" |
  "in_order h (EnterRead l # p) \<longleftrightarrow> above h l \<and> in_order ((l, Reading) # h) p" |
  "in_order h (LeaveWrite l # p) \<longleftrightarrow> in_order (remove1 (l, Writing) h) p" |
  "in_order h (LeaveRead l # p) \<longleftrightarrow> in_order (remove1 (l, Reading) h) p"

definition all_in_order :: "lock_thread list \<Rightarrow> bool" where
  "all_in_order ts \<longleftrightarrow> (\<forall>t \<in> set ts. in_order (lt_held t) (lt_todo t))"

lemma in_order_next: "in_order h (a # p) \<Longrightarrow> in_order (held_after a h) p"
  by (cases a) auto

lemma step_in_order: "lock_step ts us \<Longrightarrow> all_in_order ts \<Longrightarrow> all_in_order us"
proof (erule lock_stepE)
  fix i a p
  assume ts: "all_in_order ts" and i: "i < length ts" and a: "lt_todo (ts ! i) = a # p"
    and us: "us = ts[i := \<lparr>lt_held = held_after a (lt_held (ts ! i)), lt_todo = p\<rparr>]"
  have "in_order (lt_held (ts ! i)) (a # p)" using ts i a unfolding all_in_order_def by (metis nth_mem)
  then have "in_order (held_after a (lt_held (ts ! i))) p" by (rule in_order_next)
  moreover have "set us \<subseteq> insert \<lparr>lt_held = held_after a (lt_held (ts ! i)), lt_todo = p\<rparr> (set ts)"
    unfolding us by (rule set_update_subset_insert)
  ultimately show "all_in_order us" using ts by (fastforce simp: all_in_order_def)
qed

lemma steps_in_order: "lock_steps ts us \<Longrightarrow> all_in_order ts \<Longrightarrow> all_in_order us"
  by (induction rule: lock_steps.induct) (auto intro: step_in_order)

text \<open>How far in the order a waiting thread is.\<close>

fun wait_rank :: "lock_act list \<Rightarrow> nat" where
  "wait_rank (Announce l # p) = 2 * rank l" |
  "wait_rank (EnterRead l # p) = 2 * rank l" |
  "wait_rank (EnterWrite l # p) = 2 * rank l + 1" |
  "wait_rank _ = 0"

lemma holder_waits_higher:
  assumes "in_order h (a # p)" "(l, m) \<in> set h" "\<not> (\<exists>l'. a = LeaveWrite l' \<or> a = LeaveRead l')"
  shows "2 * rank l < wait_rank (a # p)" "m = Reading \<Longrightarrow> 2 * rank l + 1 < wait_rank (a # p)"
proof -
  have "2 * rank l < wait_rank (a # p) \<and> (m = Reading \<longrightarrow> 2 * rank l + 1 < wait_rank (a # p))"
  proof (cases a)
    case (EnterWrite l')
    then have "(l, m) = (l', Announced) \<or> rank l < rank l'"
      using assms(1,2) in_set_remove1 [of "(l, m)" "(l', Announced)" h] by (fastforce simp: above_def)
    then show ?thesis by (auto simp: EnterWrite)
  qed (use assms in \<open>auto simp: above_def\<close>)
  then show "2 * rank l < wait_rank (a # p)" "m = Reading \<Longrightarrow> 2 * rank l + 1 < wait_rank (a # p)" by auto
qed

lemma blocked_by:
  assumes "\<not> can_act ts a"
  obtains t l m where "t \<in> set ts" "(l, m) \<in> set (lt_held t)" "wait_rank (a # p) = 2 * rank l \<or> m = Reading \<and> wait_rank (a # p) = 2 * rank l + 1"
  using assms by (cases a) (auto simp: holds_def)

lemma progress:
  assumes ord: "all_in_order ts" and busy: "\<exists>t \<in> set ts. lt_todo t \<noteq> []"
  shows "\<exists>us. lock_step ts us"
proof (rule ccontr)
  assume stuck: "\<nexists>us. lock_step ts us"
  let ?B = "{t \<in> set ts. lt_todo t \<noteq> []}"
  have "finite ?B" "?B \<noteq> {}" using busy by auto
  then have M: "Max ((\<lambda>t. wait_rank (lt_todo t)) ` ?B) \<in> (\<lambda>t. wait_rank (lt_todo t)) ` ?B" by (intro Max_in) auto
  then obtain t where t: "t \<in> ?B" "wait_rank (lt_todo t) = Max ((\<lambda>t. wait_rank (lt_todo t)) ` ?B)" by auto
  have mx: "\<forall>u \<in> ?B. wait_rank (lt_todo u) \<le> wait_rank (lt_todo t)"
    unfolding t(2) using \<open>finite ?B\<close> by (intro ballI Max_ge) auto
  have no: "\<not> can_act ts a" if u: "u \<in> set ts" "lt_todo u = a # p" for u a p
    using stuck u lock_step.act by (metis in_set_conv_nth)
  obtain a p where ap: "lt_todo t = a # p" using t by (cases "lt_todo t") auto
  obtain u l m where u: "u \<in> set ts" "(l, m) \<in> set (lt_held u)"
    "wait_rank (a # p) = 2 * rank l \<or> m = Reading \<and> wait_rank (a # p) = 2 * rank l + 1"
    using no [of t a p] t ap blocked_by [of ts a p] by blast
  have uo: "in_order (lt_held u) (lt_todo u)" using ord u(1) by (simp add: all_in_order_def)
  then obtain b q where bq: "lt_todo u = b # q" using u(2) by (cases "lt_todo u") auto
  have "\<not> (\<exists>l'. b = LeaveWrite l' \<or> b = LeaveRead l')" using no [OF u(1) bq] by auto
  then have "wait_rank (lt_todo t) < wait_rank (lt_todo u)"
    using holder_waits_higher [of "lt_held u" b q l m] uo u(2,3) bq ap by auto
  then show False using mx u(1) bq by fastforce
qed

lemma ordered_runs_progress:
  assumes "\<forall>p \<in> set ps. in_order [] p" and "lock_steps (map start_thread ps) ts" and "\<exists>t \<in> set ts. lt_todo t \<noteq> []"
  shows "\<exists>us. lock_step ts us"
proof -
  have "all_in_order (map start_thread ps)" using assms(1) by (simp add: all_in_order_def start_thread_def)
  then show ?thesis using steps_in_order [OF assms(2)] progress assms(3) by blast
qed

end

text \<open>The order of the comment, with \<open>serviceListLock\<close> last.\<close>

fun lock_rank :: "lock_id \<Rightarrow> nat" where
  "lock_rank DataStoreLock = 0" | "lock_rank MonthlyLock = 1" | "lock_rank ServicesLock = 2" | "lock_rank ListLock = 3"

interpretation doc_order: lock_order lock_rank .

lemmas lock_programs = update_locks_def worker_locks_def Get_locks_def GetSortedList_locks_def UpdateServiceList_locks_def
  LoadStats_locks_def refresh_locks_def wlock_def

lemma methods_in_order:
  "doc_order.in_order [] update_locks" "doc_order.in_order [] worker_locks" "doc_order.in_order [] Get_locks"
  "doc_order.in_order [] GetSortedList_locks" "doc_order.in_order [] UpdateServiceList_locks"
  "\<not> doc_order.in_order [] LoadStats_locks" "\<not> doc_order.in_order [] refresh_locks"
  by (simp_all add: lock_programs doc_order.above_def)

text \<open>C14: Any number of concurrent updates, deletions, lookups, list rebuilds and worker reports never block each other for
  good: while one is unfinished, one can go on.\<close>

theorem sentinel_locks_progress:
  assumes "set ps \<subseteq> {update_locks, worker_locks, Get_locks, GetSortedList_locks, UpdateServiceList_locks}"
    and "lock_steps (map start_thread ps) ts" and "\<exists>t \<in> set ts. lt_todo t \<noteq> []"
  shows "\<exists>us. lock_step ts us"
  using assms methods_in_order by (intro doc_order.ordered_runs_progress [of ps]) auto

theorem sentinel_locks_progress_witness:
  "\<exists>us. lock_step (map start_thread [update_locks, worker_locks]) us"
  using sentinel_locks_progress [of "[update_locks, worker_locks]" "map start_thread [update_locks, worker_locks]"]
  by (simp add: lock_steps.refl start_thread_def update_locks_def wlock_def)

subsection \<open>The statistics against an update\<close>

text \<open>The two threads once the first lock of each is taken.\<close>

definition loading :: lock_thread where
  "loading = \<lparr>lt_held = [(ServicesLock, Reading)], lt_todo = tl LoadStats_locks\<rparr>"

definition updating :: lock_thread where
  "updating = \<lparr>lt_held = [(ServicesLock, Announced), (MonthlyLock, Writing), (DataStoreLock, Writing)], lt_todo = drop 5 update_locks\<rparr>"

lemma stuck_pair:
  assumes "lock_step ts us" "2 \<le> length ts" "ts ! 0 = loading" "ts ! 1 = updating"
  shows "length us = length ts \<and> us ! 0 = loading \<and> us ! 1 = updating"
  using assms(1)
proof (rule lock_stepE)
  fix i a p
  assume i: "i < length ts" and a: "lt_todo (ts ! i) = a # p" and can: "can_act ts a"
    and us: "us = ts[i := \<lparr>lt_held = held_after a (lt_held (ts ! i)), lt_todo = p\<rparr>]"
  have "ts ! 0 \<in> set ts" "ts ! 1 \<in> set ts" using assms(2) by (auto intro: nth_mem)
  then have h: "holds ts ServicesLock Reading" "holds ts DataStoreLock Writing"
    unfolding holds_def assms(3,4) loading_def updating_def by force+
  have "i \<noteq> 0"
  proof
    assume "i = 0"
    then have "a = EnterRead DataStoreLock" using a assms(3) by (simp add: loading_def lock_programs)
    then show False using can h(2) by simp
  qed
  moreover have "i \<noteq> 1"
  proof
    assume "i = 1"
    then have "a = EnterWrite ServicesLock" using a assms(4) by (simp add: updating_def lock_programs)
    then show False using can h(1) by simp
  qed
  ultimately show ?thesis using assms by (simp add: us)
qed

text \<open>C10: Loading the statistics takes servicesLock before serviceResponseDataStoreLock, against the documented order. With an
  update or a deletion at the same moment both can come to wait for each other, and then neither ever goes on, whatever
  other threads do.\<close>

theorem LoadStats_deadlocks_with_update:
  "\<exists>ts. lock_steps (map start_thread (LoadStats_locks # update_locks # ps)) ts \<and>
     (\<forall>us. lock_steps ts us \<longrightarrow> us ! 0 = ts ! 0 \<and> us ! 1 = ts ! 1 \<and> lt_todo (us ! 0) \<noteq> [] \<and> lt_todo (us ! 1) \<noteq> [])"
proof -
  let ?r = "map start_thread ps"
  have run: "lock_steps (map start_thread (LoadStats_locks # update_locks # ps)) (loading # updating # ?r)"
  proof -
    have idle: "\<not> holds ?r l m" for l m by (simp add: holds_def start_thread_def)
    let ?s = "\<lambda>h n. (loading # \<lparr>lt_held = h, lt_todo = drop n update_locks\<rparr> # ?r)"
    have idle2: "holds (a # b # ?r) l m \<longleftrightarrow> (l, m) \<in> set (lt_held a) \<or> (l, m) \<in> set (lt_held b)" for a b l m
      using idle by (auto simp: holds_def start_thread_def)
    have s0: "lock_step (map start_thread (LoadStats_locks # update_locks # ps)) (?s [] 0)"
      using lock_step.act [of 0 "map start_thread (LoadStats_locks # update_locks # ps)" "EnterRead ServicesLock" "tl LoadStats_locks"]
      by (simp add: idle2) (simp add: start_thread_def loading_def lock_programs)
    have one: "lock_step (?s h n) (?s (held_after (update_locks ! n) h) (Suc n))"
      if "n < length update_locks" "can_act (?s h n) (update_locks ! n)" for h n
      using lock_step.act [of 1 "?s h n" "update_locks ! n" "drop (Suc n) update_locks"] that
      by (simp add: Cons_nth_drop_Suc)
    have c: "can_act (?s [] 0) (update_locks ! 0)" "can_act (?s [(DataStoreLock, Announced)] 1) (update_locks ! 1)"
      "can_act (?s [(DataStoreLock, Writing)] 2) (update_locks ! 2)"
      "can_act (?s [(MonthlyLock, Announced), (DataStoreLock, Writing)] 3) (update_locks ! 3)"
      "can_act (?s [(MonthlyLock, Writing), (DataStoreLock, Writing)] 4) (update_locks ! 4)"
      by (simp_all add: idle2 lock_programs loading_def)
    have len: "n < 5 \<Longrightarrow> n < length update_locks" for n by (simp add: lock_programs)
    note steps = one [OF _ c(1)] one [OF _ c(2)] one [OF _ c(3)] one [OF _ c(4)] one [OF _ c(5)]
    have "lock_steps (map start_thread (LoadStats_locks # update_locks # ps))
        (?s [(ServicesLock, Announced), (MonthlyLock, Writing), (DataStoreLock, Writing)] 5)"
      using steps len
      by (intro lock_steps.step [OF lock_steps.step [OF lock_steps.step [OF lock_steps.step [OF lock_steps.step
        [OF lock_steps.step [OF lock_steps.refl s0]]]]]]) (simp_all add: lock_programs)
    then show ?thesis by (simp add: updating_def)
  qed
  have "length us = length ps + 2 \<and> us ! 0 = loading \<and> us ! 1 = updating"
    if "lock_steps (loading # updating # ?r) us" for us
    using that by (induction rule: lock_steps.induct) (use stuck_pair in auto)
  then show ?thesis using run by (auto simp: loading_def updating_def lock_programs)
qed

theorem LoadStats_deadlocks_with_update_witness:
  "\<exists>ts. lock_steps (map start_thread [LoadStats_locks, update_locks, Get_locks]) ts \<and> lt_todo (ts ! 0) \<noteq> [] \<and> lt_todo (ts ! 1) \<noteq> []"
  using LoadStats_deadlocks_with_update [of "[Get_locks]"] lock_steps.refl by blast

end
