(* ===== verification/Tsdb_Store.thy ===== *)
theory Tsdb_Store
  imports Prelude
begin

text \<open>
  The time-series database wrapper (\<open>pkg/tsdb\<close>): its configuration, the rows of a measurement, the buffered writer and
  the closing of the database. The storage engine behind it is a library; what is modelled of it is the list of the rows
  it was given. The buffer is flushed by its size, by its ticker and on stopping.
\<close>

subsection \<open>Configuration (\<open>config.go\<close>)\<close>

definition second :: int where "second = 1000000000"

record tsdb_config =
  cf_DataPath :: string
  cf_RetentionDays :: "16 word"
  cf_MinFreeDiskSpaceGB :: float64
  cf_MaxMemoryMB :: int
  cf_DedupInterval :: int
  cf_WriteBufferSize :: int
  cf_WriteBufferFlushInterval :: int

definition DefaultConfig :: tsdb_config where
  "DefaultConfig = \<lparr>cf_DataPath = [], cf_RetentionDays = 30, cf_MinFreeDiskSpaceGB = 1, cf_MaxMemoryMB = 256,
     cf_DedupInterval = 30 * second, cf_WriteBufferSize = 512, cf_WriteBufferFlushInterval = 5 * second\<rparr>"

definition Validate :: "tsdb_config \<Rightarrow> tsdb_config" where
  "Validate c = \<lparr>cf_DataPath = cf_DataPath c,
     cf_RetentionDays = (if cf_RetentionDays c = 0 then 30 else cf_RetentionDays c),
     cf_MinFreeDiskSpaceGB = (if cf_MinFreeDiskSpaceGB c \<le> 0 then 1 else cf_MinFreeDiskSpaceGB c),
     cf_MaxMemoryMB = (if cf_MaxMemoryMB c \<le> 0 then 256 else cf_MaxMemoryMB c),
     cf_DedupInterval = (if cf_DedupInterval c \<le> 0 then 30 * second else cf_DedupInterval c),
     cf_WriteBufferSize = (if cf_WriteBufferSize c \<le> 0 then 512 else cf_WriteBufferSize c),
     cf_WriteBufferFlushInterval = (if cf_WriteBufferFlushInterval c \<le> 0 then 5 * second else cf_WriteBufferFlushInterval c)\<rparr>"

definition Enabled :: "tsdb_config \<Rightarrow> bool" where
  "Enabled c \<longleftrightarrow> cf_DataPath c \<noteq> []"

definition MinFreeDiskSpaceBytes :: "tsdb_config \<Rightarrow> int" where
  "MinFreeDiskSpaceBytes c = \<lfloor>cf_MinFreeDiskSpaceGB c * 1024 * 1024 * 1024\<rfloor>"

text \<open>The configuration \<open>InitTSDB\<close> makes from the settings of the dashboard (interval in seconds).\<close>

definition init_config :: "tsdb_config \<Rightarrow> tsdb_config" where
  "init_config s = \<lparr>cf_DataPath = cf_DataPath s,
     cf_RetentionDays = (if cf_RetentionDays s > 0 then cf_RetentionDays s else 30),
     cf_MinFreeDiskSpaceGB = (if cf_MinFreeDiskSpaceGB s > 0 then cf_MinFreeDiskSpaceGB s else 1),
     cf_MaxMemoryMB = (if cf_MaxMemoryMB s > 0 then cf_MaxMemoryMB s else 256),
     cf_DedupInterval = 0,
     cf_WriteBufferSize = (if cf_WriteBufferSize s > 0 then cf_WriteBufferSize s else 0),
     cf_WriteBufferFlushInterval = (if cf_WriteBufferFlushInterval s > 0 then cf_WriteBufferFlushInterval s * second else 0)\<rparr>"

subsection \<open>Rows (\<open>writer.go\<close>)\<close>

record metric_row =
  mr_labels :: "(string \<times> string) list"
  mr_timestamp :: int
  mr_value :: float64

definition MetricServiceDelay :: string where "MetricServiceDelay = ''nezha_service_delay''"
definition MetricServiceStatus :: string where "MetricServiceStatus = ''nezha_service_status''"

definition UnixMilli :: "int \<Rightarrow> int" where "UnixMilli t = t div 1000000"

definition makeServerMetricRow :: "string \<Rightarrow> string \<Rightarrow> int \<Rightarrow> float64 \<Rightarrow> metric_row" where
  "makeServerMetricRow metric serverID ts v =
     \<lparr>mr_labels = [(''__name__'', metric), (''server_id'', serverID)], mr_timestamp = ts, mr_value = v\<rparr>"

definition makeServiceMetricRow :: "string \<Rightarrow> string \<Rightarrow> string \<Rightarrow> int \<Rightarrow> float64 \<Rightarrow> metric_row" where
  "makeServiceMetricRow metric serviceID serverID ts v =
     \<lparr>mr_labels = [(''__name__'', metric), (''service_id'', serviceID), (''server_id'', serverID)], mr_timestamp = ts, mr_value = v\<rparr>"

record server_metrics =
  sm_ServerID :: uint64
  sm_Timestamp :: int
  sm_CPU :: float64
  sm_MemUsed :: uint64
  sm_SwapUsed :: uint64
  sm_DiskUsed :: uint64
  sm_NetInSpeed :: uint64
  sm_NetOutSpeed :: uint64
  sm_NetInTransfer :: uint64
  sm_NetOutTransfer :: uint64
  sm_Load1 :: float64
  sm_Load5 :: float64
  sm_Load15 :: float64
  sm_TCPConnCount :: uint64
  sm_UDPConnCount :: uint64
  sm_ProcessCount :: uint64
  sm_Temperature :: float64
  sm_Uptime :: uint64
  sm_GPU :: float64

record service_metrics =
  vm_ServiceID :: uint64
  vm_ServerID :: uint64
  vm_Timestamp :: int
  vm_Delay :: float64
  vm_Successful :: bool

definition u2r :: "uint64 \<Rightarrow> float64" where "u2r x = of_nat (unat x)"

definition server_rows :: "server_metrics \<Rightarrow> metric_row list" where
  "server_rows m = (let ts = UnixMilli (sm_Timestamp m); s = show_uint (sm_ServerID m) in
     map (\<lambda>(metric, v). makeServerMetricRow metric s ts v)
      [(''nezha_server_cpu'', sm_CPU m), (''nezha_server_memory'', u2r (sm_MemUsed m)), (''nezha_server_swap'', u2r (sm_SwapUsed m)),
       (''nezha_server_disk'', u2r (sm_DiskUsed m)), (''nezha_server_net_in_speed'', u2r (sm_NetInSpeed m)),
       (''nezha_server_net_out_speed'', u2r (sm_NetOutSpeed m)), (''nezha_server_net_in_transfer'', u2r (sm_NetInTransfer m)),
       (''nezha_server_net_out_transfer'', u2r (sm_NetOutTransfer m)), (''nezha_server_load1'', sm_Load1 m),
       (''nezha_server_load5'', sm_Load5 m), (''nezha_server_load15'', sm_Load15 m), (''nezha_server_tcp_conn'', u2r (sm_TCPConnCount m)),
       (''nezha_server_udp_conn'', u2r (sm_UDPConnCount m)), (''nezha_server_process_count'', u2r (sm_ProcessCount m)),
       (''nezha_server_temperature'', sm_Temperature m), (''nezha_server_uptime'', u2r (sm_Uptime m)), (''nezha_server_gpu'', sm_GPU m)])"

definition service_rows :: "service_metrics \<Rightarrow> metric_row list" where
  "service_rows m = (let ts = UnixMilli (vm_Timestamp m); k = show_uint (vm_ServiceID m); s = show_uint (vm_ServerID m) in
     [makeServiceMetricRow MetricServiceDelay k s ts (vm_Delay m),
      makeServiceMetricRow MetricServiceStatus k s ts (if vm_Successful m then 1 else 0)])"

subsection \<open>The buffered writer\<close>

record buffered_writer =
  bw_buffer :: "metric_row list"
  bw_maxSize :: int

text \<open>Each operation gives the writer and the rows it hands to the storage.\<close>

definition bw_write :: "metric_row list \<Rightarrow> buffered_writer \<Rightarrow> buffered_writer \<times> metric_row list" where
  "bw_write rows w = (let b = bw_buffer w @ rows in
     if int (length b) \<ge> bw_maxSize w then (w\<lparr>bw_buffer := []\<rparr>, b) else (w\<lparr>bw_buffer := b\<rparr>, []))"

definition bw_flush :: "buffered_writer \<Rightarrow> buffered_writer \<times> metric_row list" where
  "bw_flush w = (if bw_buffer w = [] then (w, []) else (w\<lparr>bw_buffer := []\<rparr>, bw_buffer w))"

subsection \<open>The database\<close>

text \<open>\<open>db_stored\<close> is what the storage was given, in order.\<close>

record tsdb =
  db_writer :: buffered_writer
  db_closed :: bool
  db_stored :: "metric_row list"

definition Tsdb_Open :: "tsdb_config \<Rightarrow> tsdb" where
  "Tsdb_Open c = \<lparr>db_writer = \<lparr>bw_buffer = [], bw_maxSize = cf_WriteBufferSize (Validate c)\<rparr>, db_closed = False, db_stored = []\<rparr>"

definition write_rows :: "metric_row list \<Rightarrow> tsdb \<Rightarrow> go_error \<times> tsdb" where
  "write_rows rows db = (if db_closed db then (Some ''TSDB is closed'', db)
     else (let (w, out) = bw_write rows (db_writer db) in (None, db\<lparr>db_writer := w, db_stored := db_stored db @ out\<rparr>)))"

definition WriteServerMetrics :: "server_metrics \<Rightarrow> tsdb \<Rightarrow> go_error \<times> tsdb" where
  "WriteServerMetrics m db = write_rows (server_rows m) db"
definition WriteServiceMetrics :: "service_metrics \<Rightarrow> tsdb \<Rightarrow> go_error \<times> tsdb" where
  "WriteServiceMetrics m db = write_rows (service_rows m) db"
definition WriteBatchServerMetrics :: "server_metrics list \<Rightarrow> tsdb \<Rightarrow> go_error \<times> tsdb" where
  "WriteBatchServerMetrics ms db = write_rows (concat (map server_rows ms)) db"
definition WriteBatchServiceMetrics :: "service_metrics list \<Rightarrow> tsdb \<Rightarrow> go_error \<times> tsdb" where
  "WriteBatchServiceMetrics ms db = write_rows (concat (map service_rows ms)) db"

text \<open>A tick of the flush loop, which ends when the writer is stopped, and \<open>Flush\<close>.\<close>

definition flush_tick :: "tsdb \<Rightarrow> tsdb" where
  "flush_tick db = (let (w, out) = bw_flush (db_writer db) in db\<lparr>db_writer := w, db_stored := db_stored db @ out\<rparr>)"

definition Tsdb_Close :: "tsdb \<Rightarrow> tsdb" where
  "Tsdb_Close db = (if db_closed db then db else (flush_tick db)\<lparr>db_closed := True\<rparr>)"

datatype tsdb_op = OpServer server_metrics | OpService service_metrics | OpServers "server_metrics list"
  | OpServices "service_metrics list" | OpTick | OpClose

fun tsdb_step :: "tsdb_op \<Rightarrow> tsdb \<Rightarrow> tsdb" where
  "tsdb_step (OpServer m) db = snd (WriteServerMetrics m db)" |
  "tsdb_step (OpService m) db = snd (WriteServiceMetrics m db)" |
  "tsdb_step (OpServers ms) db = snd (WriteBatchServerMetrics ms db)" |
  "tsdb_step (OpServices ms) db = snd (WriteBatchServiceMetrics ms db)" |
  "tsdb_step OpTick db = flush_tick db" |
  "tsdb_step OpClose db = Tsdb_Close db"

subsection \<open>The database as a log\<close>

text \<open>The specification: a log of rows that can be closed.\<close>

record row_log =
  rl_rows :: "metric_row list"
  rl_open :: bool

definition empty_log :: row_log where "empty_log = \<lparr>rl_rows = [], rl_open = True\<rparr>"

fun op_rows :: "tsdb_op \<Rightarrow> metric_row list" where
  "op_rows (OpServer m) = server_rows m" |
  "op_rows (OpService m) = service_rows m" |
  "op_rows (OpServers ms) = concat (map server_rows ms)" |
  "op_rows (OpServices ms) = concat (map service_rows ms)" |
  "op_rows OpTick = []" |
  "op_rows OpClose = []"

definition log_step :: "tsdb_op \<Rightarrow> row_log \<Rightarrow> row_log" where
  "log_step oper g = (if rl_open g then g\<lparr>rl_rows := rl_rows g @ op_rows oper, rl_open := oper \<noteq> OpClose\<rparr> else g)"

definition tsdb_abs :: "tsdb \<Rightarrow> row_log" where
  "tsdb_abs db = \<lparr>rl_rows = db_stored db @ bw_buffer (db_writer db), rl_open = (\<not> db_closed db)\<rparr>"

definition tsdb_ok :: "tsdb \<Rightarrow> bool" where
  "tsdb_ok db \<longleftrightarrow> 0 < bw_maxSize (db_writer db) \<and> int (length (bw_buffer (db_writer db))) < bw_maxSize (db_writer db) \<and>
     (db_closed db \<longrightarrow> bw_buffer (db_writer db) = [])"

lemma write_rows_abs:
  "tsdb_abs (snd (write_rows rows db)) =
     (if db_closed db then tsdb_abs db else \<lparr>rl_rows = rl_rows (tsdb_abs db) @ rows, rl_open = True\<rparr>)"
  by (simp add: write_rows_def bw_write_def tsdb_abs_def Let_def)

lemma flush_tick_abs: "tsdb_abs (flush_tick db) = tsdb_abs db"
  by (simp add: flush_tick_def bw_flush_def tsdb_abs_def Let_def)

lemma rl_open_abs: "rl_open (tsdb_abs db) \<longleftrightarrow> \<not> db_closed db"
  by (simp add: tsdb_abs_def)

lemma close_abs: "tsdb_abs (Tsdb_Close db) = (tsdb_abs db)\<lparr>rl_open := False\<rparr>"
proof -
  have "tsdb_abs ((flush_tick db)\<lparr>db_closed := True\<rparr>) = (tsdb_abs (flush_tick db))\<lparr>rl_open := False\<rparr>"
    by (simp add: tsdb_abs_def)
  then show ?thesis by (simp add: Tsdb_Close_def flush_tick_abs) (simp add: tsdb_abs_def)
qed

lemma tsdb_step_abs: "tsdb_abs (tsdb_step oper db) = log_step oper (tsdb_abs db)"
  by (cases oper) (simp_all add: log_step_def WriteServerMetrics_def WriteServiceMetrics_def WriteBatchServerMetrics_def
      WriteBatchServiceMetrics_def write_rows_abs rl_open_abs flush_tick_abs close_abs row_log.splits,
    (simp_all add: tsdb_abs_def)?)

lemma tsdb_step_ok: "tsdb_ok db \<Longrightarrow> tsdb_ok (tsdb_step oper db)"
  by (cases oper) (auto simp: tsdb_ok_def WriteServerMetrics_def WriteServiceMetrics_def WriteBatchServerMetrics_def
      WriteBatchServiceMetrics_def write_rows_def bw_write_def bw_flush_def flush_tick_def Tsdb_Close_def Let_def)

lemma tsdb_run: "tsdb_ok db \<Longrightarrow> tsdb_ok (fold tsdb_step opers db) \<and> tsdb_abs (fold tsdb_step opers db) = fold log_step opers (tsdb_abs db)"
  by (induction opers arbitrary: db) (simp_all add: tsdb_step_ok tsdb_step_abs)

text \<open>C13: Over any sequence of writes, flushes and closings, what the storage got followed by what the buffer holds is exactly
  the log of the rows written before the first closing, in order; the buffer stays below its size, and after a closing the
  storage has every row of the log.\<close>

theorem tsdb_refines_log:
  "let db = fold tsdb_step opers (Tsdb_Open c); g = fold log_step opers empty_log in
    tsdb_abs db = g \<and> int (length (bw_buffer (db_writer db))) < cf_WriteBufferSize (Validate c) \<and>
    (db_closed db \<longrightarrow> db_stored db = rl_rows g)"
proof -
  let ?db = "fold tsdb_step opers (Tsdb_Open c)"
  have pos: "0 < cf_WriteBufferSize (Validate c)" by (simp add: Validate_def)
  then have ok: "tsdb_ok (Tsdb_Open c)" by (simp add: tsdb_ok_def Tsdb_Open_def)
  have init: "tsdb_abs (Tsdb_Open c) = empty_log" by (simp add: tsdb_abs_def Tsdb_Open_def empty_log_def)
  have size: "bw_maxSize (db_writer (fold tsdb_step opers db)) = bw_maxSize (db_writer db)" for db
  proof (induction opers arbitrary: db)
    case (Cons oper opers)
    have "bw_maxSize (db_writer (tsdb_step oper db)) = bw_maxSize (db_writer db)"
      by (cases oper) (auto simp: WriteServerMetrics_def WriteServiceMetrics_def WriteBatchServerMetrics_def
        WriteBatchServiceMetrics_def write_rows_def bw_write_def bw_flush_def flush_tick_def Tsdb_Close_def Let_def)
    then show ?case using Cons by simp
  qed simp
  have run: "tsdb_ok ?db" "tsdb_abs ?db = fold log_step opers empty_log" using tsdb_run [OF ok, of opers] init by auto
  have "bw_maxSize (db_writer ?db) = cf_WriteBufferSize (Validate c)" using size by (simp add: Tsdb_Open_def)
  moreover have "db_closed ?db \<longrightarrow> db_stored ?db = rl_rows (tsdb_abs ?db)" using run(1) by (simp add: tsdb_ok_def tsdb_abs_def)
  ultimately show ?thesis using run by (simp add: tsdb_ok_def Let_def)
qed

theorem tsdb_refines_log_witness:
  "db_stored (fold tsdb_step [OpServices [], OpClose, OpTick] (Tsdb_Open DefaultConfig)) = []"
  using tsdb_refines_log [of "[OpServices [], OpClose, OpTick]" DefaultConfig]
  by (simp add: log_step_def empty_log_def Let_def WriteBatchServiceMetrics_def Tsdb_Close_def flush_tick_def bw_flush_def write_rows_def bw_write_def
      Tsdb_Open_def Validate_def DefaultConfig_def)

lemma Validate_idem: "Validate (Validate c) = Validate c"
  by (simp add: Validate_def second_def)

end
