(* ===== verification/Tsdb_Query.thy ===== *)
theory Tsdb_Query
  imports Tsdb_Store Service_Sentinel
begin

text \<open>
  The queries of the time-series database (\<open>pkg/tsdb/query.go\<close>): the periods, the reading of the blocks a search of the
  storage finds, the merging of delays and states by time, the statistics, and the downsampling of points into buckets.

  What a search finds is an argument: a list of blocks, each with the tags of its metric (\<open>None\<close> when the name or the
  data cannot be read) and its rows; a failed search is \<open>None\<close>. Times are milliseconds in points and nanoseconds elsewhere.
  \<open>sort.Slice\<close> is not stable; for points of equal time the order of the model is one it may choose.
\<close>

subsection \<open>Periods\<close>

definition Period1Day :: string where "Period1Day = ''1d''"
definition Period7Days :: string where "Period7Days = ''7d''"
definition Period30Days :: string where "Period30Days = ''30d''"

definition ParseQueryPeriod :: "string \<Rightarrow> string + string" where
  "ParseQueryPeriod s = (if s = ''1d'' \<or> s = [] then Inr Period1Day else if s = ''7d'' then Inr Period7Days
     else if s = ''30d'' then Inr Period30Days else Inl (''invalid period: '' @ s @ '', expected 1d, 7d, or 30d''))"

definition Duration :: "string \<Rightarrow> int" where
  "Duration p = (if p = Period7Days then 7 * 24 * hour else if p = Period30Days then 30 * 24 * hour else 24 * hour)"

definition DownsampleInterval :: "string \<Rightarrow> int" where
  "DownsampleInterval p = (if p = Period7Days then 30 * 60 * second else if p = Period30Days then 2 * hour else 30 * second)"

definition Milliseconds :: "int \<Rightarrow> int" where "Milliseconds d = go_div d 1000000"

definition time_range :: "int \<Rightarrow> string \<Rightarrow> int \<times> int" where
  "time_range now p = (UnixMilli (now - Duration p), UnixMilli now)"

subsection \<open>Points, blocks and tags\<close>

record raw_point =
  rp_timestamp :: int
  rp_value :: float64
  rp_status :: float64
  rp_hasDelay :: bool
  rp_hasStatus :: bool

record data_point =
  dp_Timestamp :: int
  dp_Delay :: float64
  dp_Status :: uint8

record history_summary =
  hs_AvgDelay :: float64
  hs_UpPercent :: float64
  hs_TotalUp :: uint64
  hs_TotalDown :: uint64
  hs_DataPoints :: "data_point list"

type_synonym metric_point = "int \<times> float64"

text \<open>A block of the storage: its tags, when its metric name is readable, and its rows, when its data is.\<close>

record tsdb_block =
  tb_tags :: "(string \<times> string) list option"
  tb_rows :: "metric_point list option"

definition in_range :: "int \<times> int \<Rightarrow> metric_point \<Rightarrow> bool" where
  "in_range tr p \<longleftrightarrow> fst tr \<le> fst p \<and> fst p \<le> snd tr"

definition get_tag :: "string \<Rightarrow> (string \<times> string) list \<Rightarrow> string" where
  "get_tag k tags = (case map_of tags k of None \<Rightarrow> [] | Some v \<Rightarrow> v)"

text \<open>One block in \<open>queryMetricByServiceID\<close> (tag \<open>server_id\<close>) and \<open>queryMetricByServerID\<close> (tag \<open>service_id\<close>).\<close>

definition add_block :: "string \<Rightarrow> int \<times> int \<Rightarrow> tsdb_block \<Rightarrow> (uint64, metric_point list) gomap \<Rightarrow> (uint64, metric_point list) gomap" where
  "add_block tag tr b m = (case tb_tags b of None \<Rightarrow> m | Some tags \<Rightarrow>
     let s = get_tag tag tags in
     if s = [] then m
     else (case ParseUint s of None \<Rightarrow> m | Some k \<Rightarrow>
       (case tb_rows b of None \<Rightarrow> m | Some rows \<Rightarrow>
          (let ps = filter (in_range tr) rows
           in if ps = [] then m else AList.update k (get_or [] m k @ ps) m))))"

definition queryMetric :: "string \<Rightarrow> int \<times> int \<Rightarrow> tsdb_block list \<Rightarrow> (uint64, metric_point list) gomap" where
  "queryMetric tag tr bs = fold (add_block tag tr) bs []"

text \<open>A search: metric, tag, value of the tag and time range.\<close>

type_synonym tsdb_search = "string \<Rightarrow> string \<Rightarrow> string \<Rightarrow> int \<times> int \<Rightarrow> tsdb_block list option"

subsection \<open>Delays and states by time\<close>

definition delay_point :: "metric_point \<Rightarrow> raw_point" where
  "delay_point p = \<lparr>rp_timestamp = fst p, rp_value = snd p, rp_status = 0, rp_hasDelay = True, rp_hasStatus = False\<rparr>"

definition status_point :: "metric_point \<Rightarrow> raw_point" where
  "status_point p = \<lparr>rp_timestamp = fst p, rp_value = 0, rp_status = snd p, rp_hasDelay = False, rp_hasStatus = True\<rparr>"

definition put_delay :: "metric_point \<Rightarrow> (int, raw_point) gomap \<Rightarrow> (int, raw_point) gomap" where
  "put_delay p m = AList.update (fst p) (delay_point p) m"

definition put_status :: "metric_point \<Rightarrow> (int, raw_point) gomap \<Rightarrow> (int, raw_point) gomap" where
  "put_status p m = (case map_of m (fst p) of
     Some e \<Rightarrow> AList.update (fst p) (e\<lparr>rp_status := snd p, rp_hasStatus := True\<rparr>) m
   | None \<Rightarrow> AList.update (fst p) (status_point p) m)"

definition add_points :: "(metric_point \<Rightarrow> (int, raw_point) gomap \<Rightarrow> (int, raw_point) gomap) \<Rightarrow> uint64 \<times> metric_point list
    \<Rightarrow> (uint64, (int, raw_point) gomap) gomap \<Rightarrow> (uint64, (int, raw_point) gomap) gomap" where
  "add_points put e m = AList.update (fst e) (fold put (snd e) (get_or [] m (fst e))) m"

definition merge_points :: "(uint64, metric_point list) gomap \<Rightarrow> (uint64, metric_point list) gomap
    \<Rightarrow> (uint64, (int, raw_point) gomap) gomap" where
  "merge_points delayData statusData = fold (add_points put_status) statusData (fold (add_points put_delay) delayData [])"

subsection \<open>Downsampling\<close>

definition bucket :: "int \<Rightarrow> int \<Rightarrow> int" where
  "bucket intervalMs ts = go_div ts intervalMs * intervalMs"

record bucket_acc =
  ba_start :: int
  ba_totalDelay :: float64
  ba_delayCount :: nat
  ba_upCount :: nat
  ba_statusCount :: nat

definition flushBucket :: "bucket_acc \<Rightarrow> data_point" where
  "flushBucket a = \<lparr>dp_Timestamp = ba_start a,
     dp_Delay = (if ba_delayCount a > 0 then ba_totalDelay a / of_nat (ba_delayCount a) else 0),
     dp_Status = (if ba_statusCount a > 0 \<and> ba_upCount a > ba_statusCount a div 2 then 1 else 0)\<rparr>"

definition new_bucket :: "int \<Rightarrow> bucket_acc" where
  "new_bucket k = \<lparr>ba_start = k, ba_totalDelay = 0, ba_delayCount = 0, ba_upCount = 0, ba_statusCount = 0\<rparr>"

definition bucket_add :: "raw_point \<Rightarrow> bucket_acc \<Rightarrow> bucket_acc" where
  "bucket_add p a =
     (let a1 = (if rp_hasDelay p then a\<lparr>ba_totalDelay := ba_totalDelay a + rp_value p, ba_delayCount := ba_delayCount a + 1\<rparr> else a)
      in if rp_hasStatus p
         then a1\<lparr>ba_statusCount := ba_statusCount a1 + 1, ba_upCount := (if rp_status p \<ge> 1 / 2 then ba_upCount a1 + 1 else ba_upCount a1)\<rparr>
         else a1)"

fun ds_loop :: "int \<Rightarrow> bucket_acc \<Rightarrow> data_point list \<Rightarrow> raw_point list \<Rightarrow> data_point list" where
  "ds_loop iv a res [] = res @ [flushBucket a]" |
  "ds_loop iv a res (p # ps) =
     (let k = bucket iv (rp_timestamp p) in
      if k \<noteq> ba_start a then ds_loop iv (bucket_add p (new_bucket k)) (res @ [flushBucket a]) ps
      else ds_loop iv (bucket_add p a) res ps)"

text \<open>\<open>downsample\<close>; an interval below a millisecond divides by zero.\<close>

definition downsample :: "raw_point list \<Rightarrow> int \<Rightarrow> data_point list go" where
  "downsample points interval = (case points of [] \<Rightarrow> Ret []
     | p # _ \<Rightarrow> (let iv = Milliseconds interval in
        if iv = 0 then Panic else Ret (ds_loop iv (new_bucket (bucket iv (rp_timestamp p))) [] points)))"

definition calculateStats :: "raw_point list \<Rightarrow> int \<Rightarrow> history_summary go" where
  "calculateStats points0 interval =
     (if points0 = [] then Ret \<lparr>hs_AvgDelay = 0, hs_UpPercent = 0, hs_TotalUp = 0, hs_TotalDown = 0, hs_DataPoints = []\<rparr>
      else (let points = sort_key rp_timestamp points0;
          delays = map rp_value (filter rp_hasDelay points);
          ups = filter (\<lambda>p. rp_status p \<ge> 1 / 2) (filter rp_hasStatus points);
          downs = filter (\<lambda>p. \<not> rp_status p \<ge> 1 / 2) (filter rp_hasStatus points);
          up = of_nat (length ups); down = of_nat (length downs)
        in go_bind (downsample points interval) (\<lambda>ds. Ret
          \<lparr>hs_AvgDelay = (if delays \<noteq> [] then sum_list delays / of_nat (length delays) else 0),
           hs_UpPercent = (if up + down > 0 then of_nat (unat up) / of_nat (unat (up + down)) * 100 else 0),
           hs_TotalUp = up, hs_TotalDown = down, hs_DataPoints = ds\<rparr>)))"

text \<open>The loop of \<open>downsampleMetrics\<close>: bucket, sum, count and last value.\<close>

fun dm_loop :: "bool \<Rightarrow> int \<Rightarrow> int \<times> float64 \<times> nat \<times> float64 \<Rightarrow> (int \<times> float64) list \<Rightarrow> metric_point list \<Rightarrow> (int \<times> float64) list" where
  "dm_loop useLast iv (b, tot, n, v) res [] =
     res @ [(b, if useLast then v else if n > 0 then tot / of_nat n else 0)]" |
  "dm_loop useLast iv (b, tot, n, v) res (p # ps) =
     (let k = bucket iv (fst p) in
      if k \<noteq> b then dm_loop useLast iv (k, snd p, 1, snd p) (res @ [(b, if useLast then v else if n > 0 then tot / of_nat n else 0)]) ps
      else dm_loop useLast iv (b, tot + snd p, n + 1, snd p) res ps)"

definition downsampleMetrics :: "metric_point list \<Rightarrow> int \<Rightarrow> bool \<Rightarrow> (int \<times> float64) list go" where
  "downsampleMetrics points0 interval useLast = (case sort_key fst points0 of [] \<Rightarrow> Ret []
     | p # ps \<Rightarrow> (let iv = Milliseconds interval in
        if iv = 0 then Panic else Ret (dm_loop useLast iv (bucket iv (fst p), 0, 0, 0) [] (p # ps))))"

definition isCumulativeMetric :: "string \<Rightarrow> bool" where
  "isCumulativeMetric m \<longleftrightarrow> m \<in> {''nezha_server_net_in_transfer'', ''nezha_server_net_out_transfer'', ''nezha_server_uptime''}"

subsection \<open>Queries\<close>

record server_service_stats =
  sss_ServerID :: uint64
  sss_Stats :: history_summary

record history_result =
  hr_ServiceID :: uint64
  hr_Servers :: "server_service_stats list"

text \<open>Both series of one key; the delays are read first.\<close>

definition query_both :: "tsdb_search \<Rightarrow> string \<Rightarrow> string \<Rightarrow> uint64 \<Rightarrow> int \<times> int \<Rightarrow> (uint64, (int, raw_point) gomap) gomap option" where
  "query_both search key other k tr =
     (case search MetricServiceDelay key (show_uint k) tr of None \<Rightarrow> None | Some dbs \<Rightarrow>
      (case search MetricServiceStatus key (show_uint k) tr of None \<Rightarrow> None | Some sbs \<Rightarrow>
        Some (merge_points (queryMetric other tr dbs) (queryMetric other tr sbs))))"

fun stats_all :: "string \<Rightarrow> (uint64, (int, raw_point) gomap) gomap \<Rightarrow> (uint64 \<times> history_summary) list go" where
  "stats_all period [] = Ret []" |
  "stats_all period ((k, pm) # xs) = go_bind (calculateStats (map snd pm) (DownsampleInterval period)) (\<lambda>s.
     go_bind (stats_all period xs) (\<lambda>rs. Ret ((k, s) # rs)))"

definition QueryServiceHistory :: "tsdb_search \<Rightarrow> int \<Rightarrow> tsdb \<Rightarrow> uint64 \<Rightarrow> string \<Rightarrow> history_result option go" where
  "QueryServiceHistory search now db serviceID period =
     (if db_closed db then Ret None
      else (case query_both search ''service_id'' ''server_id'' serviceID (time_range now period) of None \<Rightarrow> Ret None
       | Some m \<Rightarrow> go_bind (stats_all period m) (\<lambda>rs. Ret (Some \<lparr>hr_ServiceID = serviceID,
           hr_Servers = sort_key sss_ServerID (map (\<lambda>(k, s). \<lparr>sss_ServerID = k, sss_Stats = s\<rparr>) rs)\<rparr>))))"

definition QueryServiceHistoryByServerID :: "tsdb_search \<Rightarrow> int \<Rightarrow> tsdb \<Rightarrow> uint64 \<Rightarrow> string \<Rightarrow> (uint64, history_result) gomap option go" where
  "QueryServiceHistoryByServerID search now db serverID period =
     (if db_closed db then Ret None
      else (case query_both search ''server_id'' ''service_id'' serverID (time_range now period) of None \<Rightarrow> Ret None
       | Some m \<Rightarrow> go_bind (stats_all period m) (\<lambda>rs. Ret (Some
           (map (\<lambda>(k, s). (k, \<lparr>hr_ServiceID = k, hr_Servers = [\<lparr>sss_ServerID = serverID, sss_Stats = s\<rparr>]\<rparr>)) rs)))))"

definition QueryServerMetrics :: "tsdb_search \<Rightarrow> int \<Rightarrow> tsdb \<Rightarrow> uint64 \<Rightarrow> string \<Rightarrow> string \<Rightarrow> (int \<times> float64) list option go" where
  "QueryServerMetrics search now db serverID metric period =
     (if db_closed db then Ret None
      else (case search metric ''server_id'' (show_uint serverID) (time_range now period) of None \<Rightarrow> Ret None
       | Some bs \<Rightarrow> go_bind (downsampleMetrics
            (concat (map (\<lambda>b. case tb_rows b of None \<Rightarrow> [] | Some rows \<Rightarrow> filter (in_range (time_range now period)) rows) bs))
            (DownsampleInterval period) (isCumulativeMetric metric)) (\<lambda>ps. Ret (Some ps))))"

subsection \<open>Statistics by day\<close>

text \<open>The slot of a point: the last one is the day that ends at \<open>today\<close>.\<close>

definition daily_slot :: "int \<Rightarrow> nat \<Rightarrow> int \<Rightarrow> int" where
  "daily_slot today days tsMs = (int days - 1) - go_div (go_div (today - tsMs * 1000000) hour) 24"

definition daily_status :: "int \<Rightarrow> nat \<Rightarrow> metric_point \<Rightarrow> daily_stats list \<Rightarrow> daily_stats list" where
  "daily_status today days p st = (let i = daily_slot today days (fst p) in
     if i < 0 \<or> i \<ge> int days then st
     else (let d = st ! nat i in st[nat i := (if snd p \<ge> 1 / 2 then d\<lparr>dl_Up := dl_Up d + 1\<rparr> else d\<lparr>dl_Down := dl_Down d + 1\<rparr>)]))"

definition daily_delay :: "int \<Rightarrow> nat \<Rightarrow> metric_point \<Rightarrow> daily_stats list \<times> nat list \<Rightarrow> daily_stats list \<times> nat list" where
  "daily_delay today days p acc = (let (st, cnt) = acc; i = daily_slot today days (fst p) in
     if i < 0 \<or> i \<ge> int days then acc
     else (let d = st ! nat i; n = cnt ! nat i
       in (st[nat i := d\<lparr>dl_Delay := (dl_Delay d * of_nat n + snd p) / of_nat (n + 1)\<rparr>], cnt[nat i := n + 1])))"

definition QueryServiceDailyStats :: "tsdb_search \<Rightarrow> tsdb \<Rightarrow> uint64 \<Rightarrow> int \<Rightarrow> nat \<Rightarrow> daily_stats list option" where
  "QueryServiceDailyStats search db serviceID today days =
     (if db_closed db then None
      else (let tr = (UnixMilli (today - (int days - 1) * 24 * hour), UnixMilli today) in
        (case search MetricServiceStatus ''service_id'' (show_uint serviceID) tr of None \<Rightarrow> None | Some sbs \<Rightarrow>
         (case search MetricServiceDelay ''service_id'' (show_uint serviceID) tr of None \<Rightarrow> None | Some dbs \<Rightarrow>
           (let st = fold (daily_status today days) (concat (map snd (queryMetric ''server_id'' tr sbs)))
              (replicate days \<lparr>dl_Up = 0, dl_Down = 0, dl_Delay = 0\<rparr>)
            in Some (fst (fold (daily_delay today days) (concat (map snd (queryMetric ''server_id'' tr dbs))) (st, replicate days 0))))))))"

end
