(* ===== verification/Tsdb_Properties.thy ===== *)
theory Tsdb_Properties
  imports Tsdb_Query
begin

text \<open>
  What the queries of the time-series database return: downsampling as grouping by buckets, the servers of a history, the
  rows the writer makes as the reader sees them, and the day that loading the month loses.
\<close>

subsection \<open>Downsampling is grouping\<close>

text \<open>The reference: one point per bucket that has points, with the mean of its delays and the majority of its states.\<close>

definition bucket_point :: "int \<Rightarrow> raw_point list \<Rightarrow> int \<Rightarrow> data_point" where
  "bucket_point iv pts b = (let g = filter (\<lambda>p. bucket iv (rp_timestamp p) = b) pts; ds = map rp_value (filter rp_hasDelay g);
       st = filter rp_hasStatus g
     in \<lparr>dp_Timestamp = b, dp_Delay = (if ds = [] then 0 else sum_list ds / of_nat (length ds)),
         dp_Status = (if length st < 2 * length (filter (\<lambda>p. rp_status p \<ge> 1 / 2) st) then 1 else 0)\<rparr>)"

definition buckets :: "int \<Rightarrow> raw_point list \<Rightarrow> int list" where
  "buckets iv pts = sorted_list_of_set ((\<lambda>p. bucket iv (rp_timestamp p)) ` set pts)"

lemma bucket_mono: "0 < iv \<Longrightarrow> s \<le> t \<Longrightarrow> bucket iv s \<le> bucket iv t"
  by (simp add: bucket_def go_div_mono mult_right_mono)

lemma fold_bucket_add:
  "fold bucket_add g (new_bucket k) = \<lparr>ba_start = k, ba_totalDelay = sum_list (map rp_value (filter rp_hasDelay g)),
     ba_delayCount = length (filter rp_hasDelay g), ba_upCount = length (filter (\<lambda>p. rp_status p \<ge> 1 / 2) (filter rp_hasStatus g)),
     ba_statusCount = length (filter rp_hasStatus g)\<rparr>"
  by (induction g rule: rev_induct) (simp_all add: new_bucket_def bucket_add_def Let_def)

lemma flush_is_bucket_point:
  assumes "filter (\<lambda>p. bucket iv (rp_timestamp p) = k) pts = g"
  shows "flushBucket (fold bucket_add g (new_bucket k)) = bucket_point iv pts k"
proof -
  have half: "(0 < n \<and> n div 2 < u) = (n < 2 * u)" if "u \<le> n" for n u :: nat using that by auto
  have le: "length (filter (\<lambda>p. rp_status p \<ge> 1 / 2) (filter rp_hasStatus g)) \<le> length (filter rp_hasStatus g)"
    by (rule length_filter_le)
  show ?thesis unfolding bucket_point_def assms Let_def fold_bucket_add flushBucket_def
    using half [OF le] by simp
qed

lemma sorted_list_of_set_min_cons:
  assumes "finite A" "\<forall>x \<in> A. k < x"
  shows "sorted_list_of_set (insert k A) = k # sorted_list_of_set (A :: int set)"
proof -
  have "k \<notin> A" using assms(2) by auto
  moreover have "Min (insert k A) = k" using assms by (intro Min_eqI) (auto intro: less_imp_le)
  ultimately show ?thesis using sorted_list_of_set_nonempty [of "insert k A"] assms(1) by simp
qed

lemma ds_loop_groups:
  assumes "0 < iv" "sorted (map rp_timestamp ps)" "\<forall>p \<in> set g. bucket iv (rp_timestamp p) = k"
    "\<forall>p \<in> set ps. k \<le> bucket iv (rp_timestamp p)"
  shows "ds_loop iv (fold bucket_add g (new_bucket k)) res ps =
    res @ map (bucket_point iv (g @ ps)) (sorted_list_of_set (insert k ((\<lambda>p. bucket iv (rp_timestamp p)) ` set ps)))"
  using assms(2-4)
proof (induction ps arbitrary: g k res)
  case Nil
  then show ?case using flush_is_bucket_point [of iv k g g] by simp
next
  case (Cons p ps)
  let ?b = "\<lambda>p. bucket iv (rp_timestamp p)"
  have next_le: "\<forall>q \<in> set ps. ?b p \<le> ?b q" using Cons.prems(1) by (auto intro: bucket_mono [OF assms(1)])
  show ?case
  proof (cases "?b p = k")
    case True
    have "ds_loop iv (fold bucket_add (g @ [p]) (new_bucket k)) res ps =
      res @ map (bucket_point iv ((g @ [p]) @ ps)) (sorted_list_of_set (insert k (?b ` set ps)))"
      using Cons.prems True by (intro Cons.IH) auto
    moreover have "insert k (?b ` set (p # ps)) = insert k (?b ` set ps)" using True by auto
    moreover have "ba_start (fold bucket_add g (new_bucket k)) = k" by (simp add: fold_bucket_add)
    ultimately show ?thesis using True by (simp add: Let_def)
  next
    case False
    then have lt: "k < ?b p" using Cons.prems(3) by auto
    have start: "ba_start (fold bucket_add g (new_bucket k)) = k" by (simp add: fold_bucket_add)
    have none: "filter (\<lambda>q. ?b q = k) (p # ps) = []"
      using lt next_le by (auto simp: filter_empty_conv)
    have g: "filter (\<lambda>q. ?b q = k) (g @ p # ps) = g" using none Cons.prems(2) by (simp add: filter_id_conv)
    have flush: "flushBucket (fold bucket_add g (new_bucket k)) = bucket_point iv (g @ p # ps) k"
      using g by (rule flush_is_bucket_point)
    have IH: "ds_loop iv (fold bucket_add [p] (new_bucket (?b p))) (res @ [bucket_point iv (g @ p # ps) k]) ps =
      (res @ [bucket_point iv (g @ p # ps) k]) @ map (bucket_point iv ([p] @ ps)) (sorted_list_of_set (insert (?b p) (?b ` set ps)))"
      using Cons.prems(1) next_le by (intro Cons.IH) auto
    have fin: "finite (?b ` set (p # ps))" "\<forall>x \<in> ?b ` set (p # ps). k < x" using lt next_le by auto
    have tail: "map (bucket_point iv ([p] @ ps)) (sorted_list_of_set (?b ` set (p # ps))) =
      map (bucket_point iv (g @ p # ps)) (sorted_list_of_set (?b ` set (p # ps)))"
    proof (rule map_cong [OF refl])
      fix b assume "b \<in> set (sorted_list_of_set (?b ` set (p # ps)))"
      then have "k < b" using fin by (metis sorted_list_of_set.set_sorted_key_list_of_set)
      then have "filter (\<lambda>q. ?b q = b) g = []" using Cons.prems(2) by (auto simp: filter_empty_conv)
      then show "bucket_point iv ([p] @ ps) b = bucket_point iv (g @ p # ps) b" by (simp add: bucket_point_def)
    qed
    show ?thesis using IH False flush start tail sorted_list_of_set_min_cons [OF fin]
      by (simp add: Let_def)
  qed
qed

lemma downsample_is_grouping_aux:
  assumes "sorted (map rp_timestamp pts)" and "0 < Milliseconds interval"
  shows "downsample pts interval = Ret (map (bucket_point (Milliseconds interval) pts) (buckets (Milliseconds interval) pts))"
proof (cases pts)
  case (Cons p ps)
  let ?iv = "Milliseconds interval"
  have le: "\<forall>q \<in> set pts. bucket ?iv (rp_timestamp p) \<le> bucket ?iv (rp_timestamp q)"
    using assms(1) Cons by (auto intro: bucket_mono [OF assms(2)])
  have "ds_loop ?iv (fold bucket_add [] (new_bucket (bucket ?iv (rp_timestamp p)))) [] pts =
    [] @ map (bucket_point ?iv ([] @ pts)) (sorted_list_of_set (insert (bucket ?iv (rp_timestamp p)) ((\<lambda>p. bucket ?iv (rp_timestamp p)) ` set pts)))"
    using assms le by (intro ds_loop_groups) auto
  then show ?thesis using assms(2) by (simp add: downsample_def Cons Let_def buckets_def)
qed (simp add: downsample_def buckets_def)

text \<open>C15: Downsampling points in order of time gives one point for each bucket that has points, in ascending order: the mean
  of the delays of the bucket, and success when more than half of its states are.\<close>

theorem downsample_is_grouping:
  assumes "sorted (map rp_timestamp pts)" and "0 < Milliseconds interval"
  shows "downsample pts interval = Ret (map (bucket_point (Milliseconds interval) pts) (buckets (Milliseconds interval) pts))"
  using assms by (rule downsample_is_grouping_aux)

definition demo_point :: "int \<Rightarrow> bool \<Rightarrow> raw_point" where
  "demo_point t ok = \<lparr>rp_timestamp = t, rp_value = 4, rp_status = (if ok then 1 else 0), rp_hasDelay = True, rp_hasStatus = True\<rparr>"

theorem downsample_is_grouping_witness:
  "downsample [demo_point 1000 True, demo_point 2000 False, demo_point 61000 True] (30 * second) =
     Ret (map (bucket_point 30000 [demo_point 1000 True, demo_point 2000 False, demo_point 61000 True])
       (buckets 30000 [demo_point 1000 True, demo_point 2000 False, demo_point 61000 True]))"
  using downsample_is_grouping [of "[demo_point 1000 True, demo_point 2000 False, demo_point 61000 True]" "30 * second"]
  by (simp add: Milliseconds_def second_def go_div_def demo_point_def)

subsection \<open>The tags the writer makes\<close>

text \<open>The block a storage that keeps the labels and the values would return for a row.\<close>

definition block_of :: "metric_row \<Rightarrow> tsdb_block" where
  "block_of r = \<lparr>tb_tags = Some (mr_labels r), tb_rows = Some [(mr_timestamp r, mr_value r)]\<rparr>"

text \<open>From the two rows written for a measurement, a reader that filters by service finds the number of the server, and
  one that filters by server the number of the service, each with the time in milliseconds, the delay and the state.\<close>

lemma service_rows_read_back:
  assumes "in_range tr (UnixMilli (vm_Timestamp m), 0)"
  shows "map (\<lambda>r. queryMetric ''server_id'' tr [block_of r]) (service_rows m) =
      [[(vm_ServerID m, [(UnixMilli (vm_Timestamp m), vm_Delay m)])],
       [(vm_ServerID m, [(UnixMilli (vm_Timestamp m), if vm_Successful m then 1 else 0)])]] \<and>
    map (\<lambda>r. queryMetric ''service_id'' tr [block_of r]) (service_rows m) =
      [[(vm_ServiceID m, [(UnixMilli (vm_Timestamp m), vm_Delay m)])],
       [(vm_ServiceID m, [(UnixMilli (vm_Timestamp m), if vm_Successful m then 1 else 0)])]]"
proof -
  have rng: "in_range tr (UnixMilli (vm_Timestamp m), v)" for v using assms by (simp add: in_range_def)
  have ne: "show_uint k \<noteq> []" for k by (simp add: show_uint_def show_nat_nonempty del: show_nat.simps)
  show ?thesis
    by (simp add: service_rows_def makeServiceMetricRow_def block_of_def queryMetric_def add_block_def get_tag_def Let_def ne
        ParseUint_show rng get_or_def)
qed

lemma service_rows_read_back_witness:
  "queryMetric ''server_id'' (0, 10) [block_of (hd (service_rows \<lparr>vm_ServiceID = 7, vm_ServerID = 12, vm_Timestamp = 5000000,
     vm_Delay = 3, vm_Successful = True\<rparr>))] = [(12, [(5, 3)])]"
  using service_rows_read_back [of "(0, 10)" "\<lparr>vm_ServiceID = 7, vm_ServerID = 12, vm_Timestamp = 5000000, vm_Delay = 3, vm_Successful = True\<rparr>"]
  by (simp add: in_range_def UnixMilli_def service_rows_def Let_def)

subsection \<open>The history of a service\<close>

lemma gomap_ok_fold: "(\<And>x m. gomap_ok m \<Longrightarrow> gomap_ok (f x m)) \<Longrightarrow> gomap_ok m \<Longrightarrow> gomap_ok (fold f xs m)"
  by (induction xs arbitrary: m) auto

lemma queryMetric_ok: "gomap_ok (queryMetric tag tr bs)"
  unfolding queryMetric_def
  by (rule gomap_ok_fold) (auto simp: add_block_def Let_def split: option.split)

definition points_nonempty :: "(uint64, (int, raw_point) gomap) gomap \<Rightarrow> bool" where
  "points_nonempty m \<longleftrightarrow> (\<forall>(k, pm) \<in> set m. pm \<noteq> [])"

lemma keys_fold_add_points: "dom (map_of (fold (add_points put) xs m)) = dom (map_of m) \<union> fst ` set xs"
  by (induction xs arbitrary: m) (auto simp: add_points_def gomap_simps split: if_splits)

lemma merge_points_keys:
  "gomap_ok (merge_points d s)" "dom (map_of (merge_points d s)) = fst ` set d \<union> fst ` set s"
proof -
  have "gomap_ok m \<Longrightarrow> gomap_ok (fold (add_points put) xs m)" for put xs m
    by (rule gomap_ok_fold) (auto simp: add_points_def)
  then show "gomap_ok (merge_points d s)" by (simp add: merge_points_def)
  show "dom (map_of (merge_points d s)) = fst ` set d \<union> fst ` set s" by (simp add: merge_points_def keys_fold_add_points)
qed

lemma interval_positive: "0 < Milliseconds (DownsampleInterval p)"
  by (simp add: Milliseconds_def DownsampleInterval_def second_def hour_def go_div_def)

lemma calculateStats_total: "\<exists>s. calculateStats pts (DownsampleInterval p) = Ret s"
  using downsample_is_grouping_aux interval_positive by (auto simp: calculateStats_def Let_def)

lemma stats_all_total: "\<exists>rs. stats_all p m = Ret rs \<and> map fst rs = map fst m"
proof (induction m)
  case (Cons e m)
  obtain k pm where e: "e = (k, pm)" by (cases e)
  obtain s where s: "calculateStats (map snd pm) (DownsampleInterval p) = Ret s" using calculateStats_total by blast
  obtain rs where "stats_all p m = Ret rs" "map fst rs = map fst m" using Cons by blast
  then show ?case by (simp add: e s)
qed simp

text \<open>When the searches succeed, the history of a service always comes back, without a division by zero: one entry for each
  server with a delay or a state in the period, in strictly ascending order of their numbers.\<close>

lemma service_history_servers:
  assumes "\<not> db_closed db" and "search MetricServiceDelay ''service_id'' (show_uint k) (time_range now p) = Some dbs"
    and "search MetricServiceStatus ''service_id'' (show_uint k) (time_range now p) = Some sbs"
  shows "\<exists>r. QueryServiceHistory search now db k p = Ret (Some r) \<and> hr_ServiceID r = k \<and>
    sorted_wrt (<) (map sss_ServerID (hr_Servers r)) \<and>
    set (map sss_ServerID (hr_Servers r)) = fst ` set (queryMetric ''server_id'' (time_range now p) dbs)
      \<union> fst ` set (queryMetric ''server_id'' (time_range now p) sbs)"
proof -
  let ?m = "merge_points (queryMetric ''server_id'' (time_range now p) dbs) (queryMetric ''server_id'' (time_range now p) sbs)"
  obtain rs where rs: "stats_all p ?m = Ret rs" "map fst rs = map fst ?m" using stats_all_total by blast
  let ?f = "\<lambda>(k, s). \<lparr>sss_ServerID = k, sss_Stats = s\<rparr>"
  let ?l = "sort_key sss_ServerID (map ?f rs)"
  have ids: "map sss_ServerID (map ?f rs) = map fst ?m" using rs(2) by (simp add: case_prod_beta comp_def)
  have "distinct (map sss_ServerID (map ?f rs))" using merge_points_keys(1) unfolding ids by (simp add: gomap_ok_def)
  then have "distinct (map sss_ServerID ?l)" by (metis distinct_map distinct_sort set_sort)
  then have "sorted_wrt (<) (map sss_ServerID ?l)" using sorted_sort_key by (simp add: strict_sorted_iff)
  moreover have "set (map sss_ServerID ?l) = dom (map_of ?m)"
    using arg_cong [OF ids, of set] by (simp add: dom_map_of_conv_image_fst image_image)
  ultimately show ?thesis
    using assms rs(1) by (simp add: QueryServiceHistory_def query_both_def merge_points_keys(2))
qed

definition demo_search :: tsdb_search where
  "demo_search metric key v tr = Some [block_of (makeServiceMetricRow metric ''1'' ''12'' 5 3)]"

lemma service_history_servers_witness:
  "\<exists>r. QueryServiceHistory demo_search 10000000 (Tsdb_Open DefaultConfig) 1 Period1Day = Ret (Some r) \<and>
     set (map sss_ServerID (hr_Servers r)) = {12}"
proof -
  have q: "queryMetric ''server_id'' (time_range 10000000 Period1Day) [block_of (makeServiceMetricRow metric ''1'' ''12'' 5 3)] = [(12, [(5, 3)])]"
    for metric
    by (simp add: queryMetric_def add_block_def block_of_def makeServiceMetricRow_def get_tag_def ParseUint_def digit_val_def Let_def
        in_range_def time_range_def Duration_def Period1Day_def Period7Days_def Period30Days_def hour_def UnixMilli_def get_or_def)
  show ?thesis
    using service_history_servers [of "Tsdb_Open DefaultConfig" demo_search 1 10000000 Period1Day
        "[block_of (makeServiceMetricRow MetricServiceDelay ''1'' ''12'' 5 3)]" "[block_of (makeServiceMetricRow MetricServiceStatus ''1'' ''12'' 5 3)]"]
    by (auto simp: demo_search_def q Tsdb_Open_def)
qed

subsection \<open>The day that is lost\<close>

definition no_day :: daily_stats where "no_day = \<lparr>dl_Up = 0, dl_Down = 0, dl_Delay = 0\<rparr>"

lemma slot_of_age:
  assumes "0 \<le> today - ts" "today - ts < 24 * hour"
  shows "go_div (go_div (today - ts) hour) 24 = 0"
proof -
  have h: "0 < hour" by (simp add: hour_def)
  have "0 \<le> (today - ts) div hour" using assms(1) h by (simp add: pos_imp_zdiv_nonneg_iff)
  moreover have "(today - ts) div hour < 24" using assms(2) by (simp add: hour_def)
  ultimately show ?thesis using assms(1) h by (simp add: go_div_nonneg)
qed

text \<open>Points of the last slot leave the others alone.\<close>

lemma last_slot_only:
  assumes "daily_slot today 30 (fst p) = 29" "length st = 30"
  shows "length (daily_status today 30 p st) = 30 \<and> (\<forall>i < 29. daily_status today 30 p st ! i = st ! i)"
    and "length (fst (daily_delay today 30 p (st, cnt))) = 30 \<and> (\<forall>i < 29. fst (daily_delay today 30 p (st, cnt)) ! i = st ! i)"
  using assms by (auto simp: daily_status_def daily_delay_def Let_def)

lemma fold_last_slot:
  assumes "\<forall>p \<in> set ps. daily_slot today 30 (fst p) = 29"
  shows "length st = 30 \<Longrightarrow> length (fold (daily_status today 30) ps st) = 30 \<and> (\<forall>i < 29. fold (daily_status today 30) ps st ! i = st ! i)"
    and "length st = 30 \<Longrightarrow> length (fst (fold (daily_delay today 30) ps (st, cnt))) = 30 \<and>
      (\<forall>i < 29. fst (fold (daily_delay today 30) ps (st, cnt)) ! i = st ! i)"
  using assms
proof (induction ps arbitrary: st cnt)
  case (Cons p ps)
  { case 1 then show ?case using Cons.IH(1) [of "daily_status today 30 p st"] last_slot_only(1) [of today p st] by auto }
  { case 2
    obtain st1 cnt1 where d: "daily_delay today 30 p (st, cnt) = (st1, cnt1)" by fastforce
    show ?case using Cons.IH(2) [of st1 cnt1] last_slot_only(2) [of today p st cnt] 2 by (auto simp: d) }
qed auto

text \<open>The points a search result gives are rows of its blocks within the range.\<close>

definition block_points :: "tsdb_block list \<Rightarrow> metric_point set" where
  "block_points bs = (\<Union>b \<in> set bs. case tb_rows b of None \<Rightarrow> {} | Some rows \<Rightarrow> set rows)"

lemma set_alist_update: "set (AList.update k v m) \<subseteq> insert (k, v) (set m)"
  by (induction m) auto

lemma add_block_points:
  "\<Union> (set ` snd ` set (add_block tag tr b m)) \<subseteq> \<Union> (set ` snd ` set m) \<union> {p \<in> block_points [b]. in_range tr p}"
proof -
  have upd: "\<Union> (set ` snd ` set (AList.update k (get_or [] m k @ ps) m)) \<subseteq> \<Union> (set ` snd ` set m) \<union> set ps" for k ps
  proof -
    have "set (get_or [] m k) \<subseteq> \<Union> (set ` snd ` set m)"
    proof (cases "map_of m k")
      case (Some v)
      then have "(k, v) \<in> set m" by (rule map_of_SomeD)
      then show ?thesis using Some by (force simp: get_or_def)
    qed (simp add: get_or_def)
    then show ?thesis using set_alist_update [of k "get_or [] m k @ ps" m] by force
  qed
  have pts: "set (filter (in_range tr) rows) \<subseteq> {p \<in> block_points [b]. in_range tr p}" if "tb_rows b = Some rows" for rows
    using that by (auto simp: block_points_def)
  have "add_block tag tr b m = m \<or> (\<exists>k rows. tb_rows b = Some rows \<and>
      add_block tag tr b m = AList.update k (get_or [] m k @ filter (in_range tr) rows) m)"
    by (auto simp: add_block_def Let_def split: option.split)
  then show ?thesis
  proof
    assume "\<exists>k rows. tb_rows b = Some rows \<and> add_block tag tr b m = AList.update k (get_or [] m k @ filter (in_range tr) rows) m"
    then obtain k rows where r: "tb_rows b = Some rows"
      and eq: "add_block tag tr b m = AList.update k (get_or [] m k @ filter (in_range tr) rows) m" by blast
    show ?thesis unfolding eq using upd [of k "filter (in_range tr) rows"] pts [OF r] by (meson Un_mono order_refl subset_trans)
  qed auto
qed

lemma queryMetric_points:
  "\<Union> (set ` snd ` set (queryMetric tag tr bs)) \<subseteq> {p \<in> block_points bs. in_range tr p}"
proof -
  have "\<Union> (set ` snd ` set (fold (add_block tag tr) bs m)) \<subseteq> \<Union> (set ` snd ` set m) \<union> {p \<in> block_points bs. in_range tr p}" for m
  proof (induction bs arbitrary: m)
    case (Cons b bs)
    have "block_points (b # bs) = block_points [b] \<union> block_points bs" by (simp add: block_points_def)
    then show ?case using Cons.IH [of "add_block tag tr b m"] add_block_points [of tag tr b m] by auto
  qed simp
  from this [of "[]"] show ?thesis by (simp add: queryMetric_def)
qed

lemma queried_point:
  assumes "p \<in> set (concat (map snd (queryMetric tag tr bs)))"
  shows "p \<in> block_points bs \<and> in_range tr p"
  using queryMetric_points [of tag tr bs] assms by fastforce

lemma load_empty_days:
  assumes "\<forall>i < 29. ds ! i = no_day"
  shows "ri_TotalUp (load_tsdb_item ds r) = ri_TotalUp r \<and> ri_TotalDown (load_tsdb_item ds r) = ri_TotalDown r"
proof -
  define f where "f i r = (let d = ds ! i in r\<lparr>ri_Up := (ri_Up r)[i := dl_Up d], ri_TotalUp := ri_TotalUp r + dl_Up d,
       ri_Down := (ri_Down r)[i := dl_Down d], ri_TotalDown := ri_TotalDown r + dl_Down d,
       ri_Delay := (ri_Delay r)[i := dl_Delay d]\<rparr>)" for i and r :: response_item
  have "ri_TotalUp (fold f is r) = ri_TotalUp r \<and> ri_TotalDown (fold f is r) = ri_TotalDown r"
    if "\<forall>i \<in> set is. ds ! i = no_day" for "is" r
    using that by (induction "is" arbitrary: r) (simp_all add: f_def no_day_def)
  moreover have "\<forall>i \<in> set [0..<29]. ds ! i = no_day" using assms by (simp only: set_upt atLeastLessThan_iff) simp
  moreover have "load_tsdb_item ds r = fold f [0..<29] r" unfolding load_tsdb_item_def f_def ..
  ultimately show ?thesis by metis
qed

text \<open>When every point of a service lies in the 24 hours before \<open>today\<close>, which is yesterday for the \<open>today\<close> of the start,
  the days the time-series database gives for its month are all empty and the loaded totals stay as they were; a row of the
  same age from the table of histories goes to the last day before today.\<close>

lemma tsdb_month_loses_yesterday:
  assumes "QueryServiceDailyStats search db k today 30 = Some ds" and "today mod 1000000 = 0"
    and "\<forall>m key v tr bs. search m key v tr = Some bs \<longrightarrow> (\<forall>p \<in> block_points bs. today - 24 * hour < fst p * 1000000)"
    and "today - 24 * hour < sh_CreatedAt mh" and "sh_CreatedAt mh < today"
  shows "(\<forall>i < 29. ds ! i = no_day) \<and> ri_TotalUp (load_tsdb_item ds r) = ri_TotalUp r \<and>
    ri_TotalDown (load_tsdb_item ds r) = ri_TotalDown r \<and> day_index today mh = 28"
proof -
  define tr where "tr = (UnixMilli (today - (int 30 - 1) * 24 * hour), UnixMilli today)"
  obtain sbs dbs where s: "search MetricServiceStatus ''service_id'' (show_uint k) tr = Some sbs"
    and d: "search MetricServiceDelay ''service_id'' (show_uint k) tr = Some dbs"
    and ds: "ds = fst (fold (daily_delay today 30) (concat (map snd (queryMetric ''server_id'' tr dbs)))
      (fold (daily_status today 30) (concat (map snd (queryMetric ''server_id'' tr sbs))) (replicate 30 no_day), replicate 30 0))"
  proof -
    have nc: "\<not> db_closed db" using assms(1) by (auto simp: QueryServiceDailyStats_def)
    have q: "QueryServiceDailyStats search db k today 30 = (case search MetricServiceStatus ''service_id'' (show_uint k) tr of None \<Rightarrow> None
      | Some sbs \<Rightarrow> (case search MetricServiceDelay ''service_id'' (show_uint k) tr of None \<Rightarrow> None | Some dbs \<Rightarrow>
        Some (fst (fold (daily_delay today 30) (concat (map snd (queryMetric ''server_id'' tr dbs)))
          (fold (daily_status today 30) (concat (map snd (queryMetric ''server_id'' tr sbs))) (replicate 30 no_day), replicate 30 0)))))"
      unfolding QueryServiceDailyStats_def Let_def tr_def no_day_def by (simp only: nc if_False)
    show thesis
    proof (cases "search MetricServiceStatus ''service_id'' (show_uint k) tr")
      case (Some sbs)
      then show thesis using assms(1) that [OF Some] unfolding q
        by (cases "search MetricServiceDelay ''service_id'' (show_uint k) tr") simp_all
    qed (use assms(1) q in simp)
  qed
  have slot: "daily_slot today 30 (fst p) = 29" if "p \<in> set (concat (map snd (queryMetric tag tr bs)))"
    "\<forall>p \<in> block_points bs. today - 24 * hour < fst p * 1000000" for p tag bs
  proof -
    have "fst p \<le> today div 1000000" using queried_point [OF that(1)] by (simp add: in_range_def tr_def UnixMilli_def)
    then have "fst p * 1000000 \<le> today div 1000000 * 1000000" by (rule mult_right_mono) simp
    moreover have "today div 1000000 * 1000000 = today" using assms(2) div_mult_mod_eq [of today 1000000] by simp
    ultimately have "0 \<le> today - fst p * 1000000" by simp
    moreover have "today - fst p * 1000000 < 24 * hour" using bspec [OF that(2), of p] queried_point [OF that(1)] by simp
    ultimately show ?thesis by (simp add: daily_slot_def slot_of_age)
  qed
  let ?ss = "concat (map snd (queryMetric ''server_id'' tr sbs))" and ?dd = "concat (map snd (queryMetric ''server_id'' tr dbs))"
  have ls: "\<forall>p \<in> set ?ss. daily_slot today 30 (fst p) = 29" "\<forall>p \<in> set ?dd. daily_slot today 30 (fst p) = 29"
    using slot s d assms(3) by blast+
  have f1: "length (fold (daily_status today 30) ?ss (replicate 30 no_day)) = 30"
    "\<forall>i < 29. fold (daily_status today 30) ?ss (replicate 30 no_day) ! i = no_day"
    using fold_last_slot(1) [OF ls(1), of "replicate 30 no_day"] by simp_all
  have zero: "\<forall>i < 29. ds ! i = no_day"
    using fold_last_slot(2) [OF ls(2) f1(1), of "replicate 30 0"] f1(2) unfolding ds by simp
  have "ri_TotalUp (load_tsdb_item ds r) = ri_TotalUp r \<and> ri_TotalDown (load_tsdb_item ds r) = ri_TotalDown r"
    using zero by (rule load_empty_days)
  moreover have "day_index today mh = 28" using assms(4,5) slot_of_age [of today "sh_CreatedAt mh"] by (simp add: day_index_def)
  ultimately show ?thesis using zero by simp
qed

lemma tsdb_month_loses_yesterday_witness:
  "\<exists>ds. QueryServiceDailyStats (\<lambda>m key v tr. Some [block_of (makeServiceMetricRow m ''1'' ''12'' 2591999000 1)])
      (Tsdb_Open DefaultConfig) 1 (30 * 24 * hour) 30 = Some ds \<and> (\<forall>i < 29. ds ! i = no_day)"
proof -
  let ?s = "\<lambda>m key v tr. Some [block_of (makeServiceMetricRow m ''1'' ''12'' 2591999000 1)] :: tsdb_block list option"
  obtain ds where ds: "QueryServiceDailyStats ?s (Tsdb_Open DefaultConfig) 1 (30 * 24 * hour) 30 = Some ds"
    by (simp add: QueryServiceDailyStats_def Tsdb_Open_def Let_def)
  have "(\<forall>i < 29. ds ! i = no_day) \<and> ri_TotalUp (load_tsdb_item ds (new_item undefined)) = ri_TotalUp (new_item undefined) \<and>
    ri_TotalDown (load_tsdb_item ds (new_item undefined)) = ri_TotalDown (new_item undefined) \<and>
    day_index (30 * 24 * hour) \<lparr>sh_ServiceID = 1, sh_CreatedAt = 30 * 24 * hour - 1, sh_AvgDelay = 0, sh_Up = 0, sh_Down = 0\<rparr> = 28"
    by (rule tsdb_month_loses_yesterday [OF ds]) (auto simp: hour_def block_points_def block_of_def makeServiceMetricRow_def)
  then show ?thesis using ds by blast
qed

end
