(* ===== verification/Registry.thy ===== *)
theory Registry
  imports Server_Model
begin

text \<open>
  The registries of the dashboard (\<open>class\<close> in \<open>service/singleton/singleton.go\<close>): a map guarded by a lock and a sorted
  list of its values that is rebuilt after each change. The interface \<open>sorted_registry\<close> states what every registry keeps;
  it is interpreted here on the NAT profiles (\<open>nat.go\<close>) and the DDNS profiles (\<open>ddns.go\<close>), and by the theories of the
  scheduled tasks and of the servers.
\<close>

subsection \<open>The interface\<close>

locale sorted_registry =
  fixes entries :: "'s \<Rightarrow> ('k, 'v) gomap" and view :: "'s \<Rightarrow> 'v list" and rank :: "'v \<Rightarrow> 'o :: linorder"
    and oper :: "'op \<Rightarrow> 's \<Rightarrow> 's go"
  assumes view_oper: "oper x s = Ret s' \<Longrightarrow> view s' = sort_key rank (map snd (entries s'))"
    and entries_ok: "oper x s = Ret s' \<Longrightarrow> gomap_ok (entries s) \<Longrightarrow> gomap_ok (entries s')"
begin

definition in_sync :: "'s \<Rightarrow> bool" where
  "in_sync s \<longleftrightarrow> gomap_ok (entries s) \<and> mset (view s) = mset (map snd (entries s)) \<and> sorted (map rank (view s))"

definition run :: "'op list \<Rightarrow> 's \<Rightarrow> 's go" where
  "run xs s = go_foldM (\<lambda>s x. oper x s) s xs"

lemma in_sync_oper: "oper x s = Ret s' \<Longrightarrow> gomap_ok (entries s) \<Longrightarrow> in_sync s'"
  by (simp add: in_sync_def view_oper [of x s s'] entries_ok [of x s s'])

lemma in_sync_run: "run xs s = Ret s' \<Longrightarrow> in_sync s \<Longrightarrow> in_sync s'"
  unfolding run_def by (erule go_foldM_invariant) (use in_sync_oper in \<open>auto simp: in_sync_def\<close>)

lemma view_members:
  assumes "in_sync s"
  shows "v \<in> set (view s) \<longleftrightarrow> (\<exists>k. map_of (entries s) k = Some v)"
proof -
  have "set (view s) = snd ` set (entries s)" using assms unfolding in_sync_def by (metis set_mset_mset list.set_map)
  also have "v \<in> \<dots> \<longleftrightarrow> (\<exists>k. (k, v) \<in> set (entries s))" by (simp add: image_iff Bex_def)
  finally show ?thesis using assms by (simp add: in_sync_def gomap_ok_lookup)
qed

end

text \<open>A registry keyed by a number of its values on which the rank agrees: the list does not depend on the order of iteration.\<close>

locale keyed_registry = sorted_registry entries view rank oper
  for entries :: "'s \<Rightarrow> ('k, 'v) gomap" and view :: "'s \<Rightarrow> 'v list" and rank :: "'v \<Rightarrow> 'o :: linorder"
    and oper :: "'op \<Rightarrow> 's \<Rightarrow> 's go" +
  fixes key :: "'v \<Rightarrow> 'k"
  assumes rank_key: "rank v = rank w \<Longrightarrow> key v = key w"
    and key_oper: "oper x s = Ret s' \<Longrightarrow> (\<And>k v. map_of (entries s) k = Some v \<Longrightarrow> key v = k) \<Longrightarrow> map_of (entries s') k = Some v \<Longrightarrow> key v = k"
begin

definition keyed :: "'s \<Rightarrow> bool" where
  "keyed s \<longleftrightarrow> in_sync s \<and> (\<forall>k v. map_of (entries s) k = Some v \<longrightarrow> key v = k)"

lemma keyed_run: "run xs s = Ret s' \<Longrightarrow> keyed s \<Longrightarrow> keyed s'"
  unfolding run_def
proof (erule go_foldM_invariant)
  fix s x s' assume "keyed s" "oper x s = Ret s'"
  then show "keyed s'" unfolding keyed_def by (meson in_sync_def in_sync_oper key_oper)
qed

lemma keyed_inj:
  assumes "keyed s"
  shows "inj_on rank (set (view s))"
proof
  fix v w assume v: "v \<in> set (view s)" "w \<in> set (view s)" and "rank v = rank w"
  then have "key v = key w" using rank_key by blast
  moreover obtain i j where "map_of (entries s) i = Some v" "map_of (entries s) j = Some w"
    using v assms view_members unfolding keyed_def by metis
  ultimately show "v = w" using assms unfolding keyed_def by (metis option.inject)
qed

lemma view_any_order:
  assumes "keyed s" and "mset m = mset (entries s)"
  shows "sort_key rank (map snd m) = view s"
proof -
  have e: "mset (map snd m) = mset (view s)" using assms unfolding keyed_def in_sync_def by (metis mset_map)
  then have "sort_key rank (map snd m) = sort_key rank (view s)"
    using keyed_inj [OF assms(1)] by (intro sort_key_cong_mset) (simp_all only: mset_eq_setD [OF e])
  also have "\<dots> = view s" using assms(1) by (simp add: keyed_def in_sync_def sort_key_id_if_sorted)
  finally show ?thesis .
qed

lemma view_distinct:
  assumes "keyed s"
  shows "distinct (map key (view s))"
proof -
  have "(\<lambda>(k, v). key v) p = fst p" if "p \<in> set (entries s)" for p
    using assms that gomap_ok_lookup [of "entries s" "fst p" "snd p"] unfolding keyed_def in_sync_def by (cases p) auto
  then have "map (\<lambda>(k, v). key v) (entries s) = map fst (entries s)" by (rule map_cong [OF refl])
  then have "distinct (map (\<lambda>(k, v). key v) (entries s))" using assms by (simp only: keyed_def in_sync_def gomap_ok_def)
  moreover have "mset (map key (view s)) = mset (map (\<lambda>(k, v). key v) (entries s))"
    using assms unfolding keyed_def in_sync_def by (simp add: image_mset.compositionality comp_def case_prod_unfold)
  ultimately show ?thesis by (metis mset_eq_imp_distinct_iff)
qed

lemma view_lookup:
  assumes "keyed s"
  shows "List.find (\<lambda>v. key v = k) (view s) = map_of (entries s) k"
proof (cases "List.find (\<lambda>v. key v = k) (view s)")
  case None
  then have none: "v \<in> set (view s) \<Longrightarrow> key v \<noteq> k" for v by (auto simp: find_None_iff)
  show ?thesis
  proof (cases "map_of (entries s) k")
    case (Some v)
    then have "v \<in> set (view s)" "key v = k" using assms view_members unfolding keyed_def by blast+
    then show ?thesis using none by blast
  qed (simp add: None)
next
  case (Some v)
  then have "v \<in> set (view s)" "key v = k" by (auto simp: find_Some_iff)
  then obtain j where "map_of (entries s) j = Some v" using assms view_members unfolding keyed_def by blast
  moreover then have "j = k" using assms \<open>key v = k\<close> unfolding keyed_def by blast
  ultimately show ?thesis using Some by simp
qed

end

subsection \<open>\<open>class\<close>\<close>

definition class_Get :: "('k, 'v) gomap \<Rightarrow> 'k \<Rightarrow> 'v option" where
  "class_Get m k = map_of m k"

definition class_CheckPermission :: "('v \<Rightarrow> uint64) \<Rightarrow> user option \<Rightarrow> 'k list \<Rightarrow> ('k, 'v) gomap \<Rightarrow> bool" where
  "class_CheckPermission owner auth ids m \<longleftrightarrow>
     (\<forall>k \<in> set ids. case map_of m k of None \<Rightarrow> True | Some v \<Rightarrow> HasPermission auth (owner v))"

text \<open>\<open>Range\<close>: the visitor returns whether to go on; its effects are a state.\<close>

fun class_Range :: "('k \<Rightarrow> 'v \<Rightarrow> 'a \<Rightarrow> bool \<times> 'a) \<Rightarrow> ('k, 'v) gomap \<Rightarrow> 'a \<Rightarrow> 'a" where
  "class_Range f [] a = a" |
  "class_Range f ((k, v) # m) a = (let (more, a') = f k v a in if more then class_Range f m a' else a')"

subsection \<open>NAT profiles\<close>

record nat_profile =
  np_ID :: uint64
  np_UserID :: uint64
  np_Enabled :: bool
  np_Name :: string
  np_ServerID :: uint64
  np_Host :: string
  np_Domain :: string

record nat_class =
  na_list :: "(string, nat_profile) gomap"
  na_idToDomain :: "(uint64, string) gomap"
  na_sortedList :: "nat_profile list"

definition na_sortList :: "nat_class \<Rightarrow> nat_class" where
  "na_sortList c = c\<lparr>na_sortedList := sort_key np_ID (MapValuesToSlice (na_list c))\<rparr>"

definition NewNATClass :: "nat_profile list \<Rightarrow> nat_class" where
  "NewNATClass rows = \<lparr>na_list = fold (\<lambda>p. AList.update (np_Domain p) p) rows [],
     na_idToDomain = fold (\<lambda>p. AList.update (np_ID p) (np_Domain p)) rows [], na_sortedList = rows\<rparr>"

definition NAT_Update :: "nat_profile \<Rightarrow> nat_class \<Rightarrow> nat_class" where
  "NAT_Update n c =
     (let l = (case map_of (na_idToDomain c) (np_ID n) of
          Some old \<Rightarrow> if old \<noteq> np_Domain n then AList.delete old (na_list c) else na_list c
        | None \<Rightarrow> na_list c)
      in na_sortList (c\<lparr>na_list := AList.update (np_Domain n) n l, na_idToDomain := AList.update (np_ID n) (np_Domain n) (na_idToDomain c)\<rparr>))"

definition nat_delete1 :: "uint64 \<Rightarrow> nat_class \<Rightarrow> nat_class" where
  "nat_delete1 k c = (case map_of (na_idToDomain c) k of None \<Rightarrow> c
     | Some d \<Rightarrow> c\<lparr>na_list := AList.delete d (na_list c), na_idToDomain := AList.delete k (na_idToDomain c)\<rparr>)"

definition NAT_Delete :: "uint64 list \<Rightarrow> nat_class \<Rightarrow> nat_class" where
  "NAT_Delete ids c = na_sortList (fold nat_delete1 ids c)"

definition GetNATConfigByDomain :: "string \<Rightarrow> nat_class \<Rightarrow> nat_profile option" where
  "GetNATConfigByDomain d c = map_of (na_list c) d"

definition GetDomain :: "uint64 \<Rightarrow> nat_class \<Rightarrow> string" where
  "GetDomain k c = get_or [] (na_idToDomain c) k"

datatype nat_op = NatUpdate nat_profile | NatDelete "uint64 list"

fun nat_oper :: "nat_op \<Rightarrow> nat_class \<Rightarrow> nat_class go" where
  "nat_oper (NatUpdate n) c = Ret (NAT_Update n c)" |
  "nat_oper (NatDelete ids) c = Ret (NAT_Delete ids c)"

lemma fold_ok: "(\<And>x s. P s \<Longrightarrow> P (f x s)) \<Longrightarrow> P s \<Longrightarrow> P (fold f xs s)"
  by (induction xs arbitrary: s) auto

interpretation nat_reg: sorted_registry na_list na_sortedList np_ID nat_oper
proof
  show "na_sortedList s' = sort_key np_ID (map snd (na_list s'))" if "nat_oper x s = Ret s'" for x s s'
    using that by (cases x) (auto simp: NAT_Update_def NAT_Delete_def na_sortList_def MapValuesToSlice_def Let_def)
  show "gomap_ok (na_list s')" if x: "nat_oper x s = Ret s'" and ok: "gomap_ok (na_list s)" for x s s'
  proof (cases x)
    case (NatDelete ids)
    have "gomap_ok (na_list (fold nat_delete1 ids s))"
      using ok by (rule fold_ok [where P = "\<lambda>s. gomap_ok (na_list s)", rotated]) (auto simp: nat_delete1_def split: option.split)
    then show ?thesis using x by (auto simp: NatDelete NAT_Delete_def na_sortList_def)
  next
    case (NatUpdate n)
    then show ?thesis using x ok by (auto simp: NAT_Update_def na_sortList_def Let_def split: option.split)
  qed
qed

text \<open>
  The two maps agree: an entry by domain is the entry of its own number, and the number leads back to the domain. An
  update keeps this when it does not take the domain of another profile, which the database forbids.
\<close>

definition nat_ok :: "nat_class \<Rightarrow> bool" where
  "nat_ok c \<longleftrightarrow> (\<forall>d p. map_of (na_list c) d = Some p \<longrightarrow> np_Domain p = d \<and> map_of (na_idToDomain c) (np_ID p) = Some d) \<and>
     (\<forall>k d. map_of (na_idToDomain c) k = Some d \<longrightarrow> (\<exists>p. map_of (na_list c) d = Some p \<and> np_ID p = k))"

fun nat_op_ok :: "nat_op \<Rightarrow> nat_class \<Rightarrow> bool" where
  "nat_op_ok (NatUpdate n) c \<longleftrightarrow> (\<forall>p. map_of (na_list c) (np_Domain n) = Some p \<longrightarrow> np_ID p = np_ID n)" |
  "nat_op_ok (NatDelete ids) c \<longleftrightarrow> True"

lemma nat_delete1_ok: "nat_ok c \<Longrightarrow> nat_ok (nat_delete1 k c)"
proof (cases "map_of (na_idToDomain c) k")
  case (Some d)
  assume ok: "nat_ok c"
  then obtain p where p: "map_of (na_list c) d = Some p" "np_ID p = k" using Some unfolding nat_ok_def by blast
  have other: "j = k" if "map_of (na_idToDomain c) j = Some d" for j using ok that p unfolding nat_ok_def by (metis option.inject)
  have dom: "e = d" if "map_of (na_list c) e = Some q" "np_ID q = k" for e q using ok that Some unfolding nat_ok_def by (metis option.inject)
  show ?thesis unfolding nat_ok_def
  proof (intro conjI allI impI)
    fix e q assume "map_of (na_list (nat_delete1 k c)) e = Some q"
    then have e: "e \<noteq> d" "map_of (na_list c) e = Some q" by (auto simp: nat_delete1_def Some gomap_simps split: if_splits)
    then show "np_Domain q = e" using ok unfolding nat_ok_def by blast
    have "np_ID q \<noteq> k" using dom e by blast
    then show "map_of (na_idToDomain (nat_delete1 k c)) (np_ID q) = Some e"
      using ok e unfolding nat_ok_def by (simp add: nat_delete1_def Some gomap_simps)
  next
    fix j e assume "map_of (na_idToDomain (nat_delete1 k c)) j = Some e"
    then have j: "j \<noteq> k" "map_of (na_idToDomain c) j = Some e" by (auto simp: nat_delete1_def Some gomap_simps split: if_splits)
    then have "e \<noteq> d" using other by blast
    then show "\<exists>q. map_of (na_list (nat_delete1 k c)) e = Some q \<and> np_ID q = j"
      using ok j unfolding nat_ok_def by (simp add: nat_delete1_def Some gomap_simps)
  qed
qed (simp add: nat_delete1_def)

lemma nat_ok_sort [simp]: "nat_ok (na_sortList c) = nat_ok c"
  by (simp add: nat_ok_def na_sortList_def)

lemma NAT_Update_ok:
  assumes "nat_ok c" "nat_op_ok (NatUpdate n) c"
  shows "nat_ok (NAT_Update n c)"
proof -
  define k d where "k = np_ID n" and "d = np_Domain n"
  have look: "map_of (na_list (NAT_Update n c)) e = (if e = d then Some n
      else if map_of (na_idToDomain c) k = Some e then None else map_of (na_list c) e)" for e
    by (auto simp: NAT_Update_def na_sortList_def Let_def gomap_simps k_def d_def split: option.split)
  have idx: "map_of (na_idToDomain (NAT_Update n c)) j = (if j = k then Some d else map_of (na_idToDomain c) j)" for j
    by (auto simp: NAT_Update_def na_sortList_def Let_def gomap_simps k_def d_def)
  have own: "map_of (na_idToDomain c) j = Some d \<Longrightarrow> j = k" for j
    using assms unfolding nat_ok_def k_def d_def by (metis nat_op_ok.simps(1))
  show ?thesis unfolding nat_ok_def look idx
  proof (intro conjI allI impI)
    fix e p assume e: "(if e = d then Some n else if map_of (na_idToDomain c) k = Some e then None else map_of (na_list c) e) = Some p"
    show "np_Domain p = e" using e assms(1) by (auto simp: nat_ok_def d_def split: if_splits)
    show "(if np_ID p = k then Some d else map_of (na_idToDomain c) (np_ID p)) = Some e"
    proof (cases "e = d")
      case True
      then show ?thesis using e by (simp add: k_def)
    next
      case False
      then have p: "map_of (na_idToDomain c) k \<noteq> Some e" "map_of (na_list c) e = Some p" using e by (auto split: if_splits)
      then have i: "map_of (na_idToDomain c) (np_ID p) = Some e" using assms(1) unfolding nat_ok_def by blast
      then have "np_ID p \<noteq> k" using p(1) by metis
      then show ?thesis using i by simp
    qed
  next
    fix j e assume j: "(if j = k then Some d else map_of (na_idToDomain c) j) = Some e"
    show "\<exists>p. (if e = d then Some n else if map_of (na_idToDomain c) k = Some e then None else map_of (na_list c) e) = Some p \<and> np_ID p = j"
    proof (cases "j = k")
      case False
      then have je: "map_of (na_idToDomain c) j = Some e" using j by simp
      then have "e \<noteq> d" using own False by blast
      moreover obtain p where p: "map_of (na_list c) e = Some p" "np_ID p = j" using assms(1) je unfolding nat_ok_def by blast
      moreover have "map_of (na_idToDomain c) k \<noteq> Some e" using assms(1) p False unfolding nat_ok_def by (metis option.inject)
      ultimately show ?thesis by auto
    qed (use j in \<open>simp add: k_def\<close>)
  qed
qed

subsection \<open>DDNS profiles\<close>

definition ddns_providers :: "string list" where
  "ddns_providers = [''dummy'', ''webhook'', ''cloudflare'', ''tencentcloud'', ''he'']"

record ddns_profile =
  dd_ID :: uint64
  dd_UserID :: uint64
  dd_Name :: string
  dd_Provider :: string
  dd_MaxRetries :: uint64
  dd_AccessID :: string
  dd_AccessSecret :: string
  dd_Domains :: "string list"

record ddns_class =
  dc_list :: "(uint64, ddns_profile) gomap"
  dc_sortedList :: "ddns_profile list"

definition dc_sortList :: "ddns_class \<Rightarrow> ddns_class" where
  "dc_sortList c = c\<lparr>dc_sortedList := sort_key dd_ID (MapValuesToSlice (dc_list c))\<rparr>"

definition NewDDNSClass :: "ddns_profile list \<Rightarrow> ddns_class" where
  "NewDDNSClass rows = \<lparr>dc_list = fold (\<lambda>p. AList.update (dd_ID p) p) rows [], dc_sortedList = rows\<rparr>"

definition DDNS_Update :: "ddns_profile \<Rightarrow> ddns_class \<Rightarrow> ddns_class" where
  "DDNS_Update p c = dc_sortList (c\<lparr>dc_list := AList.update (dd_ID p) p (dc_list c)\<rparr>)"

definition DDNS_Delete :: "uint64 list \<Rightarrow> ddns_class \<Rightarrow> ddns_class" where
  "DDNS_Delete ids c = dc_sortList (c\<lparr>dc_list := delete_all ids (dc_list c)\<rparr>)"

datatype ddns_op = DdnsUpdate ddns_profile | DdnsDelete "uint64 list"

fun ddns_oper :: "ddns_op \<Rightarrow> ddns_class \<Rightarrow> ddns_class go" where
  "ddns_oper (DdnsUpdate p) c = Ret (DDNS_Update p c)" |
  "ddns_oper (DdnsDelete ids) c = Ret (DDNS_Delete ids c)"

interpretation ddns_reg: keyed_registry dc_list dc_sortedList dd_ID ddns_oper dd_ID
proof
  show "dc_sortedList s' = sort_key dd_ID (map snd (dc_list s'))" if "ddns_oper x s = Ret s'" for x s s'
    using that by (cases x) (auto simp: DDNS_Update_def DDNS_Delete_def dc_sortList_def MapValuesToSlice_def)
  show "gomap_ok (dc_list s')" if "ddns_oper x s = Ret s'" "gomap_ok (dc_list s)" for x s s'
    using that by (cases x) (auto simp: DDNS_Update_def DDNS_Delete_def dc_sortList_def)
  show "dd_ID v = k" if "ddns_oper x s = Ret s'" "\<And>k v. map_of (dc_list s) k = Some v \<Longrightarrow> dd_ID v = k"
    "map_of (dc_list s') k = Some v" for x s s' k v
    using that by (cases x) (auto simp: DDNS_Update_def DDNS_Delete_def dc_sortList_def gomap_simps split: if_splits)
qed simp

text \<open>The profiles behind a list of numbers, all known and all of a known provider; otherwise an error.\<close>

fun lookup_profiles :: "(uint64, ddns_profile) gomap \<Rightarrow> uint64 list \<Rightarrow> string + ddns_profile list" where
  "lookup_profiles m [] = Inr []" |
  "lookup_profiles m (k # ks) = (case map_of m k of None \<Rightarrow> Inl (''cannot find DDNS profile '' @ show_uint k)
     | Some p \<Rightarrow> (case lookup_profiles m ks of Inl e \<Rightarrow> Inl e | Inr ps \<Rightarrow> Inr (p # ps)))"

fun make_providers :: "ddns_profile list \<Rightarrow> string + ddns_profile list" where
  "make_providers [] = Inr []" |
  "make_providers (p # ps) = (if dd_Provider p \<in> set ddns_providers
     then (case make_providers ps of Inl e \<Rightarrow> Inl e | Inr qs \<Rightarrow> Inr (p # qs))
     else Inl (''cannot find DDNS provider '' @ dd_Provider p))"

definition GetDDNSProvidersFromProfiles :: "uint64 list \<Rightarrow> ddns_class \<Rightarrow> string + ddns_profile list" where
  "GetDDNSProvidersFromProfiles ids c = (case lookup_profiles (dc_list c) ids of Inl e \<Rightarrow> Inl e | Inr ps \<Rightarrow> make_providers ps)"

lemma lookup_profiles_iff: "lookup_profiles m ids = Inr qs \<longleftrightarrow> map (map_of m) ids = map Some qs"
proof (induction ids arbitrary: qs)
  case (Cons k ks)
  have "lookup_profiles m (k # ks) = Inr qs \<longleftrightarrow> (\<exists>p ps. map_of m k = Some p \<and> lookup_profiles m ks = Inr ps \<and> qs = p # ps)"
    by (auto split: option.split sum.split)
  also have "\<dots> \<longleftrightarrow> (\<exists>p ps. map_of m k = Some p \<and> map (map_of m) ks = map Some ps \<and> qs = p # ps)" by (simp only: Cons.IH)
  also have "\<dots> \<longleftrightarrow> map (map_of m) (k # ks) = map Some qs" by (cases qs) simp_all
  finally show ?case .
next
  case Nil
  show ?case by (cases qs) simp_all
qed

lemma make_providers_iff: "make_providers qs = Inr rs \<longleftrightarrow> rs = qs \<and> (\<forall>p \<in> set qs. dd_Provider p \<in> set ddns_providers)"
proof (induction qs arbitrary: rs)
  case (Cons q qs)
  then show ?case by (cases "make_providers qs") auto
next
  case Nil
  show ?case by (cases rs) simp_all
qed

lemma providers_all_or_error:
  "GetDDNSProvidersFromProfiles ids c = Inr ps \<longleftrightarrow>
     map (map_of (dc_list c)) ids = map Some ps \<and> (\<forall>p \<in> set ps. dd_Provider p \<in> set ddns_providers)"
proof -
  have "GetDDNSProvidersFromProfiles ids c = Inr ps \<longleftrightarrow> (\<exists>qs. lookup_profiles (dc_list c) ids = Inr qs \<and> make_providers qs = Inr ps)"
    by (simp add: GetDDNSProvidersFromProfiles_def split: sum.split)
  then show ?thesis unfolding make_providers_iff lookup_profiles_iff by blast
qed

end
