(* ===== verification/Server_Registry.thy ===== *)
theory Server_Registry
  imports Registry
begin

text \<open>
  The registry of servers (\<open>service/singleton/server.go\<close>, \<open>model/server.go\<close>) and the batch deletion of the
  dashboard (\<open>cmd/dashboard/controller/server.go\<close>).

  \<open>sr_stuck\<close> tells that \<open>listMu\<close> is held for writing by a goroutine that panicked: \<open>Delete\<close> and \<open>Update\<close> release it
  without \<open>defer\<close>, so every later use of the lock blocks for good. An operation therefore returns the state together with
  its outcome. A server is a value here: the changes that the report handlers make in place are not part of this theory.
\<close>

subsection \<open>Servers\<close>

record ip_pair =
  ip_v4 :: string
  ip_v6 :: string

definition IP_Join :: "ip_pair \<Rightarrow> string" where
  "IP_Join p = (if ip_v4 p \<noteq> [] \<and> ip_v6 p \<noteq> [] then ip_v4 p @ ''/'' @ ip_v6 p
     else if ip_v4 p \<noteq> [] then ip_v4 p else ip_v6 p)"

record reg_server = server +
  sv_EnableDDNS :: bool
  sv_DDNSProfiles :: "uint64 list"
  sv_OverrideDDNSDomains :: "(uint64, string list) gomap"
  sv_GeoIP :: "ip_pair option"
  sv_RuntimeIDX :: bool
  sv_RuntimeWorkspaceSlug :: string
  sv_WorkstationGCP :: "string option"

definition InitServer :: "reg_server \<Rightarrow> reg_server" where
  "InitServer s = s\<lparr>sv_MemTotal := 0, sv_DiskTotal := 0, sv_SwapTotal := 0, sv_State := zero_state, sv_GeoIP := Some \<lparr>ip_v4 = [], ip_v6 = []\<rparr>\<rparr>"

definition CopyFromRunningServer :: "reg_server \<Rightarrow> reg_server option \<Rightarrow> reg_server go" where
  "CopyFromRunningServer s old = (case old of None \<Rightarrow> Panic
     | Some r \<Rightarrow> Ret (s\<lparr>sv_MemTotal := sv_MemTotal r, sv_DiskTotal := sv_DiskTotal r, sv_SwapTotal := sv_SwapTotal r,
         sv_State := sv_State r, sv_GeoIP := sv_GeoIP r, sv_LastActive := sv_LastActive r, sv_Online := sv_Online r,
         sv_PrevIn := sv_PrevIn r, sv_PrevOut := sv_PrevOut r\<rparr>))"

subsection \<open>Updates of dynamic DNS\<close>

definition DNSServers :: "string list" where
  "DNSServers = [''8.8.8.8:53'', ''8.8.4.4:53'', ''1.1.1.1:53'', ''1.0.0.1:53'', ''[2001:4860:4860::8888]:53'',
     ''[2001:4860:4860::8844]:53'', ''[2606:4700:4700::1111]:53'', ''[2606:4700:4700::1001]:53'']"

text \<open>What a started \<open>UpdateDomain\<close> is given.\<close>

record ddns_update =
  du_profile :: ddns_profile
  du_ip :: ip_pair
  du_servers :: "string list"
  du_domains :: "string list"

definition UpdateDDNS :: "string \<Rightarrow> ddns_class \<Rightarrow> reg_server \<Rightarrow> ip_pair option \<Rightarrow> (string + ddns_update list) go" where
  "UpdateDDNS dns dc s ip =
     (let conf = go_split (CHR '','') dns; servers = IfOr (hd conf \<noteq> []) conf DNSServers
      in case sv_GeoIP s of None \<Rightarrow> Panic
       | Some g \<Rightarrow> let addr = (case ip of Some a \<Rightarrow> a | None \<Rightarrow> g) in
           Ret (case GetDDNSProvidersFromProfiles (sv_DDNSProfiles s) dc of Inl e \<Rightarrow> Inl e
             | Inr ps \<Rightarrow> Inr (map (\<lambda>p. \<lparr>du_profile = p, du_ip = addr, du_servers = servers,
                 du_domains = get_or [] (sv_OverrideDDNSDomains s) (dd_ID p)\<rparr>) ps)))"

subsection \<open>The registry\<close>

record server_class =
  sr_list :: "(uint64, reg_server) gomap"
  sr_uuidToID :: "(string, uint64) gomap"
  sr_sortedList :: "reg_server list"
  sr_sortedListForGuest :: "reg_server list"
  sr_stuck :: bool

text \<open>A larger display index comes first; equal ones are in the order of the numbers.\<close>

definition server_rank :: "reg_server \<Rightarrow> int \<times> uint64" where
  "server_rank s = (- sv_DisplayIndex s, sv_ID s)"

definition sr_sortList :: "server_class \<Rightarrow> server_class" where
  "sr_sortList c = (let l = sort_key server_rank (MapValuesToSlice (sr_list c))
     in c\<lparr>sr_sortedList := l, sr_sortedListForGuest := filter (\<lambda>s. \<not> sv_HideForGuest s) l\<rparr>)"

definition NewServerClass :: "reg_server list \<Rightarrow> server_class" where
  "NewServerClass rows = sr_sortList
     \<lparr>sr_list = fold (\<lambda>s. AList.update (sv_ID s) (InitServer s)) rows [], sr_uuidToID = fold (\<lambda>s. AList.update (sv_UUID s) (sv_ID s)) rows [],
      sr_sortedList = [], sr_sortedListForGuest = [], sr_stuck = False\<rparr>"

definition Server_Update :: "string \<Rightarrow> ddns_class \<Rightarrow> reg_server \<Rightarrow> string \<Rightarrow> server_class \<Rightarrow> server_class \<times> ddns_update list go" where
  "Server_Update dns dc s uuid c =
     (if sr_stuck c then (c, Hang)
      else let c1 = c\<lparr>sr_list := AList.update (sv_ID s) s (sr_list c),
                 sr_uuidToID := (if uuid \<noteq> [] then AList.update uuid (sv_ID s) (sr_uuidToID c) else sr_uuidToID c)\<rparr>
       in if sv_EnableDDNS s then (case UpdateDDNS dns dc s None of
              Ret (Inl e) \<Rightarrow> (sr_sortList c1, Ret []) | Ret (Inr us) \<Rightarrow> (sr_sortList c1, Ret us)
            | Panic \<Rightarrow> (c1, Panic) | Hang \<Rightarrow> (c1, Hang))
          else (sr_sortList c1, Ret []))"

fun delete_servers :: "uint64 list \<Rightarrow> server_class \<Rightarrow> server_class \<times> unit go" where
  "delete_servers [] c = (c, Ret ())" |
  "delete_servers (k # ks) c = (case map_of (sr_list c) k of None \<Rightarrow> (c\<lparr>sr_stuck := True\<rparr>, Panic)
     | Some s \<Rightarrow> delete_servers ks (c\<lparr>sr_uuidToID := AList.delete (sv_UUID s) (sr_uuidToID c), sr_list := AList.delete k (sr_list c)\<rparr>))"

definition Server_Delete :: "uint64 list \<Rightarrow> server_class \<Rightarrow> server_class \<times> unit go" where
  "Server_Delete ids c = (if sr_stuck c then (c, Hang)
     else case delete_servers ids c of (c1, Ret u) \<Rightarrow> (sr_sortList c1, Ret u) | (c1, out) \<Rightarrow> (c1, out))"

definition listMu_read :: "server_class \<Rightarrow> 'a \<Rightarrow> 'a go" where
  "listMu_read c x = (if sr_stuck c then Hang else Ret x)"

definition Server_Get :: "uint64 \<Rightarrow> server_class \<Rightarrow> reg_server option go" where
  "Server_Get k c = listMu_read c (class_Get (sr_list c) k)"

definition UUIDToID :: "string \<Rightarrow> server_class \<Rightarrow> uint64 option go" where
  "UUIDToID u c = listMu_read c (map_of (sr_uuidToID c) u)"

definition Server_CheckPermission :: "user option \<Rightarrow> uint64 list \<Rightarrow> server_class \<Rightarrow> bool go" where
  "Server_CheckPermission auth ids c = listMu_read c (class_CheckPermission sv_UserID auth ids (sr_list c))"

text \<open>
  The batch deletion of the dashboard. Whether the database transaction commits is an argument; the rows it deletes and the
  entries it takes out of the statistics of every alert are events.
\<close>

datatype delete_event = ServerRows "uint64 list" | GroupRows "uint64 list" | AlertStats uint64 | TransferRows "uint64 list"

definition batchDeleteServer :: "user option \<Rightarrow> bool \<Rightarrow> uint64 list \<Rightarrow> server_class \<Rightarrow> server_class \<times> (go_error \<times> delete_event list) go" where
  "batchDeleteServer auth db ids c = (case Server_CheckPermission auth ids c of
       Ret False \<Rightarrow> (c, Ret (Some ''permission denied'', []))
     | Ret True \<Rightarrow> (if \<not> db then (c, Ret (Some ''database error'', []))
         else (case Server_Delete ids c of
             (c1, Ret _) \<Rightarrow> (c1, Ret (None, [ServerRows ids, GroupRows ids] @ map AlertStats ids @ [TransferRows ids]))
           | (c1, Panic) \<Rightarrow> (c1, Panic) | (c1, Hang) \<Rightarrow> (c1, Hang)))
     | Panic \<Rightarrow> (c, Panic) | Hang \<Rightarrow> (c, Hang))"

subsection \<open>The interface of the registries\<close>

datatype server_op = SrvUpdate reg_server string | SrvDelete "uint64 list"

fun server_oper :: "string \<Rightarrow> ddns_class \<Rightarrow> server_op \<Rightarrow> server_class \<Rightarrow> server_class go" where
  "server_oper dns dc (SrvUpdate s uuid) c = (case Server_Update dns dc s uuid c of
      (c1, Ret _) \<Rightarrow> Ret c1 | (c1, Panic) \<Rightarrow> Panic | (c1, Hang) \<Rightarrow> Hang)" |
  "server_oper dns dc (SrvDelete ids) c = (case Server_Delete ids c of
      (c1, Ret _) \<Rightarrow> Ret c1 | (c1, Panic) \<Rightarrow> Panic | (c1, Hang) \<Rightarrow> Hang)"

lemma sr_sortList_fields [simp]:
  "sr_list (sr_sortList c) = sr_list c" "sr_uuidToID (sr_sortList c) = sr_uuidToID c" "sr_stuck (sr_sortList c) = sr_stuck c"
  "sr_sortedList (sr_sortList c) = sort_key server_rank (map snd (sr_list c))"
  "sr_sortedListForGuest (sr_sortList c) = filter (\<lambda>s. \<not> sv_HideForGuest s) (sort_key server_rank (map snd (sr_list c)))"
  by (simp_all add: sr_sortList_def Let_def MapValuesToSlice_def)

text \<open>What an update or a deletion that returns leaves.\<close>

lemma Server_Update_Ret:
  assumes "Server_Update dns dc s uuid c = (c', Ret us)"
  shows "c' = sr_sortList (c\<lparr>sr_list := AList.update (sv_ID s) s (sr_list c),
      sr_uuidToID := (if uuid \<noteq> [] then AList.update uuid (sv_ID s) (sr_uuidToID c) else sr_uuidToID c)\<rparr>) \<and> \<not> sr_stuck c"
  using assms by (auto simp: Server_Update_def Let_def split: if_splits go.splits sum.splits)

definition dropped :: "uint64 list \<Rightarrow> server_class \<Rightarrow> string list" where
  "dropped ids c = map (\<lambda>k. sv_UUID (the (map_of (sr_list c) k))) ids"

lemma delete_servers_iff:
  "snd (delete_servers ids c) = Ret () \<longleftrightarrow> distinct ids \<and> set ids \<subseteq> dom (map_of (sr_list c))"
proof (induction ids arbitrary: c)
  case (Cons k ks)
  show ?case
  proof (cases "map_of (sr_list c) k")
    case (Some s)
    have "dom (map_of (AList.delete k (sr_list c))) = dom (map_of (sr_list c)) - {k}" by (auto simp: gomap_simps)
    then show ?thesis by (auto simp: Some Cons.IH)
  qed auto
qed simp

lemma delete_servers_state:
  "fst (delete_servers ids c) = c\<lparr>sr_list := sr_list (fst (delete_servers ids c)),
     sr_uuidToID := sr_uuidToID (fst (delete_servers ids c)), sr_stuck := sr_stuck (fst (delete_servers ids c))\<rparr>"
  by (induction ids c rule: delete_servers.induct) (auto split: option.split)

lemma delete_servers_out: "snd (delete_servers ids c) = Ret () \<or> snd (delete_servers ids c) = Panic \<and> sr_stuck (fst (delete_servers ids c))"
  by (induction ids c rule: delete_servers.induct) (auto split: option.split)

lemma delete_servers_Ret:
  assumes "delete_servers ids c = (c', Ret ())"
  shows "sr_list c' = delete_all ids (sr_list c)" "sr_uuidToID c' = delete_all (dropped ids c) (sr_uuidToID c)" "sr_stuck c' = sr_stuck c"
proof -
  have "sr_list c' = delete_all ids (sr_list c) \<and> sr_uuidToID c' = delete_all (dropped ids c) (sr_uuidToID c) \<and> sr_stuck c' = sr_stuck c"
    using assms
  proof (induction ids arbitrary: c)
    case (Cons k ks)
    then obtain s where s: "map_of (sr_list c) k = Some s" by (auto split: option.splits)
    have "distinct (k # ks)" using Cons.prems delete_servers_iff [of "k # ks" c] by simp
    then have d: "dropped ks (c\<lparr>sr_uuidToID := AList.delete (sv_UUID s) (sr_uuidToID c), sr_list := AList.delete k (sr_list c)\<rparr>) = dropped ks c"
      by (auto simp: dropped_def gomap_simps intro!: map_cong)
    have "dropped (k # ks) c = sv_UUID s # dropped ks c" by (simp add: dropped_def s)
    moreover have "delete_servers ks (c\<lparr>sr_uuidToID := AList.delete (sv_UUID s) (sr_uuidToID c), sr_list := AList.delete k (sr_list c)\<rparr>) = (c', Ret ())"
      using Cons.prems by (simp add: s)
    ultimately show ?case using Cons.IH d by simp
  qed (simp add: dropped_def)
  then show "sr_list c' = delete_all ids (sr_list c)" "sr_uuidToID c' = delete_all (dropped ids c) (sr_uuidToID c)" "sr_stuck c' = sr_stuck c"
    by simp_all
qed

lemma Server_Delete_Ret:
  assumes "Server_Delete ids c = (c', Ret u)"
  shows "c' = sr_sortList (c\<lparr>sr_list := delete_all ids (sr_list c), sr_uuidToID := delete_all (dropped ids c) (sr_uuidToID c)\<rparr>)"
    "\<not> sr_stuck c" "distinct ids" "set ids \<subseteq> dom (map_of (sr_list c))"
proof -
  obtain c1 where d: "delete_servers ids c = (c1, Ret ())" and c': "c' = sr_sortList c1" and n: "\<not> sr_stuck c"
    using assms by (auto simp: Server_Delete_def split: if_splits prod.splits go.splits)
  show "c' = sr_sortList (c\<lparr>sr_list := delete_all ids (sr_list c), sr_uuidToID := delete_all (dropped ids c) (sr_uuidToID c)\<rparr>)"
    using delete_servers_state [of ids c] delete_servers_Ret [OF d] unfolding c' by (simp add: d)
  show "\<not> sr_stuck c" by (rule n)
  show "distinct ids" "set ids \<subseteq> dom (map_of (sr_list c))" using delete_servers_iff [of ids c] d by simp_all
qed

lemma Server_Delete_total:
  assumes "\<not> sr_stuck c" "distinct ids" "set ids \<subseteq> dom (map_of (sr_list c))"
  shows "Server_Delete ids c = (fst (Server_Delete ids c), Ret ())"
  using assms delete_servers_iff [of ids c] by (cases "delete_servers ids c") (simp add: Server_Delete_def)

interpretation srv_reg: keyed_registry sr_list sr_sortedList server_rank "server_oper dns dc" sv_ID for dns dc
proof
  fix x s s' assume x: "server_oper dns dc x s = Ret s'"
  have up: "sr_sortedList s' = sort_key server_rank (map snd (sr_list s')) \<and>
      ((\<exists>v. sr_list s' = AList.update (sv_ID v) v (sr_list s)) \<or> (\<exists>ids. sr_list s' = delete_all ids (sr_list s)))"
  proof (cases x)
    case (SrvUpdate v uuid)
    then obtain us where "Server_Update dns dc v uuid s = (s', Ret us)" using x by (auto split: prod.splits go.splits)
    then show ?thesis using Server_Update_Ret [of dns dc v uuid s s' us] by auto
  next
    case (SrvDelete ids)
    then have "Server_Delete ids s = (s', Ret ())" using x by (auto split: prod.splits go.splits)
    then show ?thesis using Server_Delete_Ret(1) [of ids s s' "()"] by auto
  qed
  show "sr_sortedList s' = sort_key server_rank (map snd (sr_list s'))" using up by blast
  show "gomap_ok (sr_list s) \<Longrightarrow> gomap_ok (sr_list s')" using up by auto
  show "\<And>k v. (\<And>k v. map_of (sr_list s) k = Some v \<Longrightarrow> sv_ID v = k) \<Longrightarrow> map_of (sr_list s') k = Some v \<Longrightarrow> sv_ID v = k"
    using up by (auto simp: gomap_simps split: if_splits)
qed (simp add: server_rank_def)

subsection \<open>The reachable registries\<close>

text \<open>
  What the dashboard and the agents do with the registry: it is loaded, a new agent registers (\<open>Check\<close>), a server is
  edited with its running state copied over, and servers are deleted, with numbers that may be unknown.
\<close>

inductive srv_reach :: "string \<Rightarrow> reg_server list \<Rightarrow> server_class \<Rightarrow> bool" for dns rows where
  srv_start: "distinct (map sv_ID rows) \<Longrightarrow> distinct (map sv_UUID rows) \<Longrightarrow> srv_reach dns rows (NewServerClass rows)"
| srv_create: "srv_reach dns rows c \<Longrightarrow> map_of (sr_list c) (sv_ID s) = None \<Longrightarrow> UUIDToID (sv_UUID s) c = Ret None \<Longrightarrow>
    sv_UUID s \<noteq> [] \<Longrightarrow> sv_GeoIP s \<noteq> None \<Longrightarrow> Server_Update dns dc s (sv_UUID s) c = (c', out) \<Longrightarrow> srv_reach dns rows c'"
| srv_edit: "srv_reach dns rows c \<Longrightarrow> Server_Get (sv_ID s) c = Ret (Some old) \<Longrightarrow> sv_UUID s = sv_UUID old \<Longrightarrow>
    CopyFromRunningServer s (Some old) = Ret s' \<Longrightarrow> Server_Update dns dc s' [] c = (c', out) \<Longrightarrow> srv_reach dns rows c'"
| srv_delete: "srv_reach dns rows c \<Longrightarrow> Server_Delete ids c = (c', out) \<Longrightarrow> srv_reach dns rows c'"

definition uuid_exact :: "server_class \<Rightarrow> bool" where
  "uuid_exact c \<longleftrightarrow> (\<forall>k s. map_of (sr_list c) k = Some s \<longrightarrow> sv_ID s = k \<and> sv_GeoIP s \<noteq> None \<and> map_of (sr_uuidToID c) (sv_UUID s) = Some k) \<and>
     (\<forall>u k. map_of (sr_uuidToID c) u = Some k \<longrightarrow> (\<exists>s. map_of (sr_list c) k = Some s \<and> sv_UUID s = u))"

lemma uuid_exact_sort [simp]: "uuid_exact (sr_sortList c) = uuid_exact c"
  by (simp add: uuid_exact_def)

lemma fold_update_map_of:
  "distinct (map f xs) \<Longrightarrow> map_of (fold (\<lambda>x. AList.update (f x) (g x)) xs m) k =
     (case List.find (\<lambda>x. f x = k) xs of Some x \<Rightarrow> Some (g x) | None \<Rightarrow> map_of m k)"
proof (induction xs arbitrary: m)
  case (Cons x xs)
  have "f x = k \<Longrightarrow> List.find (\<lambda>x. f x = k) xs = None" using Cons.prems by (auto simp: find_None_iff image_iff)
  then show ?case using Cons by (auto simp: gomap_simps split: option.split)
qed simp

lemma fold_update_ok: "gomap_ok m \<Longrightarrow> gomap_ok (fold (\<lambda>x. AList.update (f x) (g x)) xs m)"
  by (induction xs arbitrary: m) auto

lemma uuid_exact_start:
  assumes "distinct (map sv_ID rows)" "distinct (map sv_UUID rows)"
  shows "uuid_exact (NewServerClass rows)"
proof -
  have l: "map_of (sr_list (NewServerClass rows)) k = map_option InitServer (List.find (\<lambda>s. sv_ID s = k) rows)" for k
    by (simp add: NewServerClass_def fold_update_map_of [OF assms(1)] split: option.split)
  have u: "map_of (sr_uuidToID (NewServerClass rows)) x = map_option sv_ID (List.find (\<lambda>s. sv_UUID s = x) rows)" for x
    by (simp add: NewServerClass_def fold_update_map_of [OF assms(2)] split: option.split)
  have found: "List.find (\<lambda>s. f s = k) rows = Some s \<longleftrightarrow> s \<in> set rows \<and> f s = k" if "distinct (map f rows)" for f :: "reg_server \<Rightarrow> 'z" and k s
    using that by (induction rows) auto
  show ?thesis unfolding uuid_exact_def l u
    by (auto simp: found assms InitServer_def)
qed

lemma uuid_exactD:
  assumes "uuid_exact c"
  shows "map_of (sr_list c) k = Some s \<Longrightarrow> sv_ID s = k \<and> sv_GeoIP s \<noteq> None \<and> map_of (sr_uuidToID c) (sv_UUID s) = Some k"
    and "map_of (sr_uuidToID c) u = Some k \<Longrightarrow> \<exists>s. map_of (sr_list c) k = Some s \<and> sv_UUID s = u"
  using assms unfolding uuid_exact_def by blast+

lemma uuid_exactI:
  assumes "\<And>k s. map_of (sr_list c) k = Some s \<Longrightarrow> sv_ID s = k \<and> sv_GeoIP s \<noteq> None \<and> map_of (sr_uuidToID c) (sv_UUID s) = Some k"
    and "\<And>u k. map_of (sr_uuidToID c) u = Some k \<Longrightarrow> \<exists>s. map_of (sr_list c) k = Some s \<and> sv_UUID s = u"
  shows "uuid_exact c"
  using assms unfolding uuid_exact_def by blast

lemma uuid_exact_create:
  assumes ok: "uuid_exact c" and n: "map_of (sr_list c) (sv_ID s) = None" "map_of (sr_uuidToID c) (sv_UUID s) = None" "sv_GeoIP s \<noteq> None"
  shows "uuid_exact (c\<lparr>sr_list := AList.update (sv_ID s) s (sr_list c), sr_uuidToID := AList.update (sv_UUID s) (sv_ID s) (sr_uuidToID c)\<rparr>)"
    (is "uuid_exact ?d")
proof (rule uuid_exactI)
  fix k t assume t: "map_of (sr_list ?d) k = Some t"
  show "sv_ID t = k \<and> sv_GeoIP t \<noteq> None \<and> map_of (sr_uuidToID ?d) (sv_UUID t) = Some k"
  proof (cases "k = sv_ID s")
    case False
    then have "map_of (sr_list c) k = Some t" using t by (simp add: gomap_simps)
    then show ?thesis using uuid_exactD(1) [OF ok, of k t] n by (auto simp: gomap_simps)
  qed (use t n in \<open>simp add: gomap_simps\<close>)
next
  fix u k assume u: "map_of (sr_uuidToID ?d) u = Some k"
  show "\<exists>t. map_of (sr_list ?d) k = Some t \<and> sv_UUID t = u"
  proof (cases "u = sv_UUID s")
    case False
    then have "map_of (sr_uuidToID c) u = Some k" using u by (simp add: gomap_simps)
    then show ?thesis using uuid_exactD(2) [OF ok, of u k] n by (auto simp: gomap_simps)
  qed (use u in \<open>simp add: gomap_simps\<close>)
qed

lemma uuid_exact_edit:
  assumes ok: "uuid_exact c" and n: "map_of (sr_list c) (sv_ID s) = Some old" "sv_UUID s = sv_UUID old" "sv_GeoIP s = sv_GeoIP old"
  shows "uuid_exact (c\<lparr>sr_list := AList.update (sv_ID s) s (sr_list c)\<rparr>)" (is "uuid_exact ?d")
proof (rule uuid_exactI)
  fix k t assume t: "map_of (sr_list ?d) k = Some t"
  show "sv_ID t = k \<and> sv_GeoIP t \<noteq> None \<and> map_of (sr_uuidToID ?d) (sv_UUID t) = Some k"
  proof (cases "k = sv_ID s")
    case True
    then show ?thesis using t n uuid_exactD(1) [OF ok n(1)] by (simp add: gomap_simps)
  next
    case False
    then have "map_of (sr_list c) k = Some t" using t by (simp add: gomap_simps)
    then show ?thesis using uuid_exactD(1) [OF ok] by simp
  qed
next
  fix u k assume "map_of (sr_uuidToID ?d) u = Some k"
  then obtain t where "map_of (sr_list c) k = Some t" "sv_UUID t = u" using uuid_exactD(2) [OF ok] by auto
  then show "\<exists>t. map_of (sr_list ?d) k = Some t \<and> sv_UUID t = u" using n by (auto simp: gomap_simps)
qed

lemma uuid_exact_delete1:
  assumes ok: "uuid_exact c" and s: "map_of (sr_list c) k = Some s"
  shows "uuid_exact (c\<lparr>sr_uuidToID := AList.delete (sv_UUID s) (sr_uuidToID c), sr_list := AList.delete k (sr_list c)\<rparr>)" (is "uuid_exact ?d")
proof (rule uuid_exactI)
  fix j t assume "map_of (sr_list ?d) j = Some t"
  then have t: "j \<noteq> k" "map_of (sr_list c) j = Some t" by (auto simp: gomap_simps split: if_splits)
  then show "sv_ID t = j \<and> sv_GeoIP t \<noteq> None \<and> map_of (sr_uuidToID ?d) (sv_UUID t) = Some j"
    using uuid_exactD(1) [OF ok t(2)] uuid_exactD(1) [OF ok s] by (auto simp: gomap_simps)
next
  fix u j assume "map_of (sr_uuidToID ?d) u = Some j"
  then have u: "u \<noteq> sv_UUID s" "map_of (sr_uuidToID c) u = Some j" by (auto simp: gomap_simps split: if_splits)
  then obtain t where "map_of (sr_list c) j = Some t" "sv_UUID t = u" using uuid_exactD(2) [OF ok] by blast
  then show "\<exists>t. map_of (sr_list ?d) j = Some t \<and> sv_UUID t = u" using u s by (auto simp: gomap_simps)
qed

lemma uuid_exact_deletes: "uuid_exact c \<Longrightarrow> uuid_exact (fst (delete_servers ids c))"
proof (induction ids c rule: delete_servers.induct)
  case (2 k ks c)
  show ?case
  proof (cases "map_of (sr_list c) k")
    case None
    have "uuid_exact (c\<lparr>sr_stuck := True\<rparr>)" using 2(2) by (simp add: uuid_exact_def)
    then show ?thesis by (simp add: None)
  next
    case (Some s)
    then show ?thesis using 2 uuid_exact_delete1 by simp
  qed
qed simp

definition views_fresh :: "server_class \<Rightarrow> bool" where
  "views_fresh c \<longleftrightarrow> gomap_ok (sr_list c) \<and> sr_sortedList c = sort_key server_rank (map snd (sr_list c)) \<and>
     sr_sortedListForGuest c = filter (\<lambda>s. \<not> sv_HideForGuest s) (sr_sortedList c)"

lemma views_fresh_sort: "gomap_ok (sr_list c) \<Longrightarrow> views_fresh (sr_sortList c)"
  by (simp add: views_fresh_def)

lemma update_outcome:
  assumes "\<not> sr_stuck c" "sv_GeoIP s \<noteq> None"
  shows "\<exists>us. Server_Update dns dc s uuid c = (sr_sortList (c\<lparr>sr_list := AList.update (sv_ID s) s (sr_list c),
      sr_uuidToID := (if uuid \<noteq> [] then AList.update uuid (sv_ID s) (sr_uuidToID c) else sr_uuidToID c)\<rparr>), Ret us)"
proof -
  have "UpdateDDNS dns dc s None \<noteq> Panic" "UpdateDDNS dns dc s None \<noteq> Hang"
    using assms(2) by (auto simp: UpdateDDNS_def Let_def)
  then obtain r where "UpdateDDNS dns dc s None = Ret r" by (cases "UpdateDDNS dns dc s None") auto
  then show ?thesis using assms(1) by (cases r) (simp_all add: Server_Update_def Let_def)
qed

lemma listMu_read_Ret: "listMu_read c x = Ret y \<longleftrightarrow> \<not> sr_stuck c \<and> x = y"
  by (simp add: listMu_read_def)

lemma gomap_ok_deletes: "gomap_ok (sr_list c) \<Longrightarrow> gomap_ok (sr_list (fst (delete_servers ids c)))"
  by (induction ids c rule: delete_servers.induct) (auto split: option.split)

lemma srv_reach_ok: "srv_reach dns rows c \<Longrightarrow> uuid_exact c \<and> gomap_ok (sr_list c) \<and> (sr_stuck c \<or> views_fresh c)"
proof (induction rule: srv_reach.induct)
  case srv_start
  then show ?case using uuid_exact_start
    by (simp add: NewServerClass_def fold_update_ok [where f = sv_ID, simplified] views_fresh_sort fold_update_ok)
next
  case (srv_create c s dc c' out)
  then have n: "\<not> sr_stuck c" "map_of (sr_uuidToID c) (sv_UUID s) = None" by (simp_all add: UUIDToID_def listMu_read_Ret)
  have "\<exists>us. Server_Update dns dc s (sv_UUID s) c = (sr_sortList (c\<lparr>sr_list := AList.update (sv_ID s) s (sr_list c),
      sr_uuidToID := AList.update (sv_UUID s) (sv_ID s) (sr_uuidToID c)\<rparr>), Ret us)"
    using update_outcome [OF n(1) srv_create.hyps(5), of dns dc "sv_UUID s"] srv_create.hyps(4) by simp
  then show ?case using srv_create uuid_exact_create [of c s] n by (auto intro!: views_fresh_sort)
next
  case (srv_edit c s old s' dc c' out)
  then have n: "\<not> sr_stuck c" "map_of (sr_list c) (sv_ID s) = Some old" by (simp_all add: Server_Get_def class_Get_def listMu_read_Ret)
  have s': "sv_ID s' = sv_ID s" "sv_UUID s' = sv_UUID old" "sv_GeoIP s' = sv_GeoIP old"
    using srv_edit.hyps by (auto simp: CopyFromRunningServer_def)
  then have "sv_GeoIP s' \<noteq> None" using uuid_exactD(1) [of c "sv_ID s" old] n srv_edit.IH by simp
  then have "\<exists>us. Server_Update dns dc s' [] c = (sr_sortList (c\<lparr>sr_list := AList.update (sv_ID s') s' (sr_list c)\<rparr>), Ret us)"
    using update_outcome [OF n(1), of s' dns dc "[]"] by simp
  then show ?case using srv_edit uuid_exact_edit [of c s' old] n s' by (auto intro!: views_fresh_sort)
next
  case (srv_delete c ids c' out)
  show ?case
  proof (cases "sr_stuck c")
    case True
    then show ?thesis using srv_delete by (simp add: Server_Delete_def)
  next
    case False
    have d: "uuid_exact (fst (delete_servers ids c))" using srv_delete by (simp add: uuid_exact_deletes)
    have g: "gomap_ok (sr_list (fst (delete_servers ids c)))" using srv_delete.IH gomap_ok_deletes by blast
    show ?thesis
      using False d g delete_servers_out [of ids c] srv_delete.hyps(2)
      by (cases "delete_servers ids c") (auto simp: Server_Delete_def intro!: views_fresh_sort)
  qed
qed

lemma fresh_keyed: "uuid_exact c \<Longrightarrow> views_fresh c \<Longrightarrow> srv_reg.keyed c"
  unfolding srv_reg.keyed_def srv_reg.in_sync_def views_fresh_def uuid_exact_def by simp


lemma stuck_hangs:
  assumes "sr_stuck c"
  shows "Server_Get k c = Hang" "UUIDToID u c = Hang" "Server_CheckPermission auth ids c = Hang"
    "Server_Update dns dc s uuid c = (c, Hang)" "Server_Delete ids c = (c, Hang)" "batchDeleteServer auth db ids c = (c, Hang)"
  using assms by (simp_all add: Server_Get_def UUIDToID_def Server_CheckPermission_def listMu_read_def Server_Update_def Server_Delete_def batchDeleteServer_def)

lemma Server_Delete_panics:
  assumes "\<not> sr_stuck c"
  shows "snd (Server_Delete ids c) = Panic \<longleftrightarrow> \<not> (distinct ids \<and> set ids \<subseteq> dom (map_of (sr_list c)))"
    and "snd (Server_Delete ids c) = Panic \<Longrightarrow> sr_stuck (fst (Server_Delete ids c))"
  using assms delete_servers_iff [of ids c] delete_servers_out [of ids c]
  by (cases "delete_servers ids c"; cases "snd (delete_servers ids c)"; auto simp: Server_Delete_def)+


text \<open>A handler that has looked a server up before it was deleted and then stores it back with \<open>Update\<close> and no UUID, as
  \<open>Check\<close> does, brings it back into the map and into the list, while the index no longer knows its UUID: the next call of its
  agent registers a second server.\<close>

lemma late_update_resurrects_server:
  assumes "srv_reach dns rows c" and "Server_Get k c = Ret (Some s)"
  shows "\<exists>c1 c2 us. Server_Delete [k] c = (c1, Ret ()) \<and> Server_Update dns dc s [] c1 = (c2, Ret us) \<and>
      Server_Get k c2 = Ret (Some s) \<and> s \<in> set (sr_sortedList c2) \<and> UUIDToID (sv_UUID s) c2 = Ret None"
proof -
  have n: "\<not> sr_stuck c" "map_of (sr_list c) k = Some s" using assms(2) by (simp_all add: Server_Get_def class_Get_def listMu_read_Ret)
  have ok: "sv_ID s = k" "sv_GeoIP s \<noteq> None" using uuid_exactD(1) [of c k s] srv_reach_ok [OF assms(1)] n by blast+
  define c1 where "c1 = fst (Server_Delete [k] c)"
  have c1: "Server_Delete [k] c = (c1, Ret ())" "map_of (sr_uuidToID c1) (sv_UUID s) = None" "\<not> sr_stuck c1"
    using n by (simp_all add: c1_def Server_Delete_def gomap_simps)
  obtain us where "Server_Update dns dc s [] c1 = (sr_sortList (c1\<lparr>sr_list := AList.update (sv_ID s) s (sr_list c1)\<rparr>), Ret us)"
    using update_outcome [OF c1(3) ok(2), of dns dc "[]"] by auto
  moreover have "s \<in> set (map snd (AList.update (sv_ID s) s (sr_list c1)))"
    using map_of_SomeD [of "AList.update (sv_ID s) s (sr_list c1)" "sv_ID s" s] by (force simp: gomap_simps)
  ultimately show ?thesis using c1 ok(1) by (auto simp: Server_Get_def class_Get_def UUIDToID_def listMu_read_def gomap_simps)
qed

subsection \<open>Witnesses\<close>

definition some_server :: "uint64 \<Rightarrow> string \<Rightarrow> int \<Rightarrow> reg_server" where
  "some_server k uuid i = \<lparr>sv_ID = k, sv_UserID = 1, sv_Name = ''a'', sv_UUID = uuid, sv_DisplayIndex = i, sv_HideForGuest = False,
     sv_MemTotal = 0, sv_DiskTotal = 0, sv_SwapTotal = 0, sv_State = zero_state, sv_LastActive = None, sv_Online = False, sv_PrevIn = 0, sv_PrevOut = 0,
     sv_EnableDDNS = False, sv_DDNSProfiles = [], sv_OverrideDDNSDomains = [], sv_GeoIP = None, sv_RuntimeIDX = False, sv_RuntimeWorkspaceSlug = [], sv_WorkstationGCP = None\<rparr>"

definition some_registry :: server_class where
  "some_registry = NewServerClass [some_server 1 ''u'' 0, some_server 2 ''v'' 5]"

lemma some_registry_reach: "srv_reach [] [some_server 1 ''u'' 0, some_server 2 ''v'' 5] some_registry"
  unfolding some_registry_def by (rule srv_start) (simp_all add: some_server_def)

lemma some_registry_list: "sr_list some_registry = [(1, InitServer (some_server 1 ''u'' 0)), (2, InitServer (some_server 2 ''v'' 5))]"
  "\<not> sr_stuck some_registry"
  by (simp_all add: some_registry_def NewServerClass_def some_server_def)



lemma late_update_resurrects_server_witness:
  "\<exists>c1 c2 us. Server_Delete [1] some_registry = (c1, Ret ()) \<and>
     Server_Update [] (NewDDNSClass []) (InitServer (some_server 1 ''u'' 0)) [] c1 = (c2, Ret us) \<and> UUIDToID ''u'' c2 = Ret None"
proof -
  have "Server_Get 1 some_registry = Ret (Some (InitServer (some_server 1 ''u'' 0)))"
    by (simp add: Server_Get_def class_Get_def listMu_read_def some_registry_list)
  from late_update_resurrects_server [OF some_registry_reach this, where dc = "NewDDNSClass []"]
  have "\<exists>c1 c2 us. Server_Delete [1] some_registry = (c1, Ret ()) \<and>
     Server_Update [] (NewDDNSClass []) (InitServer (some_server 1 ''u'' 0)) [] c1 = (c2, Ret us) \<and>
     UUIDToID (sv_UUID (InitServer (some_server 1 ''u'' 0))) c2 = Ret None" by blast
  moreover have "sv_UUID (InitServer (some_server 1 ''u'' 0)) = ''u''" by (simp add: InitServer_def some_server_def)
  ultimately show ?thesis by simp
qed

end
