(* ===== verification/Server_Search.thy ===== *)
theory Server_Search
  imports Server_Registry
begin

text \<open>
  The selection of list entries by number (\<open>model/common.go\<close>, \<open>SplitList\<close> in \<open>model/server.go\<close>): the query parameter
  \<open>id\<close> of the dashboard's lists. \<open>slices.BinarySearchFunc\<close> is written out as the standard library has it.
\<close>

subsection \<open>Definitions\<close>

definition FindByUserID :: "('v \<Rightarrow> uint64) \<Rightarrow> ('v \<Rightarrow> uint64) \<Rightarrow> 'v list \<Rightarrow> uint64 \<Rightarrow> uint64 list" where
  "FindByUserID getID getUserID s uid = map getID (filter (\<lambda>v. getUserID v = uid) s)"

function bsearch_loop :: "(nat \<Rightarrow> bool) \<Rightarrow> nat \<Rightarrow> nat \<Rightarrow> nat" where
  "bsearch_loop below i j = (if i < j then (let h = (i + j) div 2 in if below h then bsearch_loop below (h + 1) j else bsearch_loop below i h) else i)"
  by pat_completeness auto
termination
  by (relation "measure (\<lambda>(_, i, j). j - i)") auto

declare bsearch_loop.simps [simp del]

definition appendBinarySearch :: "('v \<Rightarrow> uint64) \<Rightarrow> 'v list \<Rightarrow> 'v list \<Rightarrow> uint64 \<Rightarrow> 'v list" where
  "appendBinarySearch getID x y target = (let i = bsearch_loop (\<lambda>h. getID (y ! h) < target) 0 (length y)
     in if i < length y \<and> getID (y ! i) = target then x @ [y ! i] else x)"

definition appendSearch :: "('v \<Rightarrow> uint64) \<Rightarrow> 'v list \<Rightarrow> 'v list \<Rightarrow> uint64 \<Rightarrow> 'v list" where
  "appendSearch getID x y target = (case List.find (\<lambda>e. getID e = target) y of Some e \<Rightarrow> x @ [e] | None \<Rightarrow> x)"

fun SearchByID_loop :: "('v list \<Rightarrow> uint64 \<Rightarrow> 'v list) \<Rightarrow> string list \<Rightarrow> 'v list \<Rightarrow> 'v list" where
  "SearchByID_loop step [] acc = acc" |
  "SearchByID_loop step (q # qs) acc = SearchByID_loop step qs (case ParseUint q of None \<Rightarrow> acc | Some k \<Rightarrow> step acc k)"

text \<open>For the types without a priority list.\<close>

definition SearchByID :: "('v \<Rightarrow> uint64) \<Rightarrow> string list \<Rightarrow> 'v list \<Rightarrow> 'v list" where
  "SearchByID getID qs x = (let s = SearchByID_loop (\<lambda>acc. appendBinarySearch getID acc x) qs [] in IfOr (s \<noteq> []) s x)"

definition SplitList :: "reg_server list \<Rightarrow> reg_server list \<times> reg_server list" where
  "SplitList x = (if \<exists>s \<in> set x. sv_DisplayIndex s = 0
     then (takeWhile (\<lambda>s. sv_DisplayIndex s \<noteq> 0) x, dropWhile (\<lambda>s. sv_DisplayIndex s \<noteq> 0) x) else ([], x))"

definition searchByIDPri :: "string list \<Rightarrow> reg_server list \<Rightarrow> reg_server list" where
  "searchByIDPri qs x = (let (plist, list2) = SplitList x;
       clist1 = SearchByID_loop (\<lambda>acc. appendSearch sv_ID acc plist) qs [];
       clist2 = SearchByID_loop (\<lambda>acc. appendBinarySearch sv_ID acc list2) qs [];
       l = clist1 @ clist2
     in IfOr (l \<noteq> []) l x)"

text \<open>\<open>SearchByIDCtx\<close> splits the query; an absent one is the empty string.\<close>

definition SearchByIDCtx :: "string \<Rightarrow> reg_server list \<Rightarrow> reg_server list" where
  "SearchByIDCtx query x = searchByIDPri (go_split (CHR '','') query) x"

subsection \<open>The binary search\<close>

text \<open>When the predicate is downwards closed the loop finds the first index where it fails.\<close>

lemma bsearch_correct:
  assumes mono: "\<And>a b. a \<le> b \<Longrightarrow> b < n \<Longrightarrow> below b \<Longrightarrow> below a"
  shows "j \<le> n \<Longrightarrow> i \<le> j \<Longrightarrow> \<forall>a<i. below a \<Longrightarrow> \<forall>a. j \<le> a \<and> a < n \<longrightarrow> \<not> below a \<Longrightarrow>
    (\<forall>a < bsearch_loop below i j. below a) \<and> (\<forall>a. bsearch_loop below i j \<le> a \<and> a < n \<longrightarrow> \<not> below a)"
proof (induction "j - i" arbitrary: i j rule: less_induct)
  case less
  show ?case
  proof (cases "i < j")
    case True
    define h where "h = (i + j) div 2"
    have h: "i \<le> h" "h < j" using True by (auto simp: h_def)
    show ?thesis
    proof (cases "below h")
      case b: True
      have "below a" if "a < h + 1" for a using mono [of a h] b h less.prems(1) that by simp
      then have low: "\<forall>a < h + 1. below a" by blast
      have dec: "j - (h + 1) < j - i" and le: "h + 1 \<le> j" using h by linarith+
      have "(\<forall>a < bsearch_loop below (h + 1) j. below a) \<and> (\<forall>a. bsearch_loop below (h + 1) j \<le> a \<and> a < n \<longrightarrow> \<not> below a)"
        by (rule less.hyps [OF dec less.prems(1) le low less.prems(4)])
      moreover have "bsearch_loop below i j = bsearch_loop below (h + 1) j"
        using True b by (subst bsearch_loop.simps) (simp add: h_def)
      ultimately show ?thesis by simp
    next
      case b: False
      have high: "\<forall>a. h \<le> a \<and> a < n \<longrightarrow> \<not> below a" using mono [of h] b by blast
      have dec: "h - i < j - i" and le: "h \<le> n" using h less.prems(1) by linarith+
      have "(\<forall>a < bsearch_loop below i h. below a) \<and> (\<forall>a. bsearch_loop below i h \<le> a \<and> a < n \<longrightarrow> \<not> below a)"
        by (rule less.hyps [OF dec le h(1) less.prems(3) high])
      moreover have "bsearch_loop below i j = bsearch_loop below i h"
        using True b by (subst bsearch_loop.simps) (simp add: h_def)
      ultimately show ?thesis by simp
    qed
  next
    case False
    then have "bsearch_loop below i j = i" "i = j" using less.prems(2) by (simp_all add: bsearch_loop.simps)
    then show ?thesis using less.prems by simp
  qed
qed

lemma find_nth:
  assumes "distinct (map f y)" "i < length y" "f (y ! i) = k"
  shows "List.find (\<lambda>e. f e = k) y = Some (y ! i)"
proof -
  have "j < i \<Longrightarrow> f (y ! j) \<noteq> k" for j using assms by (auto simp: distinct_conv_nth)
  then show ?thesis using assms by (auto simp: find_Some_iff intro!: exI [of _ i])
qed

text \<open>On a list sorted by number the binary search finds what a search from the front finds.\<close>

lemma appendBinarySearch_sorted:
  assumes "sorted_wrt (<) (map getID y)"
  shows "appendBinarySearch getID x y k = appendSearch getID x y k"
proof -
  define i where "i = bsearch_loop (\<lambda>h. getID (y ! h) < k) 0 (length y)"
  have sorted: "a < b \<Longrightarrow> b < length y \<Longrightarrow> getID (y ! a) < getID (y ! b)" for a b
    using assms by (simp add: sorted_wrt_iff_nth_less)
  have mono: "getID (y ! a) < k" if "a \<le> b" "b < length y" "getID (y ! b) < k" for a b
    using sorted [of a b] that by (cases "a = b") auto
  have "(\<forall>a<i. getID (y ! a) < k) \<and> (\<forall>a. i \<le> a \<and> a < length y \<longrightarrow> \<not> getID (y ! a) < k)"
    unfolding i_def by (rule bsearch_correct [OF mono]) auto
  then have i: "\<forall>a<i. getID (y ! a) < k" "\<forall>a. i \<le> a \<and> a < length y \<longrightarrow> \<not> getID (y ! a) < k" by blast+
  have dist: "distinct (map getID y)" using assms strict_sorted_iff by blast
  show ?thesis
  proof (cases "i < length y \<and> getID (y ! i) = k")
    case True
    then show ?thesis using find_nth [OF dist, of i k] by (simp add: appendBinarySearch_def appendSearch_def Let_def i_def [symmetric])
  next
    case False
    have "getID (y ! a) \<noteq> k" if "a < length y" for a
    proof (cases "a < i")
      case True
      then show ?thesis using i(1) by auto
    next
      case na: False
      show ?thesis
      proof (cases "a = i")
        case True
        then show ?thesis using False that by blast
      next
        case ne: False
        then have ia: "i < a" using na by simp
        then have "\<not> getID (y ! i) < k" using i(2) that by simp
        then show ?thesis using sorted [OF ia that] by auto
      qed
    qed
    then have "List.find (\<lambda>e. getID e = k) y = None" by (auto simp: find_None_iff in_set_conv_nth)
    then show ?thesis using False by (simp add: appendBinarySearch_def appendSearch_def Let_def i_def [symmetric])
  qed
qed

subsection \<open>The search\<close>

text \<open>What a search should give: for each number of the query, in its order, the entry that has it.\<close>

definition selected :: "('v \<Rightarrow> uint64) \<Rightarrow> string list \<Rightarrow> 'v list \<Rightarrow> 'v list" where
  "selected getID qs y = List.map_filter (\<lambda>q. case ParseUint q of None \<Rightarrow> None | Some k \<Rightarrow> List.find (\<lambda>e. getID e = k) y) qs"

lemma set_selected:
  assumes "distinct (map getID y)"
  shows "e \<in> set (selected getID qs y) \<longleftrightarrow> e \<in> set y \<and> (\<exists>q \<in> set qs. ParseUint q = Some (getID e))"
proof -
  have f: "List.find (\<lambda>e. getID e = k) y = Some e \<longleftrightarrow> e \<in> set y \<and> getID e = k" for k
    using assms by (induction y) auto
  have "e \<in> set (List.map_filter g qs) \<longleftrightarrow> (\<exists>q \<in> set qs. g q = Some e)" for g :: "string \<Rightarrow> 'a option"
    by (induction qs) (auto simp: map_filter_simps split: option.split)
  then show ?thesis by (auto simp: selected_def f split: option.splits)
qed

lemma loop_selected: "SearchByID_loop (\<lambda>acc. appendSearch getID acc y) qs acc = acc @ selected getID qs y"
  by (induction qs arbitrary: acc) (auto simp: selected_def List.map_filter_def appendSearch_def split: option.split)

lemma split_sorted:
  assumes "sorted (map server_rank x)" "\<forall>s \<in> set x. 0 \<le> sv_DisplayIndex s"
  shows "takeWhile (\<lambda>s. sv_DisplayIndex s \<noteq> 0) x = filter (\<lambda>s. sv_DisplayIndex s \<noteq> 0) x"
    "dropWhile (\<lambda>s. sv_DisplayIndex s \<noteq> 0) x = filter (\<lambda>s. sv_DisplayIndex s = 0) x"
proof -
  have tail: "sv_DisplayIndex t = 0" if "sorted (map server_rank (s # y))" "sv_DisplayIndex s = 0" "t \<in> set y" "0 \<le> sv_DisplayIndex t" for s t y
    using that by (auto simp: server_rank_def less_eq_prod_def)
  have "takeWhile (\<lambda>s. sv_DisplayIndex s \<noteq> 0) x = filter (\<lambda>s. sv_DisplayIndex s \<noteq> 0) x \<and>
      dropWhile (\<lambda>s. sv_DisplayIndex s \<noteq> 0) x = filter (\<lambda>s. sv_DisplayIndex s = 0) x"
    using assms
  proof (induction x)
    case (Cons s y)
    show ?case
    proof (cases "sv_DisplayIndex s = 0")
      case True
      then have "\<forall>t \<in> set y. sv_DisplayIndex t = 0" using tail Cons.prems by auto
      then show ?thesis using True by (auto simp: filter_empty_conv filter_id_conv)
    qed (use Cons in auto)
  qed simp
  then show "takeWhile (\<lambda>s. sv_DisplayIndex s \<noteq> 0) x = filter (\<lambda>s. sv_DisplayIndex s \<noteq> 0) x"
    "dropWhile (\<lambda>s. sv_DisplayIndex s \<noteq> 0) x = filter (\<lambda>s. sv_DisplayIndex s = 0) x" by blast+
qed

lemma unranked_sorted:
  assumes "sorted (map server_rank x)" "distinct (map sv_ID x)"
  shows "sorted_wrt (<) (map sv_ID (filter (\<lambda>s. sv_DisplayIndex s = 0) x))"
  using assms by (induction x) (auto simp: server_rank_def less_eq_prod_def less_le)

text \<open>C23: When some server has no display index and none a negative one, the search of the dashboard gives, for the numbers of
  the query in their order, first the servers with a display index and then those without, each found exactly when its number
  is asked for, and the whole list when nothing is found.\<close>

theorem server_search_finds_exactly:
  assumes "srv_reach dns rows c" and "\<not> sr_stuck c"
    and "\<forall>s \<in> set (sr_sortedList c). 0 \<le> sv_DisplayIndex s" and "\<exists>s \<in> set (sr_sortedList c). sv_DisplayIndex s = 0"
  shows "(let l = selected sv_ID qs (filter (\<lambda>s. sv_DisplayIndex s \<noteq> 0) (sr_sortedList c)) @
               selected sv_ID qs (filter (\<lambda>s. sv_DisplayIndex s = 0) (sr_sortedList c))
     in searchByIDPri qs (sr_sortedList c) = (if l = [] then sr_sortedList c else l) \<and>
        (\<forall>k s. s \<in> set l \<longleftrightarrow> map_of (sr_list c) (sv_ID s) = Some s \<and> (\<exists>q \<in> set qs. ParseUint q = Some (sv_ID s))))"
proof -
  define x where "x = sr_sortedList c"
  have ok: "uuid_exact c" "views_fresh c" using srv_reach_ok [OF assms(1)] assms(2) by auto
  have keyed: "srv_reg.keyed c" using ok by (rule fresh_keyed)
  have sorted: "sorted (map server_rank x)" using ok(2) by (simp add: views_fresh_def x_def)
  have dist: "distinct (map sv_ID x)" unfolding x_def using keyed by (rule srv_reg.view_distinct)
  have member: "s \<in> set x \<longleftrightarrow> map_of (sr_list c) (sv_ID s) = Some s" for s
    using srv_reg.view_members [of c s] keyed unfolding srv_reg.keyed_def x_def by metis
  have split: "SplitList x = (filter (\<lambda>s. sv_DisplayIndex s \<noteq> 0) x, filter (\<lambda>s. sv_DisplayIndex s = 0) x)"
    using split_sorted [OF sorted] assms(3,4) by (simp add: SplitList_def x_def)
  have bs: "(\<lambda>acc. appendBinarySearch sv_ID acc (filter (\<lambda>s. sv_DisplayIndex s = 0) x)) =
      (\<lambda>acc. appendSearch sv_ID acc (filter (\<lambda>s. sv_DisplayIndex s = 0) x))"
    by (intro ext appendBinarySearch_sorted unranked_sorted sorted dist)
  have res: "searchByIDPri qs x = (let l = selected sv_ID qs (filter (\<lambda>s. sv_DisplayIndex s \<noteq> 0) x) @
      selected sv_ID qs (filter (\<lambda>s. sv_DisplayIndex s = 0) x) in if l = [] then x else l)"
    unfolding searchByIDPri_def split Let_def prod.case bs loop_selected by (simp add: IfOr_def)
  have "distinct (map sv_ID (filter P x))" for P using dist by (rule distinct_map_filter)
  then show ?thesis unfolding x_def [symmetric] using res by (auto simp: Let_def set_selected member)
qed

text \<open>When every server has a display index, the binary search runs over the list sorted by that index: for a number below
  all others that is not the first of the list nothing is found, and the whole list is given although the server exists.\<close>

lemma ranked_server_not_found:
  assumes "\<forall>s \<in> set x. sv_DisplayIndex s \<noteq> 0 \<and> k \<le> sv_ID s" and "sv_ID (hd x) \<noteq> k" and "x \<noteq> []"
  shows "searchByIDPri [show_uint k] x = x"
proof -
  have never: "\<not> sv_ID (x ! h) < k" if "h < length x" for h using assms(1) that nth_mem by (metis linorder_not_le)
  have "(\<forall>a<bsearch_loop (\<lambda>h. sv_ID (x ! h) < k) 0 (length x). sv_ID (x ! a) < k) \<and>
      (\<forall>a. bsearch_loop (\<lambda>h. sv_ID (x ! h) < k) 0 (length x) \<le> a \<and> a < length x \<longrightarrow> \<not> sv_ID (x ! a) < k)"
    using never by (intro bsearch_correct) auto
  then have "bsearch_loop (\<lambda>h. sv_ID (x ! h) < k) 0 (length x) = 0" using never assms(3) by (metis length_greater_0_conv neq0_conv)
  moreover have "sv_ID (x ! 0) \<noteq> k" using assms(2,3) by (simp add: hd_conv_nth)
  ultimately have "appendBinarySearch sv_ID [] x k = []" by (simp add: appendBinarySearch_def)
  moreover have "SplitList x = ([], x)" using assms(1) by (auto simp: SplitList_def)
  ultimately show ?thesis by (simp add: searchByIDPri_def ParseUint_show appendSearch_def IfOr_def)
qed

theorem server_search_finds_exactly_witness:
  "searchByIDPri [''2''] (sr_sortedList some_registry) = [InitServer (some_server 2 ''v'' 5)]"
proof -
  have l: "sr_sortedList some_registry = [InitServer (some_server 2 ''v'' 5), InitServer (some_server 1 ''u'' 0)]"
    by (simp add: some_registry_def NewServerClass_def some_server_def InitServer_def server_rank_def less_eq_prod_def less_prod_def)
  show ?thesis using server_search_finds_exactly [OF some_registry_reach some_registry_list(2), of "[''2'']"]
    by (simp add: l InitServer_def some_server_def selected_def List.map_filter_def ParseUint_def digit_val_def Let_def)
qed

lemma ranked_server_not_found_witness:
  "searchByIDPri [show_uint 1] [some_server 5 ''u'' 2, some_server 1 ''v'' 1] = [some_server 5 ''u'' 2, some_server 1 ''v'' 1]"
  by (rule ranked_server_not_found) (simp_all add: some_server_def)

end
