(* ===== verification/Cron_Tasks.thy ===== *)
theory Cron_Tasks
  imports Server_Registry
begin

text \<open>
  The scheduled tasks (\<open>service/singleton/crontask.go\<close>, \<open>model/cron.go\<close>) and their handlers
  (\<open>cmd/dashboard/controller/cron.go\<close>).

  The scheduler is a library: \<open>AddFunc\<close> answers with the number of a new job, or with an error when it cannot read the
  specification, and \<open>Remove\<close> takes a job out. What \<open>AddFunc\<close> answers is an argument; the jobs it holds are \<open>cc_jobs\<close>, each
  with the task its closure points to. The closure keeps the set of servers of the time when it was made, which the handlers
  set before and never change afterwards, so the task is a value.
\<close>

subsection \<open>Tasks\<close>

definition CronCoverIgnoreAll :: uint8 where "CronCoverIgnoreAll = 0"
definition CronCoverAll :: uint8 where "CronCoverAll = 1"
definition CronCoverAlertTrigger :: uint8 where "CronCoverAlertTrigger = 2"
definition CronTypeCronTask :: uint8 where "CronTypeCronTask = 0"
definition CronTypeTriggerTask :: uint8 where "CronTypeTriggerTask = 1"

record cron_task =
  cr_ID :: uint64
  cr_UserID :: uint64
  cr_Name :: string
  cr_TaskType :: uint8
  cr_Scheduler :: string
  cr_Command :: string
  cr_Servers :: "uint64 list"
  cr_PushSuccessful :: bool
  cr_NotificationGroupID :: uint64
  cr_LastResult :: bool
  cr_Cover :: uint8
  cr_CronJobID :: nat

record cron_class =
  cc_list :: "(uint64, cron_task) gomap"
  cc_sortedList :: "cron_task list"
  cc_jobs :: "(nat \<times> cron_task) list"

definition cc_sortList :: "cron_class \<Rightarrow> cron_class" where
  "cc_sortList c = c\<lparr>cc_sortedList := sort_key cr_ID (MapValuesToSlice (cc_list c))\<rparr>"

definition cron_Remove :: "nat \<Rightarrow> (nat \<times> cron_task) list \<Rightarrow> (nat \<times> cron_task) list" where
  "cron_Remove j jobs = filter (\<lambda>p. fst p \<noteq> j) jobs"

definition remove_job_of :: "cron_task option \<Rightarrow> cron_class \<Rightarrow> cron_class" where
  "remove_job_of old c = (case old of None \<Rightarrow> c
     | Some t \<Rightarrow> if cr_CronJobID t \<noteq> 0 then c\<lparr>cc_jobs := cron_Remove (cr_CronJobID t) (cc_jobs c)\<rparr> else c)"

definition Cron_Update :: "cron_task \<Rightarrow> cron_class \<Rightarrow> cron_class" where
  "Cron_Update cr c = (let c1 = remove_job_of (map_of (cc_list c) (cr_ID cr)) c
     in cc_sortList (c1\<lparr>cc_list := AList.update (cr_ID cr) cr (AList.delete (cr_ID cr) (cc_list c1))\<rparr>))"

definition cron_delete1 :: "uint64 \<Rightarrow> cron_class \<Rightarrow> cron_class" where
  "cron_delete1 k c = (let c1 = remove_job_of (map_of (cc_list c) k) c in c1\<lparr>cc_list := AList.delete k (cc_list c1)\<rparr>)"

definition Cron_Delete :: "uint64 list \<Rightarrow> cron_class \<Rightarrow> cron_class" where
  "Cron_Delete ids c = cc_sortList (fold cron_delete1 ids c)"

subsection \<open>Loading\<close>

record cron_load =
  cl_list :: "(uint64, cron_task) gomap"
  cl_rows :: "cron_task list"
  cl_jobs :: "(nat \<times> cron_task) list"
  cl_groups :: "uint64 list"
  cl_msgs :: "(uint64, string) gomap"

definition load_cron :: "(string \<Rightarrow> string) \<Rightarrow> (cron_task \<Rightarrow> nat option) \<Rightarrow> cron_task \<Rightarrow> cron_load \<Rightarrow> cron_load" where
  "load_cron tr add cr l =
     (if cr_TaskType cr = CronTypeTriggerTask then l\<lparr>cl_list := AList.update (cr_ID cr) cr (cl_list l), cl_rows := cl_rows l @ [cr]\<rparr>
      else case add cr of
        Some j \<Rightarrow> let t = cr\<lparr>cr_CronJobID := j\<rparr> in l\<lparr>cl_list := AList.update (cr_ID cr) t (cl_list l), cl_rows := cl_rows l @ [t], cl_jobs := cl_jobs l @ [(j, t)]\<rparr>
      | None \<Rightarrow> let g = cr_NotificationGroupID cr; new = (map_of (cl_msgs l) g = None);
                  msgs = (if new then AList.update g (tr ''Tasks failed to register: ['') (cl_msgs l) else cl_msgs l)
                in l\<lparr>cl_rows := cl_rows l @ [cr\<lparr>cr_CronJobID := 0\<rparr>], cl_groups := (if new then cl_groups l @ [g] else cl_groups l),
                     cl_msgs := AList.update g (get_or [] msgs g @ show_uint (cr_ID cr) @ '','') msgs\<rparr>)"

definition load_crons :: "(string \<Rightarrow> string) \<Rightarrow> (cron_task \<Rightarrow> nat option) \<Rightarrow> cron_task list \<Rightarrow> cron_load" where
  "load_crons tr add rows = fold (load_cron tr add) rows \<lparr>cl_list = [], cl_rows = [], cl_jobs = [], cl_groups = [], cl_msgs = []\<rparr>"

text \<open>The class, and the notifications sent: a group and a message.\<close>

definition NewCronClass :: "(string \<Rightarrow> string) \<Rightarrow> (cron_task \<Rightarrow> nat option) \<Rightarrow> cron_task list \<Rightarrow> cron_class \<times> (uint64 \<times> string) list" where
  "NewCronClass tr add rows = (let l = load_crons tr add rows
     in (\<lparr>cc_list = cl_list l, cc_sortedList = cl_rows l, cc_jobs = cl_jobs l\<rparr>,
         map (\<lambda>g. (g, get_or [] (cl_msgs l) g @ tr ''] These tasks will not execute properly. Fix them in the admin dashboard.'')) (cl_groups l)))"

subsection \<open>Running a task\<close>

text \<open>A command sent to an agent, or a notice to the group of the task that the server is offline.\<close>

datatype cron_event = SendCommand uint64 uint64 string | TaskOffline uint64 string uint64

definition cron_send :: "cron_task \<Rightarrow> reg_server \<Rightarrow> cron_event" where
  "cron_send cr s = (if sv_Online s then SendCommand (sv_ID s) (cr_ID cr) (cr_Command cr)
     else TaskOffline (cr_NotificationGroupID cr) (cr_Name cr) (sv_ID s))"

definition cron_covers :: "cron_task \<Rightarrow> reg_server \<Rightarrow> bool" where
  "cron_covers cr s \<longleftrightarrow> \<not> (cr_Cover cr = CronCoverAll \<and> sv_ID s \<in> set (cr_Servers cr)) \<and>
     \<not> (cr_Cover cr = CronCoverIgnoreAll \<and> sv_ID s \<notin> set (cr_Servers cr))"

definition CronTrigger :: "cron_task \<Rightarrow> uint64 option \<Rightarrow> server_class \<Rightarrow> cron_event list go" where
  "CronTrigger cr trigger sc =
     (if cr_Cover cr = CronCoverAlertTrigger then (case trigger of None \<Rightarrow> Ret []
        | Some k \<Rightarrow> go_bind (Server_Get k sc) (\<lambda>so. Ret (case so of None \<Rightarrow> [] | Some s \<Rightarrow> [cron_send cr s])))
      else listMu_read sc (rev (class_Range (\<lambda>k s ev. (True, if cron_covers cr s then cron_send cr s # ev else ev)) (sr_list sc) [])))"

definition SendTriggerTasks :: "uint64 list \<Rightarrow> uint64 \<Rightarrow> cron_class \<Rightarrow> server_class \<Rightarrow> cron_event list go list" where
  "SendTriggerTasks ids k c sc = map (\<lambda>t. CronTrigger t (Some k) sc) (List.map_filter (map_of (cc_list c)) ids)"

subsection \<open>The handlers\<close>

record cron_form =
  cf_TaskType :: uint8
  cf_Name :: string
  cf_Scheduler :: string
  cf_Command :: string
  cf_Servers :: "uint64 list"
  cf_PushSuccessful :: bool
  cf_NotificationGroupID :: uint64
  cf_Cover :: uint8

definition fill_cron :: "cron_form \<Rightarrow> cron_task \<Rightarrow> cron_task" where
  "fill_cron cf cr = cr\<lparr>cr_TaskType := cf_TaskType cf, cr_Name := cf_Name cf, cr_Scheduler := cf_Scheduler cf, cr_Command := cf_Command cf,
     cr_Servers := cf_Servers cf, cr_PushSuccessful := cf_PushSuccessful cf, cr_NotificationGroupID := cf_NotificationGroupID cf, cr_Cover := cf_Cover cf\<rparr>"

text \<open>
  From the filled task on, the same for both handlers: \<open>add\<close> is the answer of \<open>AddFunc\<close>, \<open>db\<close> the number of the row when
  the database takes it. The closure is registered before the row is written.
\<close>

definition save_cron :: "nat option \<Rightarrow> uint64 option \<Rightarrow> cron_task \<Rightarrow> cron_class \<Rightarrow> cron_class \<times> (string + uint64)" where
  "save_cron add db cr c =
     (if cr_TaskType cr = CronTypeCronTask \<and> cr_Cover cr = CronCoverAlertTrigger then (c, Inl ''scheduled tasks cannot be triggered by alarms'')
      else let stored = (\<lambda>t c1. case db of None \<Rightarrow> (c1 t, Inl ''database error'')
                 | Some k \<Rightarrow> (Cron_Update (t\<lparr>cr_ID := k\<rparr>) (c1 (t\<lparr>cr_ID := k\<rparr>)), Inr k))
        in if cr_TaskType cr = CronTypeCronTask then (case add of None \<Rightarrow> (c, Inl ''bad schedule'')
             | Some j \<Rightarrow> stored (cr\<lparr>cr_CronJobID := j\<rparr>) (\<lambda>t. c\<lparr>cc_jobs := cc_jobs c @ [(j, t)]\<rparr>))
           else stored cr (\<lambda>t. c))"

definition createCron :: "user \<Rightarrow> server_class \<Rightarrow> nat option \<Rightarrow> uint64 option \<Rightarrow> cron_form \<Rightarrow> cron_class \<Rightarrow> (cron_class \<times> (string + uint64)) go" where
  "createCron u sc add db cf c = go_bind (Server_CheckPermission (Some u) (cf_Servers cf) sc) (\<lambda>ok.
     Ret (if \<not> ok then (c, Inl ''permission denied'')
       else save_cron add db (fill_cron cf \<lparr>cr_ID = 0, cr_UserID = u_ID u, cr_Name = [], cr_TaskType = 0, cr_Scheduler = [], cr_Command = [],
         cr_Servers = [], cr_PushSuccessful = False, cr_NotificationGroupID = 0, cr_LastResult = False, cr_Cover = 0, cr_CronJobID = 0\<rparr>) c))"

text \<open>\<open>row\<close> is what the database finds for the number; the number of the job is not stored.\<close>

definition updateCron :: "user \<Rightarrow> server_class \<Rightarrow> cron_task option \<Rightarrow> nat option \<Rightarrow> bool \<Rightarrow> cron_form \<Rightarrow> cron_class \<Rightarrow> (cron_class \<times> (string + uint64)) go" where
  "updateCron u sc row add db cf c = go_bind (Server_CheckPermission (Some u) (cf_Servers cf) sc) (\<lambda>ok.
     Ret (if \<not> ok then (c, Inl ''permission denied'')
       else case row of None \<Rightarrow> (c, Inl ''task id does not exist'')
         | Some r \<Rightarrow> if \<not> HasPermission (Some u) (cr_UserID r) then (c, Inl ''permission denied'')
             else save_cron add (if db then Some (cr_ID r) else None) (fill_cron cf (r\<lparr>cr_CronJobID := 0\<rparr>)) c))"

definition manualTriggerCron :: "user \<Rightarrow> uint64 \<Rightarrow> cron_class \<Rightarrow> server_class \<Rightarrow> (string + cron_event list) go" where
  "manualTriggerCron u k c sc = (case map_of (cc_list c) k of None \<Rightarrow> Ret (Inl ''task id does not exist'')
     | Some cr \<Rightarrow> if \<not> HasPermission (Some u) (cr_UserID cr) then Ret (Inl ''permission denied'')
         else go_bind (CronTrigger cr None sc) (\<lambda>ev. Ret (Inr ev)))"

definition batchDeleteCron :: "user \<Rightarrow> bool \<Rightarrow> uint64 list \<Rightarrow> cron_class \<Rightarrow> cron_class \<times> go_error" where
  "batchDeleteCron u db ids c = (if \<not> class_CheckPermission cr_UserID (Some u) ids (cc_list c) then (c, Some ''permission denied'')
     else if \<not> db then (c, Some ''database error'') else (Cron_Delete ids c, None))"

subsection \<open>The interface of the registries\<close>

datatype cron_op = CronUpdate cron_task | CronDelete "uint64 list"

fun cron_oper :: "cron_op \<Rightarrow> cron_class \<Rightarrow> cron_class go" where
  "cron_oper (CronUpdate t) c = Ret (Cron_Update t c)" |
  "cron_oper (CronDelete ids) c = Ret (Cron_Delete ids c)"

lemma remove_job_of_simps [simp]:
  "cc_list (remove_job_of old c) = cc_list c" "cc_sortedList (remove_job_of old c) = cc_sortedList c"
  "cc_jobs (remove_job_of old c) = (case old of Some t \<Rightarrow> if cr_CronJobID t \<noteq> 0 then cron_Remove (cr_CronJobID t) (cc_jobs c) else cc_jobs c | None \<Rightarrow> cc_jobs c)"
  by (simp_all add: remove_job_of_def split: option.split)

lemma cc_sortList_fields [simp]: "cc_list (cc_sortList c) = cc_list c" "cc_jobs (cc_sortList c) = cc_jobs c"
  "cc_sortedList (cc_sortList c) = sort_key cr_ID (map snd (cc_list c))"
  by (simp_all add: cc_sortList_def MapValuesToSlice_def)

lemma cron_deletes_list [simp]: "cc_list (fold cron_delete1 ids c) = delete_all ids (cc_list c)"
  by (induction ids arbitrary: c) (simp_all add: cron_delete1_def Let_def)

lemma Cron_lists [simp]:
  "cc_list (Cron_Update t c) = AList.update (cr_ID t) t (AList.delete (cr_ID t) (cc_list c))"
  "cc_list (Cron_Delete ids c) = delete_all ids (cc_list c)"
  by (simp_all add: Cron_Update_def Cron_Delete_def Let_def)

interpretation cron_reg: keyed_registry cc_list cc_sortedList cr_ID cron_oper cr_ID
proof
  show "cc_sortedList s' = sort_key cr_ID (map snd (cc_list s'))" if "cron_oper x s = Ret s'" for x s s'
    using that by (cases x) (auto simp: Cron_Update_def Cron_Delete_def Let_def)
  show "gomap_ok (cc_list s')" if "cron_oper x s = Ret s'" "gomap_ok (cc_list s)" for x s s'
    using that by (cases x) auto
  show "cr_ID v = k" if "cron_oper x s = Ret s'" "\<And>k v. map_of (cc_list s) k = Some v \<Longrightarrow> cr_ID v = k"
    "map_of (cc_list s') k = Some v" for x s s' k v
    using that by (cases x) (auto simp: gomap_simps split: if_splits)
qed simp

subsection \<open>The jobs of the scheduler\<close>

text \<open>
  What happens to the tasks after the start: \<open>others\<close> are the jobs that no task of the list owns: those that other parts
  of the dashboard register, and those of handlers whose write to the database failed. The scheduler gives a number that is
  not zero and not in use.
\<close>

definition fresh_job :: "nat option \<Rightarrow> cron_class \<Rightarrow> bool" where
  "fresh_job add c \<longleftrightarrow> (\<forall>j. add = Some j \<longrightarrow> j \<noteq> 0 \<and> j \<notin> fst ` set (cc_jobs c))"

definition fresh_answers :: "(cron_task \<Rightarrow> nat option) \<Rightarrow> cron_task list \<Rightarrow> bool" where
  "fresh_answers add rows \<longleftrightarrow> (\<forall>t j. t \<in> set rows \<and> add t = Some j \<longrightarrow> j \<noteq> 0) \<and>
     (\<forall>t u j. t \<in> set rows \<and> u \<in> set rows \<and> add t = Some j \<and> add u = Some j \<longrightarrow> t = u)"

inductive cron_reach :: "(string \<Rightarrow> string) \<Rightarrow> cron_class \<Rightarrow> nat set \<Rightarrow> bool" for tr where
  cron_start: "fresh_answers add rows \<Longrightarrow> distinct (map cr_ID rows) \<Longrightarrow> \<forall>t \<in> set rows. cr_CronJobID t = 0 \<Longrightarrow>
    cron_reach tr (fst (NewCronClass tr add rows)) {}"
| cron_foreign: "cron_reach tr c others \<Longrightarrow> fresh_job (Some j) c \<Longrightarrow> cron_reach tr (c\<lparr>cc_jobs := cc_jobs c @ [(j, t)]\<rparr>) (insert j others)"
| cron_save: "cron_reach tr c others \<Longrightarrow> fresh_job add c \<Longrightarrow> cr_CronJobID cr = 0 \<Longrightarrow> save_cron add (Some k) cr c = (c', out) \<Longrightarrow> cron_reach tr c' others"
| cron_save_fails: "cron_reach tr c others \<Longrightarrow> fresh_job add c \<Longrightarrow> cr_CronJobID cr = 0 \<Longrightarrow> save_cron add None cr c = (c', out) \<Longrightarrow>
    cron_reach tr c' (others \<union> (fst ` set (cc_jobs c') - fst ` set (cc_jobs c)))"
| cron_delete: "cron_reach tr c others \<Longrightarrow> cron_reach tr (Cron_Delete ids c) others"

definition owned_job :: "cron_class \<Rightarrow> nat \<Rightarrow> bool" where
  "owned_job c j \<longleftrightarrow> j \<noteq> 0 \<and> (\<exists>k t. map_of (cc_list c) k = Some t \<and> cr_CronJobID t = j)"

definition jobs_exact :: "cron_class \<Rightarrow> nat set \<Rightarrow> bool" where
  "jobs_exact c others \<longleftrightarrow> fst ` set (cc_jobs c) = {j. owned_job c j} \<union> others \<and> 0 \<notin> others \<and> (\<forall>j \<in> others. \<not> owned_job c j) \<and>
     (\<forall>k t. map_of (cc_list c) k = Some t \<longrightarrow> cr_ID t = k \<and> (cr_CronJobID t \<noteq> 0 \<longrightarrow> (cr_CronJobID t, t) \<in> set (cc_jobs c))) \<and>
     (\<forall>k k' t t'. map_of (cc_list c) k = Some t \<and> map_of (cc_list c) k' = Some t' \<and> cr_CronJobID t = cr_CronJobID t' \<and> cr_CronJobID t \<noteq> 0 \<longrightarrow> k = k')"

lemma fst_cron_Remove: "fst ` set (cron_Remove j jobs) = fst ` set jobs - {j}"
  by (auto simp: cron_Remove_def)

lemma jobs_exactD:
  assumes "jobs_exact c others"
  shows "fst ` set (cc_jobs c) = {j. owned_job c j} \<union> others" "j \<in> others \<Longrightarrow> \<not> owned_job c j"
    "map_of (cc_list c) k = Some t \<Longrightarrow> cr_ID t = k" "map_of (cc_list c) k = Some t \<Longrightarrow> cr_CronJobID t \<noteq> 0 \<Longrightarrow> (cr_CronJobID t, t) \<in> set (cc_jobs c)"
    "map_of (cc_list c) k = Some t \<Longrightarrow> map_of (cc_list c) k' = Some t' \<Longrightarrow> cr_CronJobID t = cr_CronJobID t' \<Longrightarrow> cr_CronJobID t \<noteq> 0 \<Longrightarrow> k = k'"
    "0 \<notin> others"
  using assms unfolding jobs_exact_def by blast+

lemma no_job_zero: "jobs_exact c others \<Longrightarrow> 0 \<notin> fst ` set (cc_jobs c)"
  using jobs_exactD(1,6) by (auto simp: owned_job_def)

lemma jobs_exact_delete1:
  assumes ok: "jobs_exact c others"
  shows "jobs_exact (cron_delete1 k c) others"
proof (cases "map_of (cc_list c) k")
  case None
  then have "map_of (cc_list (cron_delete1 k c)) = map_of (cc_list c)" by (auto simp: cron_delete1_def Let_def gomap_simps)
  moreover have "cc_jobs (cron_delete1 k c) = cc_jobs c" by (simp add: cron_delete1_def Let_def None)
  ultimately show ?thesis using ok by (simp add: jobs_exact_def owned_job_def)
next
  case (Some t)
  let ?d = "cron_delete1 k c"
  have look: "map_of (cc_list ?d) i = Some u \<longleftrightarrow> i \<noteq> k \<and> map_of (cc_list c) i = Some u" for i u
    by (auto simp: cron_delete1_def Let_def gomap_simps)
  have other: "cr_CronJobID u \<noteq> cr_CronJobID t" if "map_of (cc_list c) i = Some u" "i \<noteq> k" "cr_CronJobID u \<noteq> 0" for i u
    using jobs_exactD(5) [OF ok that(1) Some] that by blast
  have owned: "owned_job ?d j \<longleftrightarrow> owned_job c j \<and> j \<noteq> cr_CronJobID t" for j
    unfolding owned_job_def look using other Some by (metis option.inject)
  have jobs: "set (cc_jobs ?d) = {p \<in> set (cc_jobs c). cr_CronJobID t = 0 \<or> fst p \<noteq> cr_CronJobID t}"
    by (auto simp: cron_delete1_def Let_def Some cron_Remove_def)
  have keys: "fst ` set (cc_jobs ?d) = fst ` set (cc_jobs c) - (if cr_CronJobID t = 0 then {} else {cr_CronJobID t})"
    unfolding jobs by auto
  have nt: "cr_CronJobID t \<notin> others \<or> cr_CronJobID t = 0" using jobs_exactD(2) [OF ok] Some unfolding owned_job_def by blast
  have owned_nz: "owned_job c j \<Longrightarrow> j \<noteq> 0" for j by (simp add: owned_job_def)
  show ?thesis unfolding jobs_exact_def
  proof (intro conjI)
    show "fst ` set (cc_jobs ?d) = {j. owned_job ?d j} \<union> others"
      unfolding keys jobs_exactD(1) [OF ok] owned using nt owned_nz by auto
    show "0 \<notin> others" by (rule jobs_exactD(6) [OF ok])
    show "\<forall>j \<in> others. \<not> owned_job ?d j" using jobs_exactD(2) [OF ok] owned by blast
    show "\<forall>i u. map_of (cc_list ?d) i = Some u \<longrightarrow> cr_ID u = i \<and> (cr_CronJobID u \<noteq> 0 \<longrightarrow> (cr_CronJobID u, u) \<in> set (cc_jobs ?d))"
    proof (intro allI impI)
      fix i u assume "map_of (cc_list ?d) i = Some u"
      then have u: "i \<noteq> k" "map_of (cc_list c) i = Some u" by (simp_all add: look)
      then show "cr_ID u = i \<and> (cr_CronJobID u \<noteq> 0 \<longrightarrow> (cr_CronJobID u, u) \<in> set (cc_jobs ?d))"
        using jobs_exactD(3,4) [OF ok u(2)] other [OF u(2,1)] by (simp add: jobs)
    qed
    show "\<forall>i i' u u'. map_of (cc_list ?d) i = Some u \<and> map_of (cc_list ?d) i' = Some u' \<and> cr_CronJobID u = cr_CronJobID u' \<and>
        cr_CronJobID u \<noteq> 0 \<longrightarrow> i = i'"
      unfolding look using jobs_exactD(5) [OF ok] by blast
  qed
qed

text \<open>A new task of a free number, with a job of its own or none.\<close>

lemma jobs_exact_insert:
  assumes ok: "jobs_exact c others" and n: "map_of (cc_list c) (cr_ID t) = None" and j: "cr_CronJobID t \<notin> fst ` set (cc_jobs c)"
    and l: "map_of (cc_list d) = (map_of (cc_list c))(cr_ID t \<mapsto> t)"
    and jb: "set (cc_jobs d) = set (cc_jobs c) \<union> (if cr_CronJobID t = 0 then {} else {(cr_CronJobID t, t)})"
  shows "jobs_exact d others"
proof -
  have owned: "owned_job d i \<longleftrightarrow> owned_job c i \<or> (i \<noteq> 0 \<and> i = cr_CronJobID t)" for i
  proof
    assume "owned_job d i"
    then show "owned_job c i \<or> (i \<noteq> 0 \<and> i = cr_CronJobID t)" unfolding owned_job_def l by (auto split: if_splits)
  next
    assume "owned_job c i \<or> (i \<noteq> 0 \<and> i = cr_CronJobID t)"
    then show "owned_job d i"
    proof
      assume "owned_job c i"
      then obtain k u where u: "i \<noteq> 0" "map_of (cc_list c) k = Some u" "cr_CronJobID u = i" unfolding owned_job_def by blast
      then have "k \<noteq> cr_ID t" using n by auto
      then have "map_of (cc_list d) k = Some u" unfolding l using u by simp
      then show ?thesis unfolding owned_job_def using u by blast
    next
      assume "i \<noteq> 0 \<and> i = cr_CronJobID t"
      then show ?thesis unfolding owned_job_def l by auto
    qed
  qed
  have fresh: "cr_CronJobID u \<noteq> cr_CronJobID t" if "map_of (cc_list c) i = Some u" "cr_CronJobID u \<noteq> 0" for i u
    using jobs_exactD(4) [OF ok that] j by force
  have "fst ` set (cc_jobs d) = fst ` set (cc_jobs c) \<union> (if cr_CronJobID t = 0 then {} else {cr_CronJobID t})" unfolding jb by auto
  then have "fst ` set (cc_jobs d) = {i. owned_job d i} \<union> others" unfolding jobs_exactD(1) [OF ok] owned by auto
  moreover have "\<forall>i \<in> others. \<not> owned_job d i" unfolding owned using jobs_exactD(1,2) [OF ok] j by auto
  moreover have "\<forall>k u. map_of (cc_list d) k = Some u \<longrightarrow> cr_ID u = k \<and> (cr_CronJobID u \<noteq> 0 \<longrightarrow> (cr_CronJobID u, u) \<in> set (cc_jobs d))"
    unfolding l jb using jobs_exactD(3,4) [OF ok] by auto
  moreover have "\<forall>k k' u u'. map_of (cc_list d) k = Some u \<and> map_of (cc_list d) k' = Some u' \<and> cr_CronJobID u = cr_CronJobID u' \<and>
      cr_CronJobID u \<noteq> 0 \<longrightarrow> k = k'"
  proof (intro allI impI)
    fix k k' u u' assume a: "map_of (cc_list d) k = Some u \<and> map_of (cc_list d) k' = Some u' \<and> cr_CronJobID u = cr_CronJobID u' \<and> cr_CronJobID u \<noteq> 0"
    show "k = k'"
    proof (cases "k = cr_ID t \<or> k' = cr_ID t")
      case True
      then show ?thesis using a fresh [of k u] fresh [of k' u'] by (auto simp: l split: if_splits)
    next
      case False
      then show ?thesis using a jobs_exactD(5) [OF ok, of k u k' u'] by (simp add: l)
    qed
  qed
  ultimately show ?thesis using jobs_exactD(6) [OF ok] unfolding jobs_exact_def by blast
qed

lemma jobs_exact_sort [simp]: "jobs_exact (cc_sortList c) others = jobs_exact c others"
  by (simp add: jobs_exact_def owned_job_def)

lemma jobs_exact_Delete: "jobs_exact c others \<Longrightarrow> jobs_exact (Cron_Delete ids c) others"
  unfolding Cron_Delete_def by (simp add: jobs_exact_delete1 fold_ok [where P = "\<lambda>c. jobs_exact c others"])

text \<open>An update is the deletion of the old task and the insertion of the new one, whose job is already there.\<close>

lemma jobs_exact_Update:
  assumes ok: "jobs_exact c others" and j: "cr_CronJobID t \<notin> fst ` set (cc_jobs c)"
    and d: "d = c\<lparr>cc_jobs := cc_jobs c @ (if cr_CronJobID t = 0 then [] else [(cr_CronJobID t, t)])\<rparr>"
  shows "jobs_exact (Cron_Update t d) others"
proof -
  let ?m = "cron_delete1 (cr_ID t) c"
  have old: "cr_CronJobID u \<noteq> cr_CronJobID t" if "map_of (cc_list c) k = Some u" "cr_CronJobID u \<noteq> 0" for k u
    using jobs_exactD(4) [OF ok that] j by force
  have m: "jobs_exact ?m others" by (rule jobs_exact_delete1 [OF ok])
  have mj: "cr_CronJobID t \<notin> fst ` set (cc_jobs ?m)"
    using j by (auto simp: cron_delete1_def Let_def cron_Remove_def split: option.splits if_splits)
  have "set (cc_jobs (Cron_Update t d)) = set (cc_jobs ?m) \<union> (if cr_CronJobID t = 0 then {} else {(cr_CronJobID t, t)})"
    using old [of "cr_ID t"] by (auto simp: Cron_Update_def cron_delete1_def Let_def d cron_Remove_def split: option.splits)
  moreover have "map_of (cc_list (Cron_Update t d)) = (map_of (cc_list ?m))(cr_ID t \<mapsto> t)"
    by (auto simp: d cron_delete1_def Let_def gomap_simps)
  moreover have "map_of (cc_list ?m) (cr_ID t) = None" by (simp add: cron_delete1_def Let_def gomap_simps)
  ultimately show ?thesis using jobs_exact_insert [OF m _ mj] by blast
qed

lemma jobs_exact_other:
  assumes ok: "jobs_exact c others" and j: "j \<noteq> 0" "j \<notin> fst ` set (cc_jobs c)"
  shows "jobs_exact (c\<lparr>cc_jobs := cc_jobs c @ [(j, t)]\<rparr>) (insert j others)"
proof -
  let ?d = "c\<lparr>cc_jobs := cc_jobs c @ [(j, t)]\<rparr>"
  have n: "\<not> owned_job c j" using jobs_exactD(1) [OF ok] j by blast
  have o: "owned_job ?d = owned_job c" by (simp add: owned_job_def fun_eq_iff)
  have "fst ` set (cc_jobs ?d) = {i. owned_job ?d i} \<union> insert j others" using jobs_exactD(1) [OF ok] by (simp add: o)
  moreover have "0 \<notin> insert j others" using jobs_exactD(6) [OF ok] j(1) by simp
  moreover have "\<forall>i \<in> insert j others. \<not> owned_job ?d i" using jobs_exactD(2) [OF ok] n by (simp add: o)
  ultimately show ?thesis using ok unfolding jobs_exact_def by simp
qed

text \<open>Loading.\<close>

definition load_ok :: "cron_load \<Rightarrow> cron_task list \<Rightarrow> bool" where
  "load_ok l rest \<longleftrightarrow> jobs_exact \<lparr>cc_list = cl_list l, cc_sortedList = [], cc_jobs = cl_jobs l\<rparr> {} \<and>
     (\<forall>t \<in> set rest. map_of (cl_list l) (cr_ID t) = None)"

lemma load_cron_ok:
  assumes "load_ok l (t # rest)" "distinct (map cr_ID (t # rest))" "cr_CronJobID t = 0"
    and "\<And>j. add t = Some j \<Longrightarrow> j \<noteq> 0 \<and> j \<notin> fst ` set (cl_jobs l)"
  shows "load_ok (load_cron tr add t l) rest"
proof -
  let ?c = "\<lparr>cc_list = cl_list l, cc_sortedList = [], cc_jobs = cl_jobs l\<rparr>"
  have ok: "jobs_exact ?c {}" and free: "map_of (cc_list ?c) (cr_ID t) = None" using assms(1) by (auto simp: load_ok_def)
  show ?thesis
  proof (cases "cr_TaskType t = CronTypeTriggerTask \<or> add t \<noteq> None")
    case True
    define u where "u = (if cr_TaskType t = CronTypeTriggerTask then t else t\<lparr>cr_CronJobID := the (add t)\<rparr>)"
    have u: "cr_ID u = cr_ID t" by (simp add: u_def)
    have look: "map_of (cl_list (load_cron tr add t l)) = (map_of (cl_list l))(cr_ID t \<mapsto> u)"
      using True by (auto simp: load_cron_def u_def Let_def gomap_simps split: option.split)
    have jobs: "set (cl_jobs (load_cron tr add t l)) = set (cl_jobs l) \<union> (if cr_CronJobID u = 0 then {} else {(cr_CronJobID u, u)})"
      using True assms(3,4) by (auto simp: load_cron_def u_def Let_def split: option.split)
    have nj: "cr_CronJobID u \<notin> fst ` set (cc_jobs ?c)"
    proof (cases "cr_CronJobID u = 0")
      case True
      then show ?thesis using jobs_exactD(1) [OF ok] by (auto simp: owned_job_def)
    next
      case False
      then show ?thesis using assms(3,4) True by (auto simp: u_def split: if_splits)
    qed
    have "jobs_exact \<lparr>cc_list = cl_list (load_cron tr add t l), cc_sortedList = [], cc_jobs = cl_jobs (load_cron tr add t l)\<rparr> {}"
      using free look jobs u by (intro jobs_exact_insert [OF ok _ nj]) simp_all
    then show ?thesis using assms(1,2) unfolding load_ok_def look by (auto simp: image_iff)
  next
    case False
    then have "cl_list (load_cron tr add t l) = cl_list l" "cl_jobs (load_cron tr add t l) = cl_jobs l"
      by (auto simp: load_cron_def Let_def)
    then show ?thesis using assms(1) by (auto simp: load_ok_def)
  qed
qed

lemma load_cron_jobs: "fst ` set (cl_jobs (load_cron tr add t l)) \<subseteq> fst ` set (cl_jobs l) \<union> set_option (add t)"
  by (auto simp: load_cron_def Let_def split: option.split)

lemma load_crons_ok:
  assumes "fresh_answers add rows" "distinct (map cr_ID rows)" "\<forall>t \<in> set rows. cr_CronJobID t = 0"
  shows "jobs_exact (fst (NewCronClass tr add rows)) {}"
proof -
  have load: "load_ok (fold (load_cron tr add) rest l) []"
    if "load_ok l rest" "set rest \<subseteq> set rows" "distinct (map cr_ID rest)"
      "\<And>t j. t \<in> set rest \<Longrightarrow> add t = Some j \<Longrightarrow> j \<notin> fst ` set (cl_jobs l)" for rest l
    using that
  proof (induction rest arbitrary: l)
    case (Cons t rest)
    have "load_ok (load_cron tr add t l) rest"
      using Cons.prems assms(1,3) by (intro load_cron_ok) (auto simp: fresh_answers_def)
    moreover have "j \<notin> fst ` set (cl_jobs (load_cron tr add t l))" if "u \<in> set rest" "add u = Some j" for u j
    proof -
      have "add t \<noteq> Some j" using that Cons.prems(2,3) assms(1) unfolding fresh_answers_def by force
      moreover have "j \<notin> fst ` set (cl_jobs l)" using Cons.prems(4) [of u j] that by simp
      ultimately show ?thesis using load_cron_jobs [of tr add t l] by auto
    qed
    moreover have "set rest \<subseteq> set rows" "distinct (map cr_ID rest)" using Cons.prems(2,3) by simp_all
    ultimately have "load_ok (fold (load_cron tr add) rest (load_cron tr add t l)) []" by (intro Cons.IH)
    then show ?case by simp
  qed simp
  have "load_ok (load_crons tr add rows) []"
    unfolding load_crons_def by (rule load) (simp_all add: assms(2) load_ok_def jobs_exact_def owned_job_def)
  then show ?thesis by (simp add: NewCronClass_def Let_def load_ok_def jobs_exact_def owned_job_def)
qed

lemma save_cron_jobs_exact:
  assumes ok: "jobs_exact c others" and fresh: "fresh_job add c" and zero: "cr_CronJobID cr = 0"
  shows "jobs_exact (fst (save_cron add (Some k) cr c)) others"
    and "jobs_exact (fst (save_cron add None cr c)) (others \<union> (fst ` set (cc_jobs (fst (save_cron add None cr c))) - fst ` set (cc_jobs c)))"
proof -
  show "jobs_exact (fst (save_cron add (Some k) cr c)) others"
  proof (cases "cr_TaskType cr = CronTypeCronTask")
    case True
    show ?thesis
    proof (cases add)
      case (Some j)
      then have "j \<noteq> 0" "j \<notin> fst ` set (cc_jobs c)" using fresh by (auto simp: fresh_job_def)
      then have "jobs_exact (Cron_Update (cr\<lparr>cr_CronJobID := j, cr_ID := k\<rparr>) (c\<lparr>cc_jobs := cc_jobs c @ [(j, cr\<lparr>cr_CronJobID := j, cr_ID := k\<rparr>)]\<rparr>)) others"
        by (intro jobs_exact_Update [OF ok]) simp_all
      then show ?thesis using ok True Some by (simp add: save_cron_def Let_def)
    qed (use ok True in \<open>simp add: save_cron_def Let_def\<close>)
  next
    case False
    have "jobs_exact (Cron_Update (cr\<lparr>cr_ID := k\<rparr>) c) others"
      using no_job_zero [OF ok] zero by (intro jobs_exact_Update [OF ok]) simp_all
    then show ?thesis using ok False by (simp add: save_cron_def Let_def)
  qed
  show "jobs_exact (fst (save_cron add None cr c)) (others \<union> (fst ` set (cc_jobs (fst (save_cron add None cr c))) - fst ` set (cc_jobs c)))"
  proof (cases "cr_TaskType cr = CronTypeCronTask \<and> cr_Cover cr \<noteq> CronCoverAlertTrigger \<and> add \<noteq> None")
    case True
    then obtain j where j: "add = Some j" "j \<noteq> 0" "j \<notin> fst ` set (cc_jobs c)" using fresh by (auto simp: fresh_job_def)
    have "fst (save_cron add None cr c) = c\<lparr>cc_jobs := cc_jobs c @ [(j, cr\<lparr>cr_CronJobID := j\<rparr>)]\<rparr>"
      using True j(1) by (simp add: save_cron_def Let_def)
    then show ?thesis using jobs_exact_other [OF ok j(2,3)] j(3) by (simp add: insert_Diff_if)
  next
    case False
    then have "fst (save_cron add None cr c) = c" by (auto simp: save_cron_def Let_def)
    then show ?thesis using ok by simp
  qed
qed

lemma cron_reach_jobs: "cron_reach tr c others \<Longrightarrow> jobs_exact c others"
proof (induction rule: cron_reach.induct)
  case (cron_start add rows)
  then show ?case by (rule load_crons_ok)
next
  case (cron_foreign c others j t)
  then show ?case by (intro jobs_exact_other) (auto simp: fresh_job_def)
next
  case (cron_save c others add cr k c' out)
  then show ?case using save_cron_jobs_exact(1) [of c others add cr k] by simp
next
  case (cron_save_fails c others add cr c' out)
  then show ?case using save_cron_jobs_exact(2) [of c others add cr] by simp
next
  case (cron_delete c others ids)
  show ?case by (rule jobs_exact_Delete [OF cron_delete.IH])
qed


text \<open>When the database refuses a scheduled task after its job was registered, the handler answers with an error, but the
  job stays: no deletion of tasks removes it, and its command goes on running on its schedule.\<close>

lemma failed_save_leaves_job:
  assumes "cron_reach tr c others" and "fresh_job (Some j) c" and "cr_CronJobID cr = 0"
    and "cr_TaskType cr = CronTypeCronTask" and "cr_Cover cr \<noteq> CronCoverAlertTrigger"
  shows "\<exists>c' e. save_cron (Some j) None cr c = (c', Inl e) \<and> (j, cr\<lparr>cr_CronJobID := j\<rparr>) \<in> set (cc_jobs c') \<and>
    map_of (cc_list c') = map_of (cc_list c) \<and> j \<in> fst ` set (cc_jobs (Cron_Delete ids c'))"
proof -
  have j: "j \<noteq> 0" "j \<notin> fst ` set (cc_jobs c)" using assms(2) by (auto simp: fresh_job_def)
  define c' where "c' = c\<lparr>cc_jobs := cc_jobs c @ [(j, cr\<lparr>cr_CronJobID := j\<rparr>)]\<rparr>"
  have save: "save_cron (Some j) None cr c = (c', Inl ''database error'')" using assms(4,5) by (simp add: save_cron_def Let_def c'_def)
  have "jobs_exact (Cron_Delete ids c') (insert j others)"
    using jobs_exact_Delete jobs_exact_other [OF cron_reach_jobs [OF assms(1)] j] unfolding c'_def by blast
  then have "j \<in> fst ` set (cc_jobs (Cron_Delete ids c'))" using jobs_exactD(1) by blast
  then show ?thesis using save by (simp add: c'_def)
qed

lemma range_sends:
  "class_Range (\<lambda>k s ev. (True, if cron_covers cr s then cron_send cr s # ev else ev)) m acc =
     rev (map (cron_send cr) (filter (cron_covers cr) (map snd m))) @ acc"
  by (induction m arbitrary: acc) auto

lemma CronTrigger_all:
  assumes "cr_Cover cr \<noteq> CronCoverAlertTrigger" "\<not> sr_stuck sc"
  shows "CronTrigger cr tg sc = Ret (map (cron_send cr) (filter (cron_covers cr) (map snd (sr_list sc))))"
  using assms by (simp add: CronTrigger_def listMu_read_def range_sends)

text \<open>C2: A member who may use no server at all can run any command on every server of the dashboard: a task that covers all
  servers but an empty list passes every check of the handler, and triggering it sends the command to each agent that is
  connected, whoever owns the server.\<close>

theorem member_task_reaches_every_server:
  assumes "u_Role u = RoleMember" and "\<not> sr_stuck sc" and "map_of (sr_list sc) k = Some s" and "sv_Online s"
    and "cf_Servers cf = []" and "cf_Cover cf = CronCoverAll" and "cf_TaskType cf = CronTypeCronTask"
  shows "\<exists>c' ev. createCron u sc (Some j) (Some i) cf c = Ret (c', Inr i) \<and>
    manualTriggerCron u i c' sc = Ret (Inr ev) \<and> SendCommand (sv_ID s) i (cf_Command cf) \<in> set ev"
proof -
  define t where "t = (fill_cron cf \<lparr>cr_ID = 0, cr_UserID = u_ID u, cr_Name = [], cr_TaskType = 0, cr_Scheduler = [], cr_Command = [],
     cr_Servers = [], cr_PushSuccessful = False, cr_NotificationGroupID = 0, cr_LastResult = False, cr_Cover = 0, cr_CronJobID = 0\<rparr>)
     \<lparr>cr_CronJobID := j, cr_ID := i\<rparr>"
  define c' where "c' = Cron_Update t (c\<lparr>cc_jobs := cc_jobs c @ [(j, t)]\<rparr>)"
  have cover: "CronCoverAll \<noteq> CronCoverAlertTrigger" "CronCoverAll \<noteq> CronCoverIgnoreAll"
    by (simp_all add: CronCoverAll_def CronCoverAlertTrigger_def CronCoverIgnoreAll_def)
  have create: "createCron u sc (Some j) (Some i) cf c = Ret (c', Inr i)"
    using assms(2,5,6,7) cover by (simp add: createCron_def Server_CheckPermission_def class_CheckPermission_def listMu_read_def
      save_cron_def Let_def fill_cron_def c'_def t_def)
  have t: "cr_UserID t = u_ID u" "cr_Cover t = CronCoverAll" "cr_Servers t = []" "cr_ID t = i" "cr_Command t = cf_Command cf"
    using assms(5,6) by (simp_all add: t_def fill_cron_def)
  have look: "map_of (cc_list c') i = Some t" by (simp add: c'_def t gomap_simps)
  have "manualTriggerCron u i c' sc = Ret (Inr (map (cron_send t) (filter (cron_covers t) (map snd (sr_list sc)))))"
    using CronTrigger_all [of t sc None] cover t assms(2) by (simp add: manualTriggerCron_def look HasPermission_def)
  moreover have "cron_send t s \<in> set (map (cron_send t) (filter (cron_covers t) (map snd (sr_list sc))))"
    using map_of_SomeD [OF assms(3)] cover t by (force simp: cron_covers_def)
  ultimately show ?thesis using create assms(4) t by (simp add: cron_send_def)
qed

text \<open>A run of a task reaches each registered server it covers once and no other: a connected one is sent the command, for
  the others the group of the task is told. A task for alerts reaches only the server that triggered it.\<close>

lemma cron_trigger_targets:
  assumes "\<not> sr_stuck sc"
  shows "CronTrigger cr tg sc = Ret (map (cron_send cr)
    (if cr_Cover cr = CronCoverAlertTrigger then (case Option.bind tg (map_of (sr_list sc)) of None \<Rightarrow> [] | Some s \<Rightarrow> [s])
     else if cr_Cover cr = CronCoverIgnoreAll then filter (\<lambda>s. sv_ID s \<in> set (cr_Servers cr)) (map snd (sr_list sc))
     else if cr_Cover cr = CronCoverAll then filter (\<lambda>s. sv_ID s \<notin> set (cr_Servers cr)) (map snd (sr_list sc))
     else map snd (sr_list sc)))"
proof (cases "cr_Cover cr = CronCoverAlertTrigger")
  case True
  then show ?thesis using assms
    by (auto simp: CronTrigger_def Server_Get_def class_Get_def listMu_read_def split: option.split)
next
  case False
  have cover: "CronCoverAll \<noteq> CronCoverIgnoreAll" by (simp add: CronCoverAll_def CronCoverIgnoreAll_def)
  have "cron_covers cr = (\<lambda>s. if cr_Cover cr = CronCoverIgnoreAll then sv_ID s \<in> set (cr_Servers cr)
      else if cr_Cover cr = CronCoverAll then sv_ID s \<notin> set (cr_Servers cr) else True)"
    using cover by (auto simp: cron_covers_def)
  then show ?thesis using CronTrigger_all [OF False assms, of tg] False by simp
qed

subsection \<open>Witnesses\<close>

definition some_task :: "uint64 \<Rightarrow> cron_task" where
  "some_task k = \<lparr>cr_ID = k, cr_UserID = 1, cr_Name = ''t'', cr_TaskType = CronTypeCronTask, cr_Scheduler = ''@daily'', cr_Command = ''x'',
     cr_Servers = [], cr_PushSuccessful = False, cr_NotificationGroupID = 0, cr_LastResult = False, cr_Cover = CronCoverAll, cr_CronJobID = 0\<rparr>"

definition some_crons :: cron_class where
  "some_crons = fst (NewCronClass id (\<lambda>t. Some 1) [some_task 5])"

lemma some_crons_reach: "cron_reach id some_crons {}"
  unfolding some_crons_def by (rule cron_start) (simp_all add: fresh_answers_def some_task_def)

lemma some_crons_eval: "cc_jobs some_crons = [(1, (some_task 5)\<lparr>cr_CronJobID := 1\<rparr>)]" "cc_list some_crons = [(5, (some_task 5)\<lparr>cr_CronJobID := 1\<rparr>)]"
  by (simp_all add: some_crons_def NewCronClass_def load_crons_def load_cron_def some_task_def Let_def CronTypeCronTask_def CronTypeTriggerTask_def)


lemma failed_save_leaves_job_witness:
  "\<exists>c' e. save_cron (Some 2) None (some_task 6) some_crons = (c', Inl e) \<and> 2 \<in> fst ` set (cc_jobs (Cron_Delete [5, 6] c'))"
  using failed_save_leaves_job [OF some_crons_reach, of 2 "some_task 6" "[5, 6]"]
  by (auto simp: fresh_job_def some_crons_eval some_task_def CronCoverAll_def CronCoverAlertTrigger_def)

definition some_member :: user where
  "some_member = \<lparr>u_ID = 9, u_Username = ''m'', u_Role = RoleMember, u_AgentSecret = ''s'', u_RejectPassword = False\<rparr>"

definition some_form :: cron_form where
  "some_form = \<lparr>cf_TaskType = CronTypeCronTask, cf_Name = ''t'', cf_Scheduler = ''@daily'', cf_Command = ''id'', cf_Servers = [],
     cf_PushSuccessful = False, cf_NotificationGroupID = 0, cf_Cover = CronCoverAll\<rparr>"

definition online_registry :: server_class where
  "online_registry = some_registry\<lparr>sr_list := [(1, (some_server 1 ''u'' 0)\<lparr>sv_Online := True\<rparr>)]\<rparr>"

theorem member_task_reaches_every_server_witness:
  "\<exists>c' ev. createCron some_member online_registry (Some 2) (Some 6) some_form some_crons = Ret (c', Inr 6) \<and>
    manualTriggerCron some_member 6 c' online_registry = Ret (Inr ev) \<and> SendCommand 1 6 ''id'' \<in> set ev"
  using member_task_reaches_every_server [of some_member online_registry 1 "(some_server 1 ''u'' 0)\<lparr>sv_Online := True\<rparr>" some_form 2 6 some_crons]
  by (simp add: some_member_def online_registry_def some_form_def some_registry_list some_server_def)

lemma cron_trigger_targets_witness: "CronTrigger (some_task 5) None online_registry = Ret [SendCommand 1 5 ''x'']"
  using cron_trigger_targets [of online_registry "some_task 5" None]
  by (simp add: online_registry_def some_registry_list some_server_def some_task_def cron_send_def
      CronCoverAll_def CronCoverAlertTrigger_def CronCoverIgnoreAll_def)

end
