(* ===== verification/Traffic.thy ===== *)
theory Traffic
  imports Alert_Rule Tsdb_Store
begin

text \<open>
  The traffic of the servers: the reports of the agents (\<open>ReportSystemState\<close> and \<open>onReportSystemInfo\<close> in
  \<open>service/rpc/nezha.go\<close>), the hourly records and their removal (\<open>RecordTransferHourlyUsage\<close> and
  \<open>CleanMonitorHistory\<close> in \<open>service/singleton/singleton.go\<close>).

  The counters of an agent count from its boot. The dashboard keeps the counters of the last record as snapshots, writes the
  difference every hour, and starts anew when the agent reports a later boot. The table of records is the list of what
  was written; the hour of a record is an argument.
\<close>

subsection \<open>State\<close>

record live_server = server +
  sv_BootTime :: uint64

record transfer =
  tf_ServerID :: uint64
  tf_In :: uint64
  tf_Out :: uint64
  tf_CreatedAt :: int

record host_info =
  ho_MemTotal :: uint64
  ho_DiskTotal :: uint64
  ho_SwapTotal :: uint64
  ho_BootTime :: uint64

subsection \<open>Records\<close>

definition record_usage :: "int \<Rightarrow> live_server \<Rightarrow> live_server \<times> transfer list" where
  "record_usage hour s =
     (let i = SubUintChecked (hs_NetInTransfer (sv_State s)) (sv_PrevIn s); u = SubUintChecked (hs_NetOutTransfer (sv_State s)) (sv_PrevOut s)
      in if i = 0 \<and> u = 0 then (s, [])
         else (s\<lparr>sv_PrevIn := hs_NetInTransfer (sv_State s), sv_PrevOut := hs_NetOutTransfer (sv_State s)\<rparr>,
               [\<lparr>tf_ServerID = sv_ID s, tf_In = i, tf_Out = u, tf_CreatedAt = hour\<rparr>]))"

fun RecordTransferHourlyUsage :: "int \<Rightarrow> (uint64 \<times> live_server) list \<Rightarrow> (uint64 \<times> live_server) list \<times> transfer list" where
  "RecordTransferHourlyUsage hour [] = ([], [])" |
  "RecordTransferHourlyUsage hour ((k, s) # m) = (let (s', t) = record_usage hour s; (m', ts) = RecordTransferHourlyUsage hour m
     in ((k, s') # m', t @ ts))"

subsection \<open>Reports\<close>

definition max_temp :: "host_state \<Rightarrow> float64" where
  "max_temp st = fold (\<lambda>t m. if st_Temperature t > m then st_Temperature t else m) (hs_Temperatures st) 0"

definition max_gpu :: "host_state \<Rightarrow> float64" where
  "max_gpu st = fold (\<lambda>g m. if g > m then g else m) (hs_GPU st) 0"

definition metrics_of :: "uint64 \<Rightarrow> int \<Rightarrow> host_state \<Rightarrow> server_metrics" where
  "metrics_of k now st = \<lparr>sm_ServerID = k, sm_Timestamp = now, sm_CPU = hs_CPU st, sm_MemUsed = hs_MemUsed st, sm_SwapUsed = hs_SwapUsed st,
     sm_DiskUsed = hs_DiskUsed st, sm_NetInSpeed = hs_NetInSpeed st, sm_NetOutSpeed = hs_NetOutSpeed st, sm_NetInTransfer = hs_NetInTransfer st,
     sm_NetOutTransfer = hs_NetOutTransfer st, sm_Load1 = hs_Load1 st, sm_Load5 = hs_Load5 st, sm_Load15 = hs_Load15 st,
     sm_TCPConnCount = hs_TcpConnCount st, sm_UDPConnCount = hs_UdpConnCount st, sm_ProcessCount = hs_ProcessCount st,
     sm_Temperature = max_temp st, sm_Uptime = hs_Uptime st, sm_GPU = max_gpu st\<rparr>"

definition take_state :: "int \<Rightarrow> host_state \<Rightarrow> live_server \<Rightarrow> live_server" where
  "take_state now st s = (let s1 = s\<lparr>sv_LastActive := Some now, sv_State := st\<rparr>
     in if sv_PrevIn s1 = 0 \<or> sv_PrevOut s1 = 0 then s1\<lparr>sv_PrevIn := hs_NetInTransfer st, sv_PrevOut := hs_NetOutTransfer st\<rparr> else s1)"

text \<open>One message of the stream; a failed write to the time-series database is only logged.\<close>

definition ReportSystemState :: "uint64 \<Rightarrow> int \<Rightarrow> host_state \<Rightarrow> tsdb option \<Rightarrow> (uint64, live_server) gomap \<Rightarrow> go_error \<times> tsdb option \<times> (uint64, live_server) gomap" where
  "ReportSystemState k now st db m = (case map_of m k of None \<Rightarrow> (Some ''server not found'', db, m)
     | Some s \<Rightarrow> (None, map_option (\<lambda>d. snd (WriteServerMetrics (metrics_of k now st) d)) db, AList.update k (take_state now st s) m))"

definition take_host :: "int \<Rightarrow> host_info \<Rightarrow> live_server \<Rightarrow> live_server \<times> transfer list" where
  "take_host hour h s =
     (let (s1, ts) = (if sv_LastActive s \<noteq> None \<and> ho_BootTime h > sv_BootTime s
          then (let (r, t) = record_usage hour s in (r\<lparr>sv_PrevIn := 0, sv_PrevOut := 0\<rparr>, t)) else (s, []))
      in (s1\<lparr>sv_MemTotal := ho_MemTotal h, sv_DiskTotal := ho_DiskTotal h, sv_SwapTotal := ho_SwapTotal h, sv_BootTime := ho_BootTime h\<rparr>, ts))"

definition onReportSystemInfo :: "uint64 \<Rightarrow> int \<Rightarrow> host_info \<Rightarrow> (uint64, live_server) gomap \<Rightarrow> go_error \<times> (uint64, live_server) gomap \<times> transfer list" where
  "onReportSystemInfo k hour h m = (case map_of m k of None \<Rightarrow> (Some ''server not found'', m, [])
     | Some s \<Rightarrow> (let (s', ts) = take_host hour h s in (None, AList.update k s' m, ts)))"

subsection \<open>Removal of old records\<close>

record keep_times =
  kt_all :: "int option"
  kt_special :: "(uint64, int) gomap"
  kt_ids :: "uint64 list"

definition keep_id :: "int \<Rightarrow> uint64 \<Rightarrow> keep_times \<Rightarrow> keep_times" where
  "keep_id t k a = (if (case map_of (kt_special a) k of None \<Rightarrow> True | Some u \<Rightarrow> t < u)
     then a\<lparr>kt_special := AList.update k t (kt_special a), kt_ids := kt_ids a @ [k]\<rparr> else a)"

definition keep_rule :: "int \<Rightarrow> keep_times \<Rightarrow> rule \<Rightarrow> keep_times go" where
  "keep_rule now a r = (if \<not> IsTransferDurationRule r then Ret a
     else go_bind (cycle_start r now) (\<lambda>t. Ret (if r_Cover r = RuleCoverAll
       then (if (case kt_all a of None \<Rightarrow> True | Some u \<Rightarrow> t < u) then a\<lparr>kt_all := Some t\<rparr> else a)
       else fold (keep_id t) (map fst (r_Ignore r)) a)))"

definition drop_special :: "(uint64, int) gomap \<Rightarrow> transfer list \<Rightarrow> transfer list" where
  "drop_special m rows = fold (\<lambda>(k, t). filter (\<lambda>r. \<not> (tf_ServerID r = k \<and> tf_CreatedAt r < t))) m rows"

text \<open>
  \<open>known\<close> are the servers of the database. \<open>not_in\<close> is how the database library answers \<open>NOT IN\<close> for a list of numbers,
  which may be empty here.
\<close>

definition CleanMonitorHistory :: "(uint64 \<Rightarrow> uint64 list \<Rightarrow> bool) \<Rightarrow> int \<Rightarrow> uint64 set \<Rightarrow> alert_rule list \<Rightarrow> transfer list \<Rightarrow> transfer list go" where
  "CleanMonitorHistory not_in now known alerts rows =
     (let rows1 = filter (\<lambda>r. tf_ServerID r \<in> known) rows
      in go_bind (go_foldM (keep_rule now) \<lparr>kt_all = None, kt_special = [], kt_ids = []\<rparr> (concat (map ar_Rules alerts))) (\<lambda>a.
        let rows2 = drop_special (kt_special a) rows1
        in Ret (case kt_all a of
             None \<Rightarrow> filter (\<lambda>r. \<not> not_in (tf_ServerID r) (kt_ids a)) rows2
           | Some t \<Rightarrow> filter (\<lambda>r. \<not> (not_in (tf_ServerID r) (kt_ids a) \<and> tf_CreatedAt r < t)) rows2)))"

subsection \<open>Accounting\<close>

text \<open>What happens to one server: a report, the hourly record, and the host information after a boot.\<close>

datatype traffic_event = TReport int host_state | THour int | TBoot int host_info

fun traffic_step :: "traffic_event \<Rightarrow> live_server \<times> transfer list \<Rightarrow> live_server \<times> transfer list" where
  "traffic_step (TReport now st) (s, ts) = (take_state now st s, ts)" |
  "traffic_step (THour hour) (s, ts) = (let (s', t) = record_usage hour s in (s', ts @ t))" |
  "traffic_step (TBoot hour h) (s, ts) = (let (s', t) = take_host hour h s in (s', ts @ t))"

definition traffic_run :: "traffic_event list \<Rightarrow> live_server \<Rightarrow> live_server \<times> transfer list" where
  "traffic_run evs s = fold traffic_step evs (s, [])"

text \<open>
  The traffic an agent reports: the growth of a counter between successive reports of one boot. \<open>prev\<close> is the counter of the
  last report of the present boot.
\<close>

fun traffic_of :: "(host_state \<Rightarrow> uint64) \<Rightarrow> nat option \<Rightarrow> traffic_event list \<Rightarrow> nat" where
  "traffic_of c prev [] = 0" |
  "traffic_of c prev (TReport now st # evs) = (case prev of None \<Rightarrow> 0 | Some p \<Rightarrow> unat (c st) - p) + traffic_of c (Some (unat (c st))) evs" |
  "traffic_of c prev (THour hour # evs) = traffic_of c prev evs" |
  "traffic_of c prev (TBoot hour h # evs) = traffic_of c None evs"

text \<open>
  Reports of counters that are not zero and do not fall within a boot; each boot is later than the one before, and the first
  thing after it is a report.
\<close>

fun regular :: "(nat \<times> nat) option \<Rightarrow> uint64 \<Rightarrow> traffic_event list \<Rightarrow> bool" where
  "regular prev b [] \<longleftrightarrow> True" |
  "regular prev b (TReport now st # evs) \<longleftrightarrow> 0 < unat (hs_NetInTransfer st) \<and> 0 < unat (hs_NetOutTransfer st) \<and>
     (case prev of None \<Rightarrow> True | Some (i, u) \<Rightarrow> i \<le> unat (hs_NetInTransfer st) \<and> u \<le> unat (hs_NetOutTransfer st)) \<and>
     regular (Some (unat (hs_NetInTransfer st), unat (hs_NetOutTransfer st))) b evs" |
  "regular prev b (THour hour # evs) \<longleftrightarrow> prev \<noteq> None \<and> regular prev b evs" |
  "regular prev b (TBoot hour h # evs) \<longleftrightarrow> prev \<noteq> None \<and> b < ho_BootTime h \<and> regular None (ho_BootTime h) evs"

definition recorded :: "(transfer \<Rightarrow> uint64) \<Rightarrow> transfer list \<Rightarrow> nat" where
  "recorded c ts = sum_list (map (\<lambda>t. unat (c t)) ts)"

text \<open>What the alert rules add for the time since the last record (see \<open>rule_src\<close>), when there is a snapshot.\<close>

definition unrecorded :: "(host_state \<Rightarrow> uint64) \<Rightarrow> (live_server \<Rightarrow> uint64) \<Rightarrow> live_server \<Rightarrow> nat" where
  "unrecorded c snap s = (if snap s = 0 then 0 else unat (SubUintChecked (c (sv_State s)) (snap s)))"

lemma recorded_append [simp]: "recorded c (ts @ us) = recorded c ts + recorded c us"
  and recorded_nil [simp]: "recorded c [] = 0"
  by (simp_all add: recorded_def)

fun snapshots_ok :: "(nat \<times> nat) option \<Rightarrow> live_server \<Rightarrow> bool" where
  "snapshots_ok None s \<longleftrightarrow> sv_PrevIn s = 0 \<and> sv_PrevOut s = 0" |
  "snapshots_ok (Some (i, u)) s \<longleftrightarrow> sv_LastActive s \<noteq> None \<and> unat (hs_NetInTransfer (sv_State s)) = i \<and> unat (hs_NetOutTransfer (sv_State s)) = u \<and>
     0 < unat (sv_PrevIn s) \<and> unat (sv_PrevIn s) \<le> i \<and> 0 < unat (sv_PrevOut s) \<and> unat (sv_PrevOut s) \<le> u"

lemma record_usage_eq:
  assumes "snapshots_ok (Some (i, u)) s"
  shows "\<exists>s' ts. record_usage hour s = (s', ts) \<and> recorded tf_In ts = i - unat (sv_PrevIn s) \<and> recorded tf_Out ts = u - unat (sv_PrevOut s) \<and>
    unat (sv_PrevIn s') = i \<and> unat (sv_PrevOut s') = u \<and> sv_State s' = sv_State s \<and> sv_LastActive s' = sv_LastActive s \<and> sv_BootTime s' = sv_BootTime s"
proof (cases "SubUintChecked (hs_NetInTransfer (sv_State s)) (sv_PrevIn s) = 0 \<and> SubUintChecked (hs_NetOutTransfer (sv_State s)) (sv_PrevOut s) = 0")
  case True
  then have "unat (SubUintChecked (hs_NetInTransfer (sv_State s)) (sv_PrevIn s)) = 0" "unat (SubUintChecked (hs_NetOutTransfer (sv_State s)) (sv_PrevOut s)) = 0"
    by simp_all
  then have "i - unat (sv_PrevIn s) = 0" "u - unat (sv_PrevOut s) = 0" using assms by (simp_all only: unat_SubUintChecked snapshots_ok.simps)
  then show ?thesis using True assms by (simp add: record_usage_def Let_def)
next
  case False
  then show ?thesis using assms by (auto simp: record_usage_def Let_def unat_SubUintChecked recorded_def)
qed

lemma pending:
  assumes "snapshots_ok (Some (i, u)) s"
  shows "unrecorded hs_NetInTransfer sv_PrevIn s = i - unat (sv_PrevIn s)" "unrecorded hs_NetOutTransfer sv_PrevOut s = u - unat (sv_PrevOut s)"
  using assms by (auto simp: unrecorded_def unat_SubUintChecked)

lemma take_state_ok:
  assumes "snapshots_ok prev s" "regular prev b (TReport now st # evs)"
  shows "snapshots_ok (Some (unat (hs_NetInTransfer st), unat (hs_NetOutTransfer st))) (take_state now st s)"
    "sv_BootTime (take_state now st s) = sv_BootTime s"
    "unrecorded hs_NetInTransfer sv_PrevIn (take_state now st s) = unrecorded hs_NetInTransfer sv_PrevIn s +
       (case map_option fst prev of None \<Rightarrow> 0 | Some p \<Rightarrow> unat (hs_NetInTransfer st) - p)"
    "unrecorded hs_NetOutTransfer sv_PrevOut (take_state now st s) = unrecorded hs_NetOutTransfer sv_PrevOut s +
       (case map_option snd prev of None \<Rightarrow> 0 | Some p \<Rightarrow> unat (hs_NetOutTransfer st) - p)"
proof -
  let ?t = "take_state now st s"
  have ok: "snapshots_ok (Some (unat (hs_NetInTransfer st), unat (hs_NetOutTransfer st))) ?t"
    using assms by (cases prev) (auto simp: take_state_def Let_def)
  show "snapshots_ok (Some (unat (hs_NetInTransfer st), unat (hs_NetOutTransfer st))) ?t" by (rule ok)
  show "sv_BootTime ?t = sv_BootTime s" by (simp add: take_state_def Let_def)
  have new: "unrecorded hs_NetInTransfer sv_PrevIn ?t = unat (hs_NetInTransfer st) - unat (sv_PrevIn ?t)"
    "unrecorded hs_NetOutTransfer sv_PrevOut ?t = unat (hs_NetOutTransfer st) - unat (sv_PrevOut ?t)"
    by (rule pending [OF ok])+
  have "unrecorded hs_NetInTransfer sv_PrevIn ?t = unrecorded hs_NetInTransfer sv_PrevIn s +
       (case map_option fst prev of None \<Rightarrow> 0 | Some p \<Rightarrow> unat (hs_NetInTransfer st) - p) \<and>
     unrecorded hs_NetOutTransfer sv_PrevOut ?t = unrecorded hs_NetOutTransfer sv_PrevOut s +
       (case map_option snd prev of None \<Rightarrow> 0 | Some p \<Rightarrow> unat (hs_NetOutTransfer st) - p)"
  proof (cases prev)
    case None
    then show ?thesis using assms new by (simp add: unrecorded_def take_state_def Let_def)
  next
    case (Some p)
    obtain i u where p: "p = (i, u)" by (cases p)
    have s: "snapshots_ok (Some (i, u)) s" using assms(1) Some p by simp
    then have same: "sv_PrevIn ?t = sv_PrevIn s" "sv_PrevOut ?t = sv_PrevOut s" by (auto simp: take_state_def Let_def)
    have "i \<le> unat (hs_NetInTransfer st)" "u \<le> unat (hs_NetOutTransfer st)" using assms(2) Some p by auto
    then show ?thesis using new s unfolding same pending [OF s] Some p by simp
  qed
  then show "unrecorded hs_NetInTransfer sv_PrevIn ?t = unrecorded hs_NetInTransfer sv_PrevIn s +
       (case map_option fst prev of None \<Rightarrow> 0 | Some p \<Rightarrow> unat (hs_NetInTransfer st) - p)"
    "unrecorded hs_NetOutTransfer sv_PrevOut ?t = unrecorded hs_NetOutTransfer sv_PrevOut s +
       (case map_option snd prev of None \<Rightarrow> 0 | Some p \<Rightarrow> unat (hs_NetOutTransfer st) - p)" by blast+
qed

lemma traffic_accounting:
  assumes "regular prev b evs" "snapshots_ok prev s" "sv_BootTime s = b" "fold traffic_step evs (s, ts) = (s', ts')"
  shows "recorded tf_In ts' + unrecorded hs_NetInTransfer sv_PrevIn s' =
      recorded tf_In ts + unrecorded hs_NetInTransfer sv_PrevIn s + traffic_of hs_NetInTransfer (map_option fst prev) evs \<and>
    recorded tf_Out ts' + unrecorded hs_NetOutTransfer sv_PrevOut s' =
      recorded tf_Out ts + unrecorded hs_NetOutTransfer sv_PrevOut s + traffic_of hs_NetOutTransfer (map_option snd prev) evs"
  using assms
proof (induction evs arbitrary: prev b s ts)
  case (Cons e evs)
  show ?case
  proof (cases e)
    case (TReport now st)
    note t = take_state_ok [OF Cons.prems(2) Cons.prems(1) [unfolded TReport]]
    have "regular (Some (unat (hs_NetInTransfer st), unat (hs_NetOutTransfer st))) b evs" using Cons.prems(1) TReport by simp
    from Cons.IH [OF this t(1)] show ?thesis using Cons.prems(3,4) t(2,3,4) TReport by simp
  next
    case (THour hour)
    then obtain i u where prev: "prev = Some (i, u)" using Cons.prems(1) by auto
    have s: "snapshots_ok (Some (i, u)) s" using Cons.prems(2) prev by simp
    obtain r t where r: "record_usage hour s = (r, t)" "recorded tf_In t = i - unat (sv_PrevIn s)" "recorded tf_Out t = u - unat (sv_PrevOut s)"
      "unat (sv_PrevIn r) = i" "unat (sv_PrevOut r) = u" "sv_State r = sv_State s" "sv_LastActive r = sv_LastActive s" "sv_BootTime r = sv_BootTime s"
      using record_usage_eq [OF s, of hour] by blast
    have ok: "snapshots_ok (Some (i, u)) r" using s r by auto
    have "fold traffic_step evs (r, ts @ t) = (s', ts')" using Cons.prems(4) THour r(1) by simp
    then have "recorded tf_In ts' + unrecorded hs_NetInTransfer sv_PrevIn s' =
        recorded tf_In (ts @ t) + unrecorded hs_NetInTransfer sv_PrevIn r + traffic_of hs_NetInTransfer (Some i) evs \<and>
      recorded tf_Out ts' + unrecorded hs_NetOutTransfer sv_PrevOut s' =
        recorded tf_Out (ts @ t) + unrecorded hs_NetOutTransfer sv_PrevOut r + traffic_of hs_NetOutTransfer (Some u) evs"
      using Cons.IH [of "Some (i, u)" b r "ts @ t"] Cons.prems(1,3) THour prev ok r(8) by simp
    then show ?thesis using r(2,3) pending [OF ok] pending [OF s] r(4,5) THour prev by simp
  next
    case (TBoot hour h)
    then obtain i u where prev: "prev = Some (i, u)" using Cons.prems(1) by auto
    have s: "snapshots_ok (Some (i, u)) s" using Cons.prems(2) prev by simp
    obtain r t where r: "record_usage hour s = (r, t)" "recorded tf_In t = i - unat (sv_PrevIn s)" "recorded tf_Out t = u - unat (sv_PrevOut s)"
      using record_usage_eq [OF s, of hour] by blast
    define q where "q = fst (take_host hour h s)"
    have boot: "sv_BootTime s < ho_BootTime h" "sv_LastActive s \<noteq> None" using Cons.prems(1,3) TBoot s by auto
    then have q: "take_host hour h s = (q, t)" "sv_PrevIn q = 0" "sv_PrevOut q = 0" "sv_BootTime q = ho_BootTime h"
      using r(1) by (simp_all add: take_host_def q_def)
    have "fold traffic_step evs (q, ts @ t) = (s', ts')" using Cons.prems(4) TBoot q(1) by simp
    then have "recorded tf_In ts' + unrecorded hs_NetInTransfer sv_PrevIn s' =
        recorded tf_In (ts @ t) + unrecorded hs_NetInTransfer sv_PrevIn q + traffic_of hs_NetInTransfer None evs \<and>
      recorded tf_Out ts' + unrecorded hs_NetOutTransfer sv_PrevOut s' =
        recorded tf_Out (ts @ t) + unrecorded hs_NetOutTransfer sv_PrevOut q + traffic_of hs_NetOutTransfer None evs"
      using Cons.IH [of None "ho_BootTime h" q "ts @ t"] Cons.prems(1) TBoot q by simp
    then show ?thesis using r(2,3) pending [OF s] q TBoot prev by (simp add: unrecorded_def)
  qed
qed simp

text \<open>C3: For an agent whose counters are not zero and do not fall within a boot, and that sends a report after each boot before
  the next hourly record, the records and what is not yet recorded add up, for each direction, to exactly the traffic the agent
  has reported, over any number of boots.\<close>

theorem traffic_is_accounted:
  assumes "regular None (sv_BootTime s) evs" and "sv_PrevIn s = 0" and "sv_PrevOut s = 0" and "traffic_run evs s = (s', ts)"
  shows "recorded tf_In ts + unrecorded hs_NetInTransfer sv_PrevIn s' = traffic_of hs_NetInTransfer None evs \<and>
    recorded tf_Out ts + unrecorded hs_NetOutTransfer sv_PrevOut s' = traffic_of hs_NetOutTransfer None evs"
  using traffic_accounting [of None "sv_BootTime s" evs s "[]" s' ts] assms
  by (simp add: traffic_run_def unrecorded_def)

definition no_growth :: "live_server \<Rightarrow> bool" where
  "no_growth s \<longleftrightarrow> hs_NetInTransfer (sv_State s) \<le> sv_PrevIn s \<and> hs_NetOutTransfer (sv_State s) \<le> sv_PrevOut s"

lemma no_growth_record: "no_growth s \<Longrightarrow> record_usage hour s = (s, [])"
  by (auto simp: record_usage_def no_growth_def SubUintChecked_def Let_def not_less dest: antisym)

text \<open>As long as one counter of an agent stays at zero, no traffic of the other direction is recorded, however much there is:
  the snapshots are taken again at every report.\<close>

lemma zero_counter_records_nothing:
  assumes "no_growth s" and "sv_PrevOut s = 0"
    and "\<forall>e \<in> set evs. case e of TReport now st \<Rightarrow> hs_NetOutTransfer st = 0 | THour hour \<Rightarrow> True | TBoot hour h \<Rightarrow> False"
  shows "snd (traffic_run evs s) = []"
proof -
  have "no_growth (fst (fold traffic_step evs (s, []))) \<and> snd (fold traffic_step evs (s, [])) = []"
    using assms
  proof (induction evs arbitrary: s)
    case (Cons e evs)
    show ?case
    proof (cases e)
      case (TReport now st)
      have z: "hs_NetOutTransfer st = 0" using Cons.prems(3) TReport by simp
      have "no_growth (take_state now st s)" "sv_PrevOut (take_state now st s) = 0"
        using Cons.prems(2) z by (simp_all add: take_state_def no_growth_def)
      then show ?thesis using Cons TReport by simp
    next
      case (THour hour)
      then show ?thesis using Cons no_growth_record [OF Cons.prems(1)] by simp
    next
      case (TBoot hour h)
      then show ?thesis using Cons.prems(3) by simp
    qed
  qed simp
  then show ?thesis by (simp add: traffic_run_def)
qed

text \<open>When the hourly record falls between the host information after a boot and the first report, the whole counters of the
  boot before are recorded, on top of what was recorded of them already, and become the snapshots, so that the traffic of the
  new boot is not recorded while its counters are below those of the boot before.\<close>

lemma record_after_boot_counts_twice:
  assumes "snapshots_ok (Some (i, u)) s" and "sv_BootTime s < ho_BootTime h"
    and "hs_NetInTransfer st \<le> hs_NetInTransfer (sv_State s)" and "hs_NetOutTransfer st \<le> hs_NetOutTransfer (sv_State s)"
  shows "recorded tf_In (snd (traffic_run [TBoot hour h, THour hour', TReport now st, THour hour''] s)) = (i - unat (sv_PrevIn s)) + i \<and>
    recorded tf_Out (snd (traffic_run [TBoot hour h, THour hour', TReport now st, THour hour''] s)) = (u - unat (sv_PrevOut s)) + u"
proof -
  obtain r t where r: "record_usage hour s = (r, t)" "recorded tf_In t = i - unat (sv_PrevIn s)" "recorded tf_Out t = u - unat (sv_PrevOut s)"
    "sv_State r = sv_State s"
    using record_usage_eq [OF assms(1), of hour] by blast
  define q where "q = fst (take_host hour h s)"
  have q: "take_host hour h s = (q, t)" "sv_PrevIn q = 0" "sv_PrevOut q = 0" "sv_State q = sv_State s"
    using r assms(1,2) by (auto simp: take_host_def q_def)
  let ?tx = "\<lparr>tf_ServerID = sv_ID q, tf_In = hs_NetInTransfer (sv_State s), tf_Out = hs_NetOutTransfer (sv_State s), tf_CreatedAt = hour'\<rparr>"
  let ?p = "q\<lparr>sv_PrevIn := hs_NetInTransfer (sv_State s), sv_PrevOut := hs_NetOutTransfer (sv_State s)\<rparr>"
  have pos: "hs_NetInTransfer (sv_State s) \<noteq> 0" "hs_NetOutTransfer (sv_State s) \<noteq> 0" using assms(1) by auto
  then have hourly: "record_usage hour' q = (?p, [?tx])" by (simp add: record_usage_def Let_def q SubUintChecked_def)
  have "no_growth (take_state now st ?p)" using assms(3,4) pos by (simp add: take_state_def no_growth_def)
  then have "snd (traffic_run [TBoot hour h, THour hour', TReport now st, THour hour''] s) = t @ [?tx]"
    using q(1) hourly by (simp add: traffic_run_def no_growth_record)
  then show ?thesis using r(2,3) assms(1) by (simp add: recorded_def)
qed

subsection \<open>What the removal keeps\<close>

text \<open>The starts of the present cycles: of the rules that cover all servers, and of the others that name a server.\<close>

definition all_starts :: "int \<Rightarrow> rule list \<Rightarrow> int set" where
  "all_starts now rs = {t. \<exists>r \<in> set rs. IsTransferDurationRule r \<and> r_Cover r = RuleCoverAll \<and> cycle_start r now = Ret t}"

definition special_starts :: "int \<Rightarrow> uint64 \<Rightarrow> rule list \<Rightarrow> int set" where
  "special_starts now k rs = {t. \<exists>r \<in> set rs. IsTransferDurationRule r \<and> r_Cover r \<noteq> RuleCoverAll \<and> k \<in> fst ` set (r_Ignore r) \<and> cycle_start r now = Ret t}"

definition earliest :: "int set \<Rightarrow> int option \<Rightarrow> bool" where
  "earliest S x \<longleftrightarrow> (case x of None \<Rightarrow> S = {} | Some t \<Rightarrow> t \<in> S \<and> (\<forall>u \<in> S. t \<le> u))"

definition keeps :: "int set \<Rightarrow> (uint64 \<Rightarrow> int set) \<Rightarrow> keep_times \<Rightarrow> bool" where
  "keeps A S a \<longleftrightarrow> earliest A (kt_all a) \<and> (\<forall>k. earliest (S k) (map_of (kt_special a) k)) \<and> gomap_ok (kt_special a) \<and>
     set (kt_ids a) = fst ` set (kt_special a)"

lemma earliest_insert:
  "earliest S x \<Longrightarrow> earliest (insert t S) (if (case x of None \<Rightarrow> True | Some u \<Rightarrow> t < u) then Some t else x)"
  by (auto simp: earliest_def split: option.splits)

lemma keep_id_keeps:
  assumes "keeps A S a"
  shows "keeps A (\<lambda>j. if j = k then insert t (S j) else S j) (keep_id t k a)"
proof -
  let ?new = "case map_of (kt_special a) k of None \<Rightarrow> True | Some u \<Rightarrow> t < u"
  have e: "earliest (insert t (S k)) (if ?new then Some t else map_of (kt_special a) k)"
    using assms by (intro earliest_insert) (simp add: keeps_def)
  show ?thesis
  proof (cases ?new)
    case True
    then show ?thesis using assms e by (simp add: keeps_def keep_id_def gomap_simps dom_update)
  next
    case False
    then show ?thesis using assms e by (auto simp: keeps_def keep_id_def)
  qed
qed

lemma keep_ids_keeps:
  "keeps A S a \<Longrightarrow> keeps A (\<lambda>j. if j \<in> set ks then insert t (S j) else S j) (fold (keep_id t) ks a)"
proof (induction ks arbitrary: S a)
  case (Cons k ks)
  have "keeps A (\<lambda>j. if j \<in> set ks then insert t (if j = k then insert t (S j) else S j) else if j = k then insert t (S j) else S j)
      (fold (keep_id t) ks (keep_id t k a))"
    using Cons.IH [OF keep_id_keeps [OF Cons.prems, of k t]] by simp
  moreover have "(\<lambda>j. if j \<in> set ks then insert t (if j = k then insert t (S j) else S j) else if j = k then insert t (S j) else S j) =
      (\<lambda>j. if j \<in> set (k # ks) then insert t (S j) else S j)" by (rule ext) auto
  ultimately show ?case by simp
qed simp

lemma keep_rules_keeps:
  assumes "go_foldM (keep_rule now) a rs = Ret b" "keeps A S a"
  shows "keeps (A \<union> all_starts now rs) (\<lambda>k. S k \<union> special_starts now k rs) b"
  using assms
proof (induction rs arbitrary: a A S)
  case Nil
  then show ?case by (simp add: all_starts_def special_starts_def)
next
  case (Cons r rs)
  obtain a1 where a1: "keep_rule now a r = Ret a1" "go_foldM (keep_rule now) a1 rs = Ret b"
    using Cons.prems(1) by (auto simp: go_bind_Ret_iff)
  have "keeps (A \<union> all_starts now [r]) (\<lambda>k. S k \<union> special_starts now k [r]) a1"
  proof (cases "IsTransferDurationRule r")
    case False
    then show ?thesis using a1(1) Cons.prems(2) by (simp add: keep_rule_def all_starts_def special_starts_def)
  next
    case True
    then obtain t where t: "cycle_start r now = Ret t" using a1(1) by (auto simp: keep_rule_def go_bind_Ret_iff)
    show ?thesis
    proof (cases "r_Cover r = RuleCoverAll")
      case all: True
      have "all_starts now [r] = {t}" "special_starts now k [r] = {}" for k using True all t by (auto simp: all_starts_def special_starts_def)
      moreover have "a1 = a\<lparr>kt_all := (if (case kt_all a of None \<Rightarrow> True | Some u \<Rightarrow> t < u) then Some t else kt_all a)\<rparr>"
        using a1(1) True all t by (auto simp: keep_rule_def)
      ultimately show ?thesis using Cons.prems(2) earliest_insert [of A "kt_all a" t] by (simp add: keeps_def)
    next
      case special: False
      have "all_starts now [r] = {}" using special by (auto simp: all_starts_def)
      moreover have "S k \<union> special_starts now k [r] = (if k \<in> set (map fst (r_Ignore r)) then insert t (S k) else S k)" for k
        using True special t by (auto simp: special_starts_def)
      moreover have "a1 = fold (keep_id t) (map fst (r_Ignore r)) a" using a1(1) True special t by (auto simp: keep_rule_def)
      ultimately show ?thesis using keep_ids_keeps [OF Cons.prems(2), of "map fst (r_Ignore r)" t] by simp
    qed
  qed
  from Cons.IH [OF a1(2) this]
  have "keeps (A \<union> all_starts now [r] \<union> all_starts now rs) (\<lambda>k. S k \<union> special_starts now k [r] \<union> special_starts now k rs) b" .
  moreover have "A \<union> all_starts now [r] \<union> all_starts now rs = A \<union> all_starts now (r # rs)" by (auto simp: all_starts_def)
  moreover have "S k \<union> special_starts now k [r] \<union> special_starts now k rs = S k \<union> special_starts now k (r # rs)" for k
    by (auto simp: special_starts_def)
  ultimately show ?case by simp
qed

lemma fold_special_filter:
  "set (drop_special m rows) =
    {r \<in> set rows. \<forall>(k, t) \<in> set m. \<not> (tf_ServerID r = k \<and> tf_CreatedAt r < t)}"
  unfolding drop_special_def by (induction m arbitrary: rows) auto

text \<open>With some rule of a transfer cycle for chosen servers, the removal keeps exactly the records of known servers that are
  not older than the start of the earliest present cycle that decides about their server: for a server that such a rule names
  the earliest of those rules, for every other server the earliest rule for all, and nothing without one.\<close>

lemma removal_exact:
  assumes "CleanMonitorHistory not_in now known alerts rows = Ret rows'"
    and "\<And>x xs. xs \<noteq> [] \<Longrightarrow> not_in x xs \<longleftrightarrow> x \<notin> set xs"
    and "\<exists>k. special_starts now k (concat (map ar_Rules alerts)) \<noteq> {}"
  shows "set rows' = {r \<in> set rows. tf_ServerID r \<in> known \<and>
    (let S = special_starts now (tf_ServerID r) (concat (map ar_Rules alerts))
     in \<exists>t \<in> (if S \<noteq> {} then S else all_starts now (concat (map ar_Rules alerts))). 
        (\<forall>u \<in> (if S \<noteq> {} then S else all_starts now (concat (map ar_Rules alerts))). t \<le> u) \<and> t \<le> tf_CreatedAt r)}"
proof -
  let ?rs = "concat (map ar_Rules alerts)"
  obtain a where a: "go_foldM (keep_rule now) \<lparr>kt_all = None, kt_special = [], kt_ids = []\<rparr> ?rs = Ret a"
    and rows': "rows' = (case kt_all a of
        None \<Rightarrow> filter (\<lambda>r. \<not> not_in (tf_ServerID r) (kt_ids a)) (drop_special (kt_special a) (filter (\<lambda>r. tf_ServerID r \<in> known) rows))
      | Some t \<Rightarrow> filter (\<lambda>r. \<not> (not_in (tf_ServerID r) (kt_ids a) \<and> tf_CreatedAt r < t)) (drop_special (kt_special a) (filter (\<lambda>r. tf_ServerID r \<in> known) rows)))"
    using assms(1) unfolding CleanMonitorHistory_def Let_def go_bind_Ret_iff go.inject by blast
  have k0: "keeps ({} \<union> all_starts now ?rs) (\<lambda>k. {} \<union> special_starts now k ?rs) a"
    by (rule keep_rules_keeps [OF a]) (simp add: keeps_def earliest_def)
  then have ks: "earliest (all_starts now ?rs) (kt_all a)" "earliest (special_starts now k ?rs) (map_of (kt_special a) k)"
    "gomap_ok (kt_special a)" "set (kt_ids a) = fst ` set (kt_special a)" for k
    by (simp_all add: keeps_def)
  have ids: "k \<in> set (kt_ids a) \<longleftrightarrow> special_starts now k ?rs \<noteq> {}" for k
  proof -
    have "k \<in> set (kt_ids a) \<longleftrightarrow> map_of (kt_special a) k \<noteq> None" unfolding ks(4) by (simp add: map_of_eq_None_iff)
    then show ?thesis using ks(2) [of k] by (auto simp: earliest_def split: option.splits)
  qed
  then have "kt_ids a \<noteq> []" using assms(3) by force
  then have ni: "not_in x (kt_ids a) \<longleftrightarrow> special_starts now x ?rs = {}" for x using assms(2) ids by simp
  have special: "r \<in> set (drop_special (kt_special a) xs) \<longleftrightarrow> r \<in> set xs \<and>
      (case map_of (kt_special a) (tf_ServerID r) of None \<Rightarrow> True | Some t \<Rightarrow> t \<le> tf_CreatedAt r)" for r xs
  proof -
    have "(\<forall>(k, t) \<in> set (kt_special a). \<not> (tf_ServerID r = k \<and> tf_CreatedAt r < t)) \<longleftrightarrow>
        (\<forall>k t. map_of (kt_special a) k = Some t \<longrightarrow> \<not> (tf_ServerID r = k \<and> tf_CreatedAt r < t))"
      unfolding gomap_ok_lookup [OF ks(3), symmetric] by (rule Ball_def [THEN trans]) simp
    then show ?thesis by (simp add: fold_special_filter not_less split: option.split)
  qed
  have "r \<in> set rows' \<longleftrightarrow> r \<in> set rows \<and> tf_ServerID r \<in> known \<and>
    (let S = special_starts now (tf_ServerID r) ?rs
     in \<exists>t \<in> (if S \<noteq> {} then S else all_starts now ?rs). (\<forall>u \<in> (if S \<noteq> {} then S else all_starts now ?rs). t \<le> u) \<and> t \<le> tf_CreatedAt r)" for r
  proof (cases "map_of (kt_special a) (tf_ServerID r)")
    case (Some t)
    have t: "t \<in> special_starts now (tf_ServerID r) ?rs" "\<forall>u \<in> special_starts now (tf_ServerID r) ?rs. t \<le> u"
      using ks(2) [of "tf_ServerID r"] Some by (simp_all add: earliest_def)
    then have ne: "special_starts now (tf_ServerID r) ?rs \<noteq> {}" by blast
    have "r \<in> set rows' \<longleftrightarrow> r \<in> set rows \<and> tf_ServerID r \<in> known \<and> t \<le> tf_CreatedAt r"
      unfolding rows' by (auto simp: special Some ni ne split: option.split)
    moreover have "t \<le> tf_CreatedAt r \<longleftrightarrow> (\<exists>t \<in> special_starts now (tf_ServerID r) ?rs. (\<forall>u \<in> special_starts now (tf_ServerID r) ?rs. t \<le> u) \<and> t \<le> tf_CreatedAt r)"
      using t by (meson order_trans)
    ultimately show ?thesis using ne by (simp add: Let_def)
  next
    case None
    have e: "special_starts now (tf_ServerID r) ?rs = {}" using ks(2) [of "tf_ServerID r"] None by (simp add: earliest_def)
    have "r \<in> set rows' \<longleftrightarrow> r \<in> set rows \<and> tf_ServerID r \<in> known \<and> (case kt_all a of None \<Rightarrow> False | Some t \<Rightarrow> t \<le> tf_CreatedAt r)"
      unfolding rows' by (auto simp: special None ni e not_less split: option.split)
    moreover have "(case kt_all a of None \<Rightarrow> False | Some t \<Rightarrow> t \<le> tf_CreatedAt r) \<longleftrightarrow>
        (\<exists>t \<in> all_starts now ?rs. (\<forall>u \<in> all_starts now ?rs. t \<le> u) \<and> t \<le> tf_CreatedAt r)"
      using ks(1) by (auto simp: earliest_def split: option.splits)
    ultimately show ?thesis using e by (simp add: Let_def)
  qed
  then show ?thesis by blast
qed

text \<open>A record an alert rule still sums up: a rule of a cycle covers the server and the cycle started before the record.\<close>

definition record_needed :: "int \<Rightarrow> alert_rule list \<Rightarrow> transfer \<Rightarrow> bool" where
  "record_needed now alerts r \<longleftrightarrow> (\<exists>u \<in> set (concat (map ar_Rules alerts)). IsTransferDurationRule u \<and>
     (if r_Cover u = RuleCoverAll then get_or False (r_Ignore u) (tf_ServerID r) = False else get_or False (r_Ignore u) (tf_ServerID r)) \<and>
     (\<exists>t. cycle_start u now = Ret t \<and> t \<le> tf_CreatedAt r))"

text \<open>The removal deletes records that are still needed: when a rule for chosen servers names a server and its cycle started
  after the record, the record goes, although a rule for all servers, whose cycle started earlier, sums it up.\<close>

lemma removal_drops_needed_record:
  assumes "CleanMonitorHistory not_in now known alerts rows = Ret rows'"
    and "\<And>x xs. xs \<noteq> [] \<Longrightarrow> not_in x xs \<longleftrightarrow> x \<notin> set xs"
    and "special_starts now (tf_ServerID r) (concat (map ar_Rules alerts)) \<noteq> {}"
    and "\<forall>t \<in> special_starts now (tf_ServerID r) (concat (map ar_Rules alerts)). tf_CreatedAt r < t"
    and "v \<in> set (concat (map ar_Rules alerts))" and "IsTransferDurationRule v" and "r_Cover v = RuleCoverAll" and "r_Ignore v = []"
    and "cycle_start v now = Ret t" and "t \<le> tf_CreatedAt r"
  shows "record_needed now alerts r \<and> r \<notin> set rows'"
proof
  show "record_needed now alerts r" unfolding record_needed_def using assms(5-10)
    by (intro bexI [of _ v]) (auto simp: get_or_def)
  have "\<exists>k. special_starts now k (concat (map ar_Rules alerts)) \<noteq> {}" using assms(3) by blast
  note exact = removal_exact [OF assms(1,2) this]
  show "r \<notin> set rows'"
  proof
    assume "r \<in> set rows'"
    then obtain t where "t \<in> special_starts now (tf_ServerID r) (concat (map ar_Rules alerts))" "t \<le> tf_CreatedAt r"
      using assms(3) eqset_imp_iff [OF exact, of r] by (simp add: Let_def) blast
    then show False using assms(4) by force
  qed
qed

subsection \<open>Witnesses\<close>

definition some_live :: live_server where
  "some_live = \<lparr>sv_ID = 1, sv_UserID = 1, sv_Name = ''a'', sv_UUID = ''u'', sv_DisplayIndex = 0, sv_HideForGuest = False,
     sv_MemTotal = 0, sv_DiskTotal = 0, sv_SwapTotal = 0, sv_State = zero_state, sv_LastActive = None, sv_Online = True, sv_PrevIn = 0, sv_PrevOut = 0, sv_BootTime = 0\<rparr>"

definition counters :: "uint64 \<Rightarrow> uint64 \<Rightarrow> host_state" where
  "counters i u = zero_state\<lparr>hs_NetInTransfer := i, hs_NetOutTransfer := u\<rparr>"

definition some_host :: "uint64 \<Rightarrow> host_info" where
  "some_host b = \<lparr>ho_MemTotal = 0, ho_DiskTotal = 0, ho_SwapTotal = 0, ho_BootTime = b\<rparr>"

theorem traffic_is_accounted_witness:
  "recorded tf_In (snd (traffic_run [TReport 1 (counters 10 20), TReport 2 (counters 15 20), THour 3, TBoot 4 (some_host 9), TReport 5 (counters 2 3), TReport 6 (counters 6 3), THour 7] some_live)) = 9"
proof -
  define evs where "evs = [TReport 1 (counters 10 20), TReport 2 (counters 15 20), THour 3, TBoot 4 (some_host 9), TReport 5 (counters 2 3), TReport 6 (counters 6 3), THour 7]"
  obtain s' ts where run: "traffic_run evs some_live = (s', ts)" by (cases "traffic_run evs some_live")
  have "regular None (sv_BootTime some_live) evs" by (simp add: evs_def counters_def zero_state_def some_live_def some_host_def)
  then have acc: "recorded tf_In ts + unrecorded hs_NetInTransfer sv_PrevIn s' = traffic_of hs_NetInTransfer None evs"
    using traffic_is_accounted [OF _ _ _ run] by (simp add: some_live_def)
  have "unrecorded hs_NetInTransfer sv_PrevIn s' = 0" using run
    by (auto simp: evs_def traffic_run_def take_state_def record_usage_def take_host_def counters_def zero_state_def some_live_def some_host_def
        SubUintChecked_def Let_def unrecorded_def)
  moreover have "traffic_of hs_NetInTransfer None evs = 9" by (simp add: evs_def counters_def zero_state_def)
  ultimately show ?thesis using acc run by (simp add: evs_def)
qed

lemma zero_counter_records_nothing_witness:
  "snd (traffic_run [TReport 1 (counters 10 0), THour 2, TReport 3 (counters 5000 0), THour 4] some_live) = []"
  by (rule zero_counter_records_nothing) (simp_all add: no_growth_def some_live_def zero_state_def counters_def)

lemma record_after_boot_counts_twice_witness:
  "recorded tf_In (snd (traffic_run [TBoot 1 (some_host 9), THour 2, TReport 3 (counters 4 4), THour 4]
     (some_live\<lparr>sv_State := counters 50 60, sv_LastActive := Some 0, sv_PrevIn := 30, sv_PrevOut := 60\<rparr>))) = 70"
  using record_after_boot_counts_twice [of 50 60 "some_live\<lparr>sv_State := counters 50 60, sv_LastActive := Some 0, sv_PrevIn := 30, sv_PrevOut := 60\<rparr>"
      "some_host 9" "counters 4 4" 1 2 3 4]
  by (simp add: some_live_def some_host_def counters_def zero_state_def)

definition some_cycle :: "uint64 \<Rightarrow> uint64 \<Rightarrow> (uint64, bool) gomap \<Rightarrow> rule" where
  "some_cycle interval cover ign = \<lparr>r_Type = ''transfer_in_cycle'', r_Min = 0, r_Max = 1, r_CycleStart = Some 0, r_Zone = 0, r_CycleInterval = interval,
     r_CycleUnit = ''hour'', r_Duration = 0, r_Cover = cover, r_Ignore = ign, r_NextTransferAt = [], r_LastCycleStatus = []\<rparr>"

definition some_alert :: "rule list \<Rightarrow> alert_rule" where
  "some_alert rs = \<lparr>ar_ID = 1, ar_UserID = 1, ar_Name = ''a'', ar_Enable = Some True, ar_TriggerMode = 0, ar_NotificationGroupID = 0, ar_Rules = rs,
     ar_FailTriggerTasks = [], ar_RecoverTriggerTasks = []\<rparr>"

lemma some_cycle_start: "cycle_start (some_cycle 24 c m) 9000000000000 = Ret 0" "cycle_start (some_cycle 1 c m) 9000000000000 = Ret 7200000000000"
  by (simp_all add: cycle_start_def some_cycle_def GetTransferDurationStart_def transfer_window_def cycle_step_def ToLower_def lower_char_def
      Alert_Time.second_def unix_seconds_def go_div_def Let_def)

lemma some_cycle_rule: "IsTransferDurationRule (some_cycle i c m)"
  by (simp add: IsTransferDurationRule_def some_cycle_def HasSuffix_def)

lemma removal_drops_needed_record_witness:
  "\<exists>rows'. CleanMonitorHistory (\<lambda>x xs. x \<notin> set xs) 9000000000000 {1} [some_alert [some_cycle 24 0 [], some_cycle 1 1 [(1, True)]]]
       [\<lparr>tf_ServerID = 1, tf_In = 5, tf_Out = 5, tf_CreatedAt = 3600000000000\<rparr>] = Ret rows' \<and>
     record_needed 9000000000000 [some_alert [some_cycle 24 0 [], some_cycle 1 1 [(1, True)]]] \<lparr>tf_ServerID = 1, tf_In = 5, tf_Out = 5, tf_CreatedAt = 3600000000000\<rparr> \<and> rows' = []"
proof -
  let ?al = "[some_alert [some_cycle 24 0 [], some_cycle 1 1 [(1, True)]]]" and ?r = "\<lparr>tf_ServerID = 1, tf_In = 5, tf_Out = 5, tf_CreatedAt = 3600000000000\<rparr>"
  have cover: "r_Cover (some_cycle i c m) = c" "r_Ignore (some_cycle i c m) = m" for i c m by (simp_all add: some_cycle_def)
  obtain rows' where rows': "CleanMonitorHistory (\<lambda>x xs. x \<notin> set xs) 9000000000000 {1} ?al [?r] = Ret rows'" "set rows' \<subseteq> {?r}"
    by (auto simp: CleanMonitorHistory_def some_alert_def keep_rule_def some_cycle_rule some_cycle_start
        cover RuleCoverAll_def keep_id_def drop_special_def)
  have sp: "special_starts 9000000000000 1 [some_cycle 24 0 [], some_cycle 1 1 [(1, True)]] = {7200000000000}"
    by (auto simp: special_starts_def some_alert_def some_cycle_rule some_cycle_start cover RuleCoverAll_def)
  have "record_needed 9000000000000 ?al ?r \<and> ?r \<notin> set rows'"
    by (rule removal_drops_needed_record [OF rows'(1), where v = "some_cycle 24 0 []" and t = 0])
      (simp_all add: sp some_cycle_rule some_cycle_start cover RuleCoverAll_def some_alert_def)
  moreover then have "set rows' = {}" using subset_singletonD [OF rows'(2)] by (metis singletonI)
  ultimately show ?thesis using rows'(1) by simp
qed

end
