(* ===== verification/Agent_Auth.thy ===== *)
theory Agent_Auth
  imports Server_Search Cron_Tasks Waf
begin

text \<open>
  Users, their agent secrets (\<open>service/singleton/user.go\<close>, \<open>cmd/dashboard/controller/user.go\<close>) and the
  authentication of agents (\<open>Check\<close> in \<open>service/rpc/auth.go\<close>), which registers their servers.

  The random generator, the database and the parser of UUIDs are outside: their answers are arguments.
\<close>

subsection \<open>Users and secrets\<close>

record user_info =
  ui_Role :: uint8
  ui_AgentSecret :: string

record user_maps =
  um_info :: "(uint64, user_info) gomap"
  um_secret :: "(string, uint64) gomap"

definition set_user :: "uint64 \<Rightarrow> uint8 \<Rightarrow> string \<Rightarrow> user_maps \<Rightarrow> user_maps" where
  "set_user k role secret m = m\<lparr>um_info := AList.update k \<lparr>ui_Role = role, ui_AgentSecret = secret\<rparr> (um_info m),
     um_secret := AList.update secret k (um_secret m)\<rparr>"

text \<open>\<open>gen\<close> is the secret generated for a user without one, \<open>saved\<close> whether the database takes it: otherwise the program panics.\<close>

definition init_user1 :: "(uint64 \<Rightarrow> string) \<Rightarrow> (uint64 \<Rightarrow> bool) \<Rightarrow> user_maps \<Rightarrow> user \<Rightarrow> user_maps go" where
  "init_user1 gen saved m u = (if u_AgentSecret u = [] \<and> \<not> saved (u_ID u) then Panic
     else Ret (set_user (u_ID u) (u_Role u) (if u_AgentSecret u = [] then gen (u_ID u) else u_AgentSecret u) m))"

definition initUser :: "string \<Rightarrow> (uint64 \<Rightarrow> string) \<Rightarrow> (uint64 \<Rightarrow> bool) \<Rightarrow> user list \<Rightarrow> user_maps go" where
  "initUser conf_secret gen saved users =
     go_foldM (init_user1 gen saved) (set_user 0 RoleAdmin conf_secret \<lparr>um_info = [], um_secret = []\<rparr>) users"

definition OnUserUpdate :: "user option \<Rightarrow> user_maps \<Rightarrow> user_maps" where
  "OnUserUpdate u m = (case u of None \<Rightarrow> m | Some u \<Rightarrow> set_user (u_ID u) (u_Role u) (u_AgentSecret u) m)"

definition forget_user :: "uint64 \<Rightarrow> user_maps \<Rightarrow> user_maps" where
  "forget_user k m = m\<lparr>um_secret := AList.delete (case map_of (um_info m) k of None \<Rightarrow> [] | Some i \<Rightarrow> ui_AgentSecret i) (um_secret m),
     um_info := AList.delete k (um_info m)\<rparr>"

subsection \<open>Deleting users\<close>

record dash_state =
  ds_users :: user_maps
  ds_crons :: cron_class
  ds_servers :: server_class

text \<open>Rows deleted in a committed transaction, and entries taken out of the statistics of the alerts.\<close>

datatype user_event = CronRows "uint64 list" | ServerAndGroupRows "uint64 list" | UserTransferRows "uint64 list" | UserRows "uint64 list" | UserAlertStats uint64

definition delete_user1 :: "(uint64 \<Rightarrow> bool) \<Rightarrow> uint64 list \<Rightarrow> reg_server list \<Rightarrow> cron_task list \<Rightarrow> uint64 \<Rightarrow> dash_state \<Rightarrow>
    dash_state \<times> user_event list \<times> go_error go" where
  "delete_user1 commits ids slist clist uid d =
     (let crons = FindByUserID cr_ID cr_UserID clist uid; servers = FindByUserID sv_ID sv_UserID slist uid;
          rows = (if crons \<noteq> [] then [CronRows crons] else []) @ (if servers \<noteq> [] then [ServerAndGroupRows servers] else []) @
            [UserTransferRows servers, UserRows ids]
      in if \<not> commits uid then (d, [], Ret (Some ''database error''))
         else let d1 = (if crons \<noteq> [] then d\<lparr>ds_crons := Cron_Delete crons (ds_crons d)\<rparr> else d)
           in if servers \<noteq> [] then (case Server_Delete servers (ds_servers d1) of
                  (c, Ret _) \<Rightarrow> (d1\<lparr>ds_servers := c, ds_users := forget_user uid (ds_users d1)\<rparr>, rows @ map UserAlertStats servers, Ret None)
                | (c, Panic) \<Rightarrow> (d1\<lparr>ds_servers := c\<rparr>, rows @ map UserAlertStats servers, Panic)
                | (c, Hang) \<Rightarrow> (d1\<lparr>ds_servers := c\<rparr>, rows @ map UserAlertStats servers, Hang))
              else (d1\<lparr>ds_users := forget_user uid (ds_users d1)\<rparr>, rows, Ret None))"

fun delete_users :: "(uint64 \<Rightarrow> bool) \<Rightarrow> uint64 list \<Rightarrow> reg_server list \<Rightarrow> cron_task list \<Rightarrow> uint64 list \<Rightarrow> dash_state \<Rightarrow>
    dash_state \<times> user_event list \<times> go_error go" where
  "delete_users commits ids slist clist [] d = (d, [], Ret None)" |
  "delete_users commits ids slist clist (uid # uids) d =
     (case delete_user1 commits ids slist clist uid d of
        (d1, ev, Ret None) \<Rightarrow> (let (d2, ev2, out) = delete_users commits ids slist clist uids d1 in (d2, ev @ ev2, out))
      | (d1, ev, out) \<Rightarrow> (d1, ev, out))"

text \<open>The lists of servers and tasks are read once, before the first user is deleted.\<close>

definition OnUserDelete :: "(uint64 \<Rightarrow> bool) \<Rightarrow> uint64 list \<Rightarrow> dash_state \<Rightarrow> dash_state \<times> user_event list \<times> go_error go" where
  "OnUserDelete commits ids d = (if length ids < 1 then (d, [], Ret (Some ''user id not specified''))
     else delete_users commits ids (sr_sortedList (ds_servers d)) (cc_sortedList (ds_crons d)) ids d)"

subsection \<open>The authentication of an agent\<close>

fun go_fields :: "string \<Rightarrow> string \<Rightarrow> string list" where
  "go_fields cur [] = (if cur = [] then [] else [cur])" |
  "go_fields cur (c # s) = (if go_space c then (if cur = [] then go_fields [] s else cur # go_fields [] s) else go_fields (cur @ [c]) s)"

fun join_space :: "string list \<Rightarrow> string" where
  "join_space [] = []" | "join_space [w] = w" | "join_space (w # v # ws) = w @ '' '' @ join_space (v # ws)"

definition normalizeClientName :: "string \<Rightarrow> string" where
  "normalizeClientName s = (let t = TrimSpace s in if t = [] then [] else take 128 (join_space (go_fields [] t)))"

type_synonym metadata = "(string, string list) gomap"

text \<open>The first value of a key that has one.\<close>

definition md_first :: "metadata \<Rightarrow> string \<Rightarrow> string option" where
  "md_first md k = (case map_of md k of Some (v # vs) \<Rightarrow> Some v | _ \<Rightarrow> None)"

text \<open>\<open>value[0]\<close> of a key that is there: an empty list of values panics.\<close>

definition md_index :: "metadata \<Rightarrow> string \<Rightarrow> string go" where
  "md_index md k = (case map_of md k of None \<Rightarrow> Ret [] | Some [] \<Rightarrow> Panic | Some (v # vs) \<Rightarrow> Ret v)"

definition is_idx :: "metadata \<Rightarrow> bool" where
  "is_idx md = (case md_first md ''x-idx'' of None \<Rightarrow> False
     | Some v \<Rightarrow> ToLower (TrimSpace v) \<in> {''1'', ''true'', ''yes'', ''y'', ''on''})"

record check_world =
  cw_parse :: ip_parser
  cw_now :: int
  cw_uuid_ok :: "string \<Rightarrow> bool"
  cw_petname :: string
  cw_create :: "string + uint64"
  cw_rename :: go_error
  cw_dns :: string
  cw_ddns :: ddns_class

record check_state =
  ck_users :: user_maps
  ck_waf :: waf_db
  ck_servers :: server_class
  ck_updates :: "ddns_update list"

definition put_server :: "check_world \<Rightarrow> reg_server \<Rightarrow> string \<Rightarrow> check_state \<Rightarrow> check_state \<times> unit go" where
  "put_server w s uuid c = (case Server_Update (cw_dns w) (cw_ddns w) s uuid (ck_servers c) of
       (sc, Ret us) \<Rightarrow> (c\<lparr>ck_servers := sc, ck_updates := ck_updates c @ us\<rparr>, Ret ())
     | (sc, Panic) \<Rightarrow> (c\<lparr>ck_servers := sc\<rparr>, Panic) | (sc, Hang) \<Rightarrow> (c\<lparr>ck_servers := sc\<rparr>, Hang))"

text \<open>The record a new agent gets in the database.\<close>

definition new_server :: "uint64 \<Rightarrow> string \<Rightarrow> string \<Rightarrow> uint64 \<Rightarrow> reg_server" where
  "new_server uid name uuid k = InitServer \<lparr>sv_ID = k, sv_UserID = uid, sv_Name = name, sv_UUID = uuid, sv_DisplayIndex = 0, sv_HideForGuest = False,
     sv_MemTotal = 0, sv_DiskTotal = 0, sv_SwapTotal = 0, sv_State = zero_state, sv_LastActive = None, sv_Online = False, sv_PrevIn = 0, sv_PrevOut = 0,
     sv_EnableDDNS = False, sv_DDNSProfiles = [], sv_OverrideDDNSDomains = [], sv_GeoIP = None, sv_RuntimeIDX = False,
     sv_RuntimeWorkspaceSlug = [], sv_WorkstationGCP = None\<rparr>"

text \<open>The end of \<open>Check\<close>: the metadata of the running server.\<close>

definition attach_metadata :: "check_world \<Rightarrow> metadata \<Rightarrow> uint64 \<Rightarrow> check_state \<Rightarrow> check_state \<times> (string + uint64) go" where
  "attach_metadata w md k c = (case Server_Get k (ck_servers c) of
       Ret None \<Rightarrow> (c, Ret (Inr k))
     | Ret (Some s) \<Rightarrow>
         (let slug = (case md_first md ''x-workspace-slug'' of None \<Rightarrow> [] | Some v \<Rightarrow> normalizeClientName v);
              ws = (case md_first md ''gcp_workstation'' of None \<Rightarrow> ''<missing>'' | Some v \<Rightarrow> TrimSpace v);
              s1 = s\<lparr>sv_RuntimeIDX := is_idx md, sv_RuntimeWorkspaceSlug := slug,
                     sv_WorkstationGCP := (if TrimSpace ws \<noteq> [] \<and> TrimSpace ws \<noteq> ''<missing>'' then Some (TrimSpace ws) else sv_WorkstationGCP s)\<rparr>
          in case put_server w s1 [] c of (c1, Ret _) \<Rightarrow> (c1, Ret (Inr k)) | (c1, Panic) \<Rightarrow> (c1, Panic) | (c1, Hang) \<Rightarrow> (c1, Hang))
     | Panic \<Rightarrow> (c, Panic) | Hang \<Rightarrow> (c, Hang))"

text \<open>The middle of \<open>Check\<close>: find the server of the UUID, or register it.\<close>

definition find_or_register :: "check_world \<Rightarrow> metadata \<Rightarrow> uint64 \<Rightarrow> string \<Rightarrow> check_state \<Rightarrow> check_state \<times> (string + uint64) go" where
  "find_or_register w md uid uuid c =
     (let name = (case md_first md ''client_name'' of None \<Rightarrow> [] | Some v \<Rightarrow> normalizeClientName v)
      in case UUIDToID uuid (ck_servers c) of
        Ret None \<Rightarrow> (case cw_create w of Inl e \<Rightarrow> (c, Ret (Inl e))
          | Inr k \<Rightarrow> (case put_server w (new_server uid (if name \<noteq> [] then name else cw_petname w) uuid k) uuid c of
                (c1, Ret _) \<Rightarrow> attach_metadata w md k c1 | (c1, Panic) \<Rightarrow> (c1, Panic) | (c1, Hang) \<Rightarrow> (c1, Hang)))
      | Ret (Some k) \<Rightarrow> (if name \<noteq> [] then (case Server_Get k (ck_servers c) of
              Ret (Some s) \<Rightarrow> (if sv_Name s = [] then (case cw_rename w of Some e \<Rightarrow> (c, Ret (Inl e))
                  | None \<Rightarrow> (case put_server w (s\<lparr>sv_Name := name\<rparr>) [] c of
                        (c1, Ret _) \<Rightarrow> attach_metadata w md k c1 | (c1, Panic) \<Rightarrow> (c1, Panic) | (c1, Hang) \<Rightarrow> (c1, Hang)))
                else attach_metadata w md k c)
            | Ret None \<Rightarrow> attach_metadata w md k c | Panic \<Rightarrow> (c, Panic) | Hang \<Rightarrow> (c, Hang))
          else attach_metadata w md k c)
      | Panic \<Rightarrow> (c, Panic) | Hang \<Rightarrow> (c, Hang))"

definition auth_failed :: string where
  "auth_failed = ''agent authentication failed''"

definition Check_agent :: "check_world \<Rightarrow> string \<Rightarrow> metadata option \<Rightarrow> check_state \<Rightarrow> check_state \<times> (string + uint64) go" where
  "Check_agent w ip omd c = (case omd of None \<Rightarrow> (c, Ret (Inl ''no metadata''))
     | Some md \<Rightarrow> (case md_index md ''client_secret'' of Panic \<Rightarrow> (c, Panic) | Hang \<Rightarrow> (c, Hang)
       | Ret raw \<Rightarrow> let secret = TrimSpace raw in
         if secret = [] then (c, Ret (Inl auth_failed))
         else (case map_of (um_secret (ck_users c)) secret of
             None \<Rightarrow> (c\<lparr>ck_waf := snd (BlockIP (cw_parse w) (ck_waf c) None None (cw_now w) ip WAFBlockReasonTypeAgentAuthFail BlockIDgRPC)\<rparr>, Ret (Inl auth_failed))
           | Some uid \<Rightarrow>
               let c1 = c\<lparr>ck_waf := snd (UnblockIP (cw_parse w) (ck_waf c) None ip BlockIDgRPC)\<rparr>
               in (case md_index md ''client_uuid'' of Panic \<Rightarrow> (c1, Panic) | Hang \<Rightarrow> (c1, Hang)
                 | Ret uuid \<Rightarrow> if \<not> cw_uuid_ok w uuid then (c1, Ret (Inl ''invalid client UUID'')) else find_or_register w md uid uuid c1))))"

subsection \<open>Secrets and users belong together\<close>

definition secrets_exact :: "user_maps \<Rightarrow> bool" where
  "secrets_exact m \<longleftrightarrow> (\<forall>secret k. map_of (um_secret m) secret = Some k \<longleftrightarrow> (\<exists>i. map_of (um_info m) k = Some i \<and> ui_AgentSecret i = secret))"

text \<open>A user keeps the secret, and a new one gets a secret of its own: what the handlers and the generator ensure.\<close>

definition secret_free :: "uint64 \<Rightarrow> string \<Rightarrow> user_maps \<Rightarrow> bool" where
  "secret_free k secret m \<longleftrightarrow> (case map_of (um_info m) k of Some i \<Rightarrow> ui_AgentSecret i = secret | None \<Rightarrow> map_of (um_secret m) secret = None)"

lemma secrets_exactD: "secrets_exact m \<Longrightarrow> map_of (um_secret m) secret = Some k \<longleftrightarrow> (\<exists>i. map_of (um_info m) k = Some i \<and> ui_AgentSecret i = secret)"
  by (simp add: secrets_exact_def)

lemma set_user_exact:
  assumes ok: "secrets_exact m" and free: "secret_free k secret m"
  shows "secrets_exact (set_user k role secret m)"
  unfolding secrets_exact_def
proof (intro allI)
  fix z j
  show "map_of (um_secret (set_user k role secret m)) z = Some j \<longleftrightarrow>
      (\<exists>i. map_of (um_info (set_user k role secret m)) j = Some i \<and> ui_AgentSecret i = z)"
  proof (cases "j = k")
    case True
    have "map_of (um_secret m) z = Some k \<Longrightarrow> z = secret"
      using free secrets_exactD [OF ok, of z k] by (auto simp: secret_free_def split: option.splits)
    then show ?thesis using True by (auto simp: set_user_def gomap_simps)
  next
    case False
    have "map_of (um_secret m) secret \<noteq> Some j"
      using free secrets_exactD [OF ok, of secret k] False by (auto simp: secret_free_def split: option.splits)
    then show ?thesis using False secrets_exactD [OF ok, of z j] secrets_exactD [OF ok, of secret j] by (auto simp: set_user_def gomap_simps)
  qed
qed

lemma forget_user_exact:
  assumes ok: "secrets_exact m" and known: "map_of (um_info m) k \<noteq> None"
  shows "secrets_exact (forget_user k m)"
proof -
  obtain i where i: "map_of (um_info m) k = Some i" using known by auto
  then have own: "map_of (um_secret m) (ui_AgentSecret i) = Some k" using secrets_exactD [OF ok] by blast
  show ?thesis unfolding secrets_exact_def
  proof (intro allI)
    fix z j
    show "map_of (um_secret (forget_user k m)) z = Some j \<longleftrightarrow> (\<exists>i. map_of (um_info (forget_user k m)) j = Some i \<and> ui_AgentSecret i = z)"
      using i own secrets_exactD [OF ok, of z j] secrets_exactD [OF ok, of z k] by (auto simp: forget_user_def gomap_simps)
  qed
qed

inductive users_reach :: "user_maps \<Rightarrow> bool" where
  users_start: "conf \<noteq> [] \<Longrightarrow> users_reach (set_user 0 RoleAdmin conf \<lparr>um_info = [], um_secret = []\<rparr>)"
| users_load: "users_reach m \<Longrightarrow> secret_free (u_ID u) (if u_AgentSecret u = [] then gen (u_ID u) else u_AgentSecret u) m \<Longrightarrow>
    init_user1 gen saved m u = Ret m' \<Longrightarrow> users_reach m'"
| users_update: "users_reach m \<Longrightarrow> secret_free (u_ID u) (u_AgentSecret u) m \<Longrightarrow> users_reach (OnUserUpdate (Some u) m)"
| users_delete: "users_reach m \<Longrightarrow> map_of (um_info m) k \<noteq> None \<Longrightarrow> users_reach (forget_user k m)"

lemma users_reach_exact: "users_reach m \<Longrightarrow> secrets_exact m"
proof (induction rule: users_reach.induct)
  case (users_start conf)
  then show ?case by (intro set_user_exact) (simp_all add: secrets_exact_def secret_free_def)
next
  case (users_load m u gen saved m')
  then show ?case using set_user_exact by (auto simp: init_user1_def split: if_splits)
next
  case (users_update m u)
  then show ?case by (simp add: OnUserUpdate_def set_user_exact)
next
  case (users_delete m k)
  then show ?case by (intro forget_user_exact)
qed

subsection \<open>Deleting users\<close>

definition synced :: "dash_state \<Rightarrow> bool" where
  "synced d \<longleftrightarrow> \<not> sr_stuck (ds_servers d) \<and> srv_reg.keyed (ds_servers d) \<and> cron_reg.keyed (ds_crons d)"

text \<open>Between the users: what the lists read at the start still say of the users to come.\<close>

definition lists_fit :: "reg_server list \<Rightarrow> cron_task list \<Rightarrow> uint64 list \<Rightarrow> dash_state \<Rightarrow> bool" where
  "lists_fit slist clist uids d \<longleftrightarrow> \<not> sr_stuck (ds_servers d) \<and> distinct (map sv_ID slist) \<and> distinct (map cr_ID clist) \<and>
     (\<forall>k s. map_of (sr_list (ds_servers d)) k = Some s \<longrightarrow> s \<in> set slist \<and> sv_ID s = k) \<and>
     (\<forall>k t. map_of (cc_list (ds_crons d)) k = Some t \<longrightarrow> t \<in> set clist \<and> cr_ID t = k) \<and>
     (\<forall>s \<in> set slist. sv_UserID s \<in> set uids \<longrightarrow> map_of (sr_list (ds_servers d)) (sv_ID s) = Some s)"

lemma set_FindByUserID: "k \<in> set (FindByUserID getID getUserID s uid) \<longleftrightarrow> (\<exists>v \<in> set s. getUserID v = uid \<and> getID v = k)"
  by (auto simp: FindByUserID_def)

lemma distinct_FindByUserID: "distinct (map getID s) \<Longrightarrow> distinct (FindByUserID getID getUserID s uid)"
  by (simp add: FindByUserID_def distinct_map_filter)

lemma FindByUserID_empty: "FindByUserID getID getUserID s uid = [] \<longleftrightarrow> (\<forall>v \<in> set s. getUserID v \<noteq> uid)"
  by (auto simp: FindByUserID_def filter_empty_conv)

lemma delete_user1_ok:
  assumes fit: "lists_fit slist clist (uid # uids) d" and c: "commits uid" and new: "uid \<notin> set uids"
  shows "\<exists>d1 ev. delete_user1 commits ids slist clist uid d = (d1, ev, Ret None) \<and> lists_fit slist clist uids d1 \<and>
    ds_users d1 = forget_user uid (ds_users d) \<and>
    (\<forall>k s. map_of (sr_list (ds_servers d1)) k = Some s \<longleftrightarrow> map_of (sr_list (ds_servers d)) k = Some s \<and> sv_UserID s \<noteq> uid) \<and>
    (\<forall>k t. map_of (cc_list (ds_crons d1)) k = Some t \<longleftrightarrow> map_of (cc_list (ds_crons d)) k = Some t \<and> cr_UserID t \<noteq> uid)"
proof -
  let ?S = "ds_servers d" and ?C = "ds_crons d"
  define servers where "servers = FindByUserID sv_ID sv_UserID slist uid"
  define crons where "crons = FindByUserID cr_ID cr_UserID clist uid"
  have fitD: "\<not> sr_stuck ?S" "distinct (map sv_ID slist)" "distinct (map cr_ID clist)"
    "\<And>k s. map_of (sr_list ?S) k = Some s \<Longrightarrow> s \<in> set slist \<and> sv_ID s = k"
    "\<And>k t. map_of (cc_list ?C) k = Some t \<Longrightarrow> t \<in> set clist \<and> cr_ID t = k"
    "\<And>s. s \<in> set slist \<Longrightarrow> sv_UserID s \<in> set (uid # uids) \<Longrightarrow> map_of (sr_list ?S) (sv_ID s) = Some s"
    using fit unfolding lists_fit_def by blast+
  have sub: "set servers \<subseteq> dom (map_of (sr_list ?S))"
    using fitD(6) by (auto simp: servers_def set_FindByUserID)
  have in_s: "k \<in> set servers \<longleftrightarrow> sv_UserID s = uid" if "map_of (sr_list ?S) k = Some s" for k s
  proof
    assume "k \<in> set servers"
    then obtain v where v: "v \<in> set slist" "sv_UserID v = uid" "sv_ID v = k" by (auto simp: servers_def set_FindByUserID)
    then have "map_of (sr_list ?S) k = Some v" using fitD(6) [of v] by simp
    then show "sv_UserID s = uid" using that v by simp
  next
    assume "sv_UserID s = uid"
    then show "k \<in> set servers" using fitD(4) [OF that] by (auto simp: servers_def set_FindByUserID)
  qed
  have in_c: "k \<in> set crons \<longleftrightarrow> cr_UserID t = uid" if t: "map_of (cc_list ?C) k = Some t" for k t
  proof
    assume "k \<in> set crons"
    then obtain v where v: "v \<in> set clist" "cr_UserID v = uid" "cr_ID v = k" by (auto simp: crons_def set_FindByUserID)
    then have "v = t" using fitD(3) fitD(5) [OF t] by (auto simp: distinct_map inj_on_def)
    then show "cr_UserID t = uid" using v by simp
  next
    assume "cr_UserID t = uid"
    then show "k \<in> set crons" using fitD(5) [OF t] by (auto simp: crons_def set_FindByUserID)
  qed
  define C1 where "C1 = (if crons \<noteq> [] then Cron_Delete crons ?C else ?C)"
  define S1 where "S1 = (if servers \<noteq> [] then fst (Server_Delete servers ?S) else ?S)"
  have del: "Server_Delete servers ?S = (fst (Server_Delete servers ?S), Ret ())"
    using Server_Delete_total [OF fitD(1) _ sub] distinct_FindByUserID [OF fitD(2)] by (simp add: servers_def)
  have S1: "map_of (sr_list S1) k = (if k \<in> set servers then None else map_of (sr_list ?S) k)" "\<not> sr_stuck S1" for k
    using Server_Delete_Ret [OF del] fitD(1) by (auto simp: S1_def gomap_simps)
  have C1: "map_of (cc_list C1) k = (if k \<in> set crons then None else map_of (cc_list ?C) k)" for k
    by (auto simp: C1_def gomap_simps)
  let ?d = "d\<lparr>ds_crons := C1, ds_servers := S1, ds_users := forget_user uid (ds_users d)\<rparr>"
  obtain c1 where c1: "Server_Delete servers ?S = (c1, Ret ())" using del by blast
  have run: "\<exists>ev. delete_user1 commits ids slist clist uid d = (?d, ev, Ret None)"
    unfolding delete_user1_def Let_def servers_def [symmetric] crons_def [symmetric]
    by (cases "crons = []"; cases "servers = []") (simp_all add: c c1 C1_def S1_def)
  have look_s: "map_of (sr_list S1) k = Some s \<longleftrightarrow> map_of (sr_list ?S) k = Some s \<and> sv_UserID s \<noteq> uid" for k s
    using in_s [of k] by (auto simp: S1)
  have look_c: "map_of (cc_list C1) k = Some t \<longleftrightarrow> map_of (cc_list ?C) k = Some t \<and> cr_UserID t \<noteq> uid" for k t
    using in_c [of k] by (auto simp: C1)
  have "lists_fit slist clist uids ?d"
    unfolding lists_fit_def using fitD S1(2) new by (simp add: look_s look_c) blast
  then show ?thesis using run look_s look_c by auto
qed

lemma delete_users_ok:
  assumes "lists_fit slist clist uids d" "\<forall>u \<in> set uids. commits u" "distinct uids"
  shows "\<exists>d1 ev. delete_users commits ids slist clist uids d = (d1, ev, Ret None) \<and> \<not> sr_stuck (ds_servers d1) \<and>
    ds_users d1 = fold forget_user uids (ds_users d) \<and>
    (\<forall>k s. map_of (sr_list (ds_servers d1)) k = Some s \<longleftrightarrow> map_of (sr_list (ds_servers d)) k = Some s \<and> sv_UserID s \<notin> set uids) \<and>
    (\<forall>k t. map_of (cc_list (ds_crons d1)) k = Some t \<longleftrightarrow> map_of (cc_list (ds_crons d)) k = Some t \<and> cr_UserID t \<notin> set uids)"
  using assms
proof (induction uids arbitrary: d)
  case (Cons uid uids)
  obtain d1 ev where d1: "delete_user1 commits ids slist clist uid d = (d1, ev, Ret None)" "lists_fit slist clist uids d1"
    "ds_users d1 = forget_user uid (ds_users d)"
    "\<And>k s. map_of (sr_list (ds_servers d1)) k = Some s \<longleftrightarrow> map_of (sr_list (ds_servers d)) k = Some s \<and> sv_UserID s \<noteq> uid"
    "\<And>k t. map_of (cc_list (ds_crons d1)) k = Some t \<longleftrightarrow> map_of (cc_list (ds_crons d)) k = Some t \<and> cr_UserID t \<noteq> uid"
    using delete_user1_ok [of slist clist uid uids d commits ids] Cons.prems by auto
  obtain d2 ev2 where d2: "delete_users commits ids slist clist uids d1 = (d2, ev2, Ret None)" "\<not> sr_stuck (ds_servers d2)"
    "ds_users d2 = fold forget_user uids (ds_users d1)"
    "\<And>k s. map_of (sr_list (ds_servers d2)) k = Some s \<longleftrightarrow> map_of (sr_list (ds_servers d1)) k = Some s \<and> sv_UserID s \<notin> set uids"
    "\<And>k t. map_of (cc_list (ds_crons d2)) k = Some t \<longleftrightarrow> map_of (cc_list (ds_crons d1)) k = Some t \<and> cr_UserID t \<notin> set uids"
    using Cons.IH [OF d1(2)] Cons.prems(2,3) by auto
  have "delete_users commits ids slist clist (uid # uids) d = (d2, ev @ ev2, Ret None)" by (simp add: d1(1) d2(1))
  then show ?case using d2(2,3) d1(3) by (auto simp: d2(4,5) d1(4,5))
qed (auto simp: lists_fit_def)

lemma lists_fit_start:
  assumes "synced d"
  shows "lists_fit (sr_sortedList (ds_servers d)) (cc_sortedList (ds_crons d)) uids d"
proof -
  have s: "srv_reg.keyed (ds_servers d)" "\<not> sr_stuck (ds_servers d)" and c: "cron_reg.keyed (ds_crons d)"
    using assms by (simp_all add: synced_def)
  have ms: "v \<in> set (sr_sortedList (ds_servers d)) \<longleftrightarrow> (\<exists>k. map_of (sr_list (ds_servers d)) k = Some v)" for v
    using srv_reg.view_members s(1) unfolding srv_reg.keyed_def by blast
  have mc: "v \<in> set (cc_sortedList (ds_crons d)) \<longleftrightarrow> (\<exists>k. map_of (cc_list (ds_crons d)) k = Some v)" for v
    using cron_reg.view_members c unfolding cron_reg.keyed_def by blast
  have ids: "map_of (sr_list (ds_servers d)) k = Some v \<Longrightarrow> sv_ID v = k" "map_of (cc_list (ds_crons d)) k = Some t \<Longrightarrow> cr_ID t = k" for k v t
    using s(1) c unfolding srv_reg.keyed_def cron_reg.keyed_def by blast+
  show ?thesis unfolding lists_fit_def
    using s(2) srv_reg.view_distinct [OF s(1)] cron_reg.view_distinct [OF c] ms mc ids by blast
qed

lemma forget_users_secret:
  "secrets_exact m \<Longrightarrow> \<forall>u \<in> set uids. map_of (um_info m) u \<noteq> None \<Longrightarrow> distinct uids \<Longrightarrow>
    map_of (um_secret (fold forget_user uids m)) secret = Some k \<longleftrightarrow> map_of (um_secret m) secret = Some k \<and> k \<notin> set uids"
proof (induction uids arbitrary: m)
  case (Cons u uids)
  obtain i where i: "map_of (um_info m) u = Some i" using Cons.prems(2) by auto
  have own: "map_of (um_secret m) (ui_AgentSecret i) = Some u" using secrets_exactD [OF Cons.prems(1)] i by blast
  have rest: "\<forall>v \<in> set uids. map_of (um_info (forget_user u m)) v \<noteq> None"
    using Cons.prems(2,3) by (auto simp: forget_user_def gomap_simps)
  have one: "map_of (um_secret (forget_user u m)) secret = Some k \<longleftrightarrow> map_of (um_secret m) secret = Some k \<and> k \<noteq> u"
    using i own secrets_exactD [OF Cons.prems(1), of secret u] by (auto simp: forget_user_def gomap_simps)
  show ?case using Cons.IH [OF forget_user_exact [OF Cons.prems(1)] rest] Cons.prems(2,3) one by auto
qed simp

text \<open>C4: A committed deletion of known users, none named twice, removes exactly their servers and tasks from the registries and
  exactly their agent secrets: a secret still authenticates someone exactly when it did before and was not one of theirs.\<close>

theorem deleted_users_leave_nothing:
  assumes "synced d" and "users_reach (ds_users d)" and "uids \<noteq> []" and "distinct uids"
    and "\<forall>u \<in> set uids. commits u \<and> map_of (um_info (ds_users d)) u \<noteq> None"
  shows "\<exists>d' ev. OnUserDelete commits uids d = (d', ev, Ret None) \<and>
    (\<forall>k s. map_of (sr_list (ds_servers d')) k = Some s \<longleftrightarrow> map_of (sr_list (ds_servers d)) k = Some s \<and> sv_UserID s \<notin> set uids) \<and>
    (\<forall>k t. map_of (cc_list (ds_crons d')) k = Some t \<longleftrightarrow> map_of (cc_list (ds_crons d)) k = Some t \<and> cr_UserID t \<notin> set uids) \<and>
    (\<forall>secret k. map_of (um_secret (ds_users d')) secret = Some k \<longleftrightarrow> map_of (um_secret (ds_users d)) secret = Some k \<and> k \<notin> set uids)"
proof -
  obtain d' ev where "delete_users commits uids (sr_sortedList (ds_servers d)) (cc_sortedList (ds_crons d)) uids d = (d', ev, Ret None)"
    "ds_users d' = fold forget_user uids (ds_users d)"
    "\<forall>k s. map_of (sr_list (ds_servers d')) k = Some s \<longleftrightarrow> map_of (sr_list (ds_servers d)) k = Some s \<and> sv_UserID s \<notin> set uids"
    "\<forall>k t. map_of (cc_list (ds_crons d')) k = Some t \<longleftrightarrow> map_of (cc_list (ds_crons d)) k = Some t \<and> cr_UserID t \<notin> set uids"
    using delete_users_ok [OF lists_fit_start [OF assms(1)], of uids commits uids] assms(4,5) by blast
  moreover have "\<forall>u \<in> set uids. map_of (um_info (ds_users d)) u \<noteq> None" using assms(5) by blast
  ultimately show ?thesis
    using forget_users_secret [OF users_reach_exact [OF assms(2)]] assms(3,4) by (simp add: OnUserDelete_def)
qed

text \<open>A deletion that names a user with a server twice panics at the second time, because the list of servers was read
  before, and leaves the registry of servers locked for good.\<close>

lemma duplicate_user_blocks_registry:
  assumes "synced d" and "commits u" and "map_of (sr_list (ds_servers d)) k = Some s" and "sv_UserID s = u"
  shows "\<exists>d' ev. OnUserDelete commits [u, u] d = (d', ev, Panic) \<and> sr_stuck (ds_servers d')"
proof -
  let ?sl = "sr_sortedList (ds_servers d)" and ?cl = "cc_sortedList (ds_crons d)"
  obtain d1 ev where d1: "delete_user1 commits [u, u] ?sl ?cl u d = (d1, ev, Ret None)" "\<not> sr_stuck (ds_servers d1)"
    "\<forall>k s. map_of (sr_list (ds_servers d1)) k = Some s \<longleftrightarrow> map_of (sr_list (ds_servers d)) k = Some s \<and> sv_UserID s \<noteq> u"
    using delete_user1_ok [where uids = "[]" and ids = "[u, u]" and commits = commits, OF lists_fit_start [OF assms(1), of "[u]"] assms(2)] unfolding lists_fit_def by fastforce
  define servers where "servers = FindByUserID sv_ID sv_UserID ?sl u"
  have sl: "s \<in> set ?sl" "sv_ID s = k"
    using lists_fit_start [OF assms(1), of "[]"] assms(3) unfolding lists_fit_def by blast+
  then have k: "k \<in> set servers" using assms(4) by (auto simp: servers_def set_FindByUserID)
  have "map_of (sr_list (ds_servers d1)) k = None"
  proof (rule ccontr)
    assume "map_of (sr_list (ds_servers d1)) k \<noteq> None"
    then obtain v where "map_of (sr_list (ds_servers d1)) k = Some v" by blast
    then have "map_of (sr_list (ds_servers d)) k = Some v" "sv_UserID v \<noteq> u" using d1(3) by blast+
    then show False using assms(3,4) by simp
  qed
  then have "snd (Server_Delete servers (ds_servers d1)) = Panic"
    using Server_Delete_panics(1) [OF d1(2)] k by (auto simp: domIff)
  then obtain c where c: "Server_Delete servers (ds_servers d1) = (c, Panic)" "sr_stuck c"
    using Server_Delete_panics(2) [OF d1(2), of servers] by (cases "Server_Delete servers (ds_servers d1)") auto
  have ne: "servers \<noteq> []" using k by auto
  have "\<exists>d' ev'. delete_user1 commits [u, u] ?sl ?cl u d1 = (d', ev', Panic) \<and> sr_stuck (ds_servers d')"
    unfolding delete_user1_def Let_def servers_def [symmetric]
    using assms(2) ne c by (cases "FindByUserID cr_ID cr_UserID ?cl u = []") simp_all
  then show ?thesis using d1(1) by (auto simp: OnUserDelete_def)
qed

subsection \<open>What an agent gets\<close>

definition registry_ok :: "server_class \<Rightarrow> bool" where
  "registry_ok sc \<longleftrightarrow> \<not> sr_stuck sc \<and> uuid_exact sc"

lemma registry_ok_reads: "registry_ok sc \<Longrightarrow> Server_Get k sc = Ret (map_of (sr_list sc) k)" "registry_ok sc \<Longrightarrow> UUIDToID u sc = Ret (map_of (sr_uuidToID sc) u)"
  by (simp_all add: registry_ok_def Server_Get_def UUIDToID_def class_Get_def listMu_read_def)

lemma put_server_known:
  assumes "registry_ok (ck_servers c)" "map_of (sr_list (ck_servers c)) k = Some old" "sv_ID s = k" "sv_UUID s = sv_UUID old" "sv_GeoIP s = sv_GeoIP old"
  shows "\<exists>c'. put_server w s [] c = (c', Ret ()) \<and> registry_ok (ck_servers c') \<and> ck_users c' = ck_users c \<and> ck_waf c' = ck_waf c \<and>
    map_of (sr_list (ck_servers c')) = (map_of (sr_list (ck_servers c)))(k \<mapsto> s) \<and> sr_uuidToID (ck_servers c') = sr_uuidToID (ck_servers c)"
proof -
  have geo: "sv_GeoIP s \<noteq> None" using uuid_exactD(1) [of "ck_servers c" k old] assms unfolding registry_ok_def by simp
  have ex: "uuid_exact ((ck_servers c)\<lparr>sr_list := AList.update (sv_ID s) s (sr_list (ck_servers c))\<rparr>)"
    using assms uuid_exact_edit [of "ck_servers c" s old] by (simp add: registry_ok_def)
  have "\<not> sr_stuck (ck_servers c)" using assms(1) by (simp add: registry_ok_def)
  then obtain us where "Server_Update (cw_dns w) (cw_ddns w) s [] (ck_servers c) =
      (sr_sortList ((ck_servers c)\<lparr>sr_list := AList.update (sv_ID s) s (sr_list (ck_servers c))\<rparr>), Ret us)"
    using update_outcome [of "ck_servers c" s "cw_dns w" "cw_ddns w" "[]"] geo by auto
  then show ?thesis using assms(1,3) ex by (simp add: put_server_def registry_ok_def gomap_simps)
qed

lemma attach_metadata_known:
  assumes "registry_ok (ck_servers c)" "map_of (sr_list (ck_servers c)) k = Some s"
  shows "\<exists>c' s'. attach_metadata w md k c = (c', Ret (Inr k)) \<and> registry_ok (ck_servers c') \<and>
    map_of (sr_list (ck_servers c')) = (map_of (sr_list (ck_servers c)))(k \<mapsto> s') \<and> sr_uuidToID (ck_servers c') = sr_uuidToID (ck_servers c) \<and>
    sv_UserID s' = sv_UserID s \<and> sv_UUID s' = sv_UUID s \<and> sv_Name s' = sv_Name s"
proof -
  have k: "sv_ID s = k" using uuid_exactD(1) [of "ck_servers c" k s] assms by (simp add: registry_ok_def)
  define s1 where "s1 = s\<lparr>sv_RuntimeIDX := is_idx md,
     sv_RuntimeWorkspaceSlug := (case md_first md ''x-workspace-slug'' of None \<Rightarrow> [] | Some v \<Rightarrow> normalizeClientName v),
     sv_WorkstationGCP := (let ws = (case md_first md ''gcp_workstation'' of None \<Rightarrow> ''<missing>'' | Some v \<Rightarrow> TrimSpace v)
        in if TrimSpace ws \<noteq> [] \<and> TrimSpace ws \<noteq> ''<missing>'' then Some (TrimSpace ws) else sv_WorkstationGCP s)\<rparr>"
  obtain c' where "put_server w s1 [] c = (c', Ret ())" "registry_ok (ck_servers c')"
    "map_of (sr_list (ck_servers c')) = (map_of (sr_list (ck_servers c)))(k \<mapsto> s1)" "sr_uuidToID (ck_servers c') = sr_uuidToID (ck_servers c)"
    using put_server_known [OF assms, of s1 w] k by (auto simp: s1_def)
  moreover have "sv_UserID s1 = sv_UserID s" "sv_UUID s1 = sv_UUID s" "sv_Name s1 = sv_Name s" by (simp_all add: s1_def)
  ultimately show ?thesis
    by (auto simp: attach_metadata_def registry_ok_reads [OF assms(1)] assms(2) Let_def s1_def)
qed

text \<open>A request with a secret and a UUID that pass.\<close>

definition credentials :: "check_world \<Rightarrow> metadata \<Rightarrow> check_state \<Rightarrow> uint64 \<Rightarrow> string \<Rightarrow> bool" where
  "credentials w md c uid uuid \<longleftrightarrow> (\<exists>raw. md_index md ''client_secret'' = Ret raw \<and> TrimSpace raw \<noteq> [] \<and>
     map_of (um_secret (ck_users c)) (TrimSpace raw) = Some uid) \<and> md_index md ''client_uuid'' = Ret uuid \<and> cw_uuid_ok w uuid"

lemma Check_credentials:
  assumes "credentials w md c uid uuid"
  shows "Check_agent w ip (Some md) c =
    find_or_register w md uid uuid (c\<lparr>ck_waf := snd (UnblockIP (cw_parse w) (ck_waf c) None ip BlockIDgRPC)\<rparr>)"
  using assms by (auto simp: credentials_def Check_agent_def Let_def)

text \<open>C25: An agent that shows the UUID of a registered server and the secret of any user at all, not only of its owner, is given
  that server; the owner and the UUID stay as they were.\<close>

theorem agent_takes_any_server:
  assumes "srv_reach dns rows (ck_servers c)" and "credentials w md c uid uuid" and "UUIDToID uuid (ck_servers c) = Ret (Some k)" and "cw_rename w = None"
  shows "\<exists>c' s s'. Check_agent w ip (Some md) c = (c', Ret (Inr k)) \<and> Server_Get k (ck_servers c) = Ret (Some s) \<and> sv_UUID s = uuid \<and>
    Server_Get k (ck_servers c') = Ret (Some s') \<and> sv_UserID s' = sv_UserID s \<and> UUIDToID uuid (ck_servers c') = Ret (Some k)"
proof -
  let ?c = "c\<lparr>ck_waf := snd (UnblockIP (cw_parse w) (ck_waf c) None ip BlockIDgRPC)\<rparr>"
  define name where "name = (case md_first md ''client_name'' of None \<Rightarrow> [] | Some v \<Rightarrow> normalizeClientName v)"
  have ok: "registry_ok (ck_servers ?c)" using srv_reach_ok [OF assms(1)] assms(3) by (simp add: registry_ok_def UUIDToID_def listMu_read_Ret)
  have u: "map_of (sr_uuidToID (ck_servers c)) uuid = Some k" using assms(3) by (simp add: UUIDToID_def listMu_read_Ret)
  have ex: "uuid_exact (ck_servers c)" using ok by (simp add: registry_ok_def)
  obtain s where s: "map_of (sr_list (ck_servers c)) k = Some s" "sv_UUID s = uuid" using uuid_exactD(2) [OF ex u] by blast
  have k: "sv_ID s = k" using uuid_exactD(1) [OF ex s(1)] by blast
  have "\<exists>c' s'. find_or_register w md uid uuid ?c = (c', Ret (Inr k)) \<and> registry_ok (ck_servers c') \<and>
      map_of (sr_list (ck_servers c')) k = Some s' \<and> sr_uuidToID (ck_servers c') = sr_uuidToID (ck_servers c) \<and> sv_UserID s' = sv_UserID s"
  proof (cases "name \<noteq> [] \<and> sv_Name s = []")
    case True
    obtain c1 where c1: "put_server w (s\<lparr>sv_Name := name\<rparr>) [] ?c = (c1, Ret ())" "registry_ok (ck_servers c1)"
      "map_of (sr_list (ck_servers c1)) = (map_of (sr_list (ck_servers c)))(k \<mapsto> s\<lparr>sv_Name := name\<rparr>)" "sr_uuidToID (ck_servers c1) = sr_uuidToID (ck_servers c)"
      using put_server_known [OF ok, of k s "s\<lparr>sv_Name := name\<rparr>" w] s k by auto
    have run: "find_or_register w md uid uuid ?c = attach_metadata w md k c1"
      using True assms(4) c1(1) s(1) u
      by (simp add: find_or_register_def name_def [symmetric] registry_ok_reads [OF ok, simplified] Let_def)
    show ?thesis unfolding run using attach_metadata_known [OF c1(2), of k "s\<lparr>sv_Name := name\<rparr>" w md] c1(3,4) by auto
  next
    case False
    have run: "find_or_register w md uid uuid ?c = attach_metadata w md k ?c"
      using False s(1) u by (auto simp: find_or_register_def name_def [symmetric] registry_ok_reads [OF ok, simplified] Let_def)
    show ?thesis unfolding run using attach_metadata_known [OF ok, of k s w md] s(1) by auto
  qed
  then show ?thesis using Check_credentials [OF assms(2), of ip] s ok u
    by (auto simp: registry_ok_reads [OF ok, simplified] registry_ok_reads)
qed

text \<open>A new UUID registers one server, owned by the user of the secret, under the number the database gave; its index entry
  leads to it, and all other servers stay as they were.\<close>

lemma agent_registers_server:
  assumes "srv_reach dns rows (ck_servers c)" and "credentials w md c uid uuid" and "UUIDToID uuid (ck_servers c) = Ret None"
    and "uuid \<noteq> []" and "cw_create w = Inr k" and "map_of (sr_list (ck_servers c)) k = None"
  shows "\<exists>c' s. Check_agent w ip (Some md) c = (c', Ret (Inr k)) \<and> Server_Get k (ck_servers c') = Ret (Some s) \<and> sv_UserID s = uid \<and>
    sv_UUID s = uuid \<and> UUIDToID uuid (ck_servers c') = Ret (Some k) \<and>
    (\<forall>j. j \<noteq> k \<longrightarrow> Server_Get j (ck_servers c') = Server_Get j (ck_servers c))"
proof -
  let ?c = "c\<lparr>ck_waf := snd (UnblockIP (cw_parse w) (ck_waf c) None ip BlockIDgRPC)\<rparr>"
  define name where "name = (case md_first md ''client_name'' of None \<Rightarrow> [] | Some v \<Rightarrow> normalizeClientName v)"
  define n where "n = new_server uid (if name \<noteq> [] then name else cw_petname w) uuid k"
  have n: "sv_ID n = k" "sv_UUID n = uuid" "sv_UserID n = uid" "sv_GeoIP n \<noteq> None" "\<not> sv_EnableDDNS n"
    by (simp_all add: n_def new_server_def InitServer_def)
  have ok: "registry_ok (ck_servers c)" using srv_reach_ok [OF assms(1)] assms(3) by (simp add: registry_ok_def UUIDToID_def listMu_read_Ret)
  have u: "map_of (sr_uuidToID (ck_servers c)) uuid = None" using assms(3) by (simp add: UUIDToID_def listMu_read_Ret)
  define sc where "sc = sr_sortList ((ck_servers c)\<lparr>sr_list := AList.update k n (sr_list (ck_servers c)), sr_uuidToID := AList.update uuid k (sr_uuidToID (ck_servers c))\<rparr>)"
  have sc: "registry_ok sc" "map_of (sr_list sc) k = Some n" "map_of (sr_uuidToID sc) uuid = Some k" "j \<noteq> k \<Longrightarrow> map_of (sr_list sc) j = map_of (sr_list (ck_servers c)) j" for j
    using ok uuid_exact_create [of "ck_servers c" n] n u assms(6) by (simp_all add: registry_ok_def sc_def gomap_simps)
  have put: "put_server w n uuid ?c = (?c\<lparr>ck_servers := sc\<rparr>, Ret ())"
    using ok n assms(4) by (simp add: put_server_def Server_Update_def registry_ok_def Let_def sc_def)
  obtain c' s' where c': "attach_metadata w md k (?c\<lparr>ck_servers := sc\<rparr>) = (c', Ret (Inr k))" "registry_ok (ck_servers c')"
    "map_of (sr_list (ck_servers c')) = (map_of (sr_list sc))(k \<mapsto> s')" "sr_uuidToID (ck_servers c') = sr_uuidToID sc"
    "sv_UserID s' = uid" "sv_UUID s' = uuid"
    using attach_metadata_known [of "?c\<lparr>ck_servers := sc\<rparr>" k n w md] sc n by auto
  have "find_or_register w md uid uuid ?c = (c', Ret (Inr k))"
    using put c'(1) assms(5) u by (simp add: find_or_register_def name_def [symmetric] n_def [symmetric] registry_ok_reads [OF ok] Let_def)
  then show ?thesis using Check_credentials [OF assms(2), of ip] c' sc
    by (auto simp: registry_ok_reads [OF ok] registry_ok_reads [OF c'(2)])
qed


subsection \<open>Witnesses\<close>

definition some_world :: check_world where
  "some_world = \<lparr>cw_parse = (\<lambda>_. Inr [1]), cw_now = 100, cw_uuid_ok = (\<lambda>_. True), cw_petname = ''pet'', cw_create = Inr 7, cw_rename = None,
     cw_dns = [], cw_ddns = NewDDNSClass []\<rparr>"

definition some_users :: user_maps where
  "some_users = OnUserUpdate (Some some_member) (set_user 0 RoleAdmin ''conf'' \<lparr>um_info = [], um_secret = []\<rparr>)"

lemma some_users_eval: "um_secret some_users = [(''conf'', 0), (''s'', 9)]"
  "um_info some_users = [(0, \<lparr>ui_Role = RoleAdmin, ui_AgentSecret = ''conf''\<rparr>), (9, \<lparr>ui_Role = RoleMember, ui_AgentSecret = ''s''\<rparr>)]"
  by (simp_all add: some_users_def OnUserUpdate_def set_user_def some_member_def)

lemma some_users_reach: "users_reach some_users"
  unfolding some_users_def by (intro users_update users_start) (simp_all add: secret_free_def set_user_def some_member_def)

definition some_check :: check_state where
  "some_check = \<lparr>ck_users = some_users, ck_waf = [], ck_servers = some_registry, ck_updates = []\<rparr>"

definition some_md :: "string \<Rightarrow> string \<Rightarrow> metadata" where
  "some_md secret uuid = [(''client_secret'', [secret]), (''client_uuid'', [uuid])]"

lemma some_credentials: "credentials some_world (some_md ''s'' uuid) some_check 9 uuid"
  by (simp add: credentials_def some_world_def some_md_def md_index_def some_check_def some_users_eval TrimSpace_def go_space_def)

lemma some_uuids: "UUIDToID ''u'' some_registry = Ret (Some 1)" "UUIDToID ''new'' some_registry = Ret None" "map_of (sr_list some_registry) 7 = None"
  by (simp_all add: UUIDToID_def listMu_read_def some_registry_def NewServerClass_def some_server_def)

lemma some_fields: "ck_servers some_check = some_registry" "cw_rename some_world = None" "cw_create some_world = Inr 7"
  by (simp_all add: some_check_def some_world_def)

theorem agent_takes_any_server_witness:
  "\<exists>c' s s'. Check_agent some_world ''a'' (Some (some_md ''s'' ''u'')) some_check = (c', Ret (Inr 1)) \<and> Server_Get 1 some_registry = Ret (Some s) \<and>
     sv_UserID s \<noteq> 9 \<and> Server_Get 1 (ck_servers c') = Ret (Some s') \<and> sv_UserID s' = sv_UserID s"
proof -
  have "\<exists>c' s s'. Check_agent some_world ''a'' (Some (some_md ''s'' ''u'')) some_check = (c', Ret (Inr 1)) \<and> Server_Get 1 some_registry = Ret (Some s) \<and>
      sv_UUID s = ''u'' \<and> Server_Get 1 (ck_servers c') = Ret (Some s') \<and> sv_UserID s' = sv_UserID s \<and> UUIDToID ''u'' (ck_servers c') = Ret (Some 1)"
    using agent_takes_any_server [where c = some_check and w = some_world and k = 1 and ip = "''a''", unfolded some_fields,
      OF some_registry_reach some_credentials some_uuids(1) refl] .
  moreover have "Server_Get 1 some_registry = Ret (Some (InitServer (some_server 1 ''u'' 0)))"
    by (simp add: Server_Get_def class_Get_def listMu_read_def some_registry_list)
  moreover have "sv_UserID (InitServer (some_server 1 ''u'' 0)) \<noteq> 9" by (simp add: InitServer_def some_server_def)
  ultimately show ?thesis by auto
qed

lemma agent_registers_server_witness:
  "\<exists>c' s. Check_agent some_world ''a'' (Some (some_md ''s'' ''new'')) some_check = (c', Ret (Inr 7)) \<and> Server_Get 7 (ck_servers c') = Ret (Some s) \<and> sv_UserID s = 9"
proof -
  have "''new'' \<noteq> []" by simp
  from agent_registers_server [where c = some_check and w = some_world and k = 7 and ip = "''a''", unfolded some_fields,
      OF some_registry_reach some_credentials some_uuids(2) this refl some_uuids(3)]
  show ?thesis by blast
qed


definition some_dash :: dash_state where
  "some_dash = \<lparr>ds_users = OnUserUpdate (Some (some_member\<lparr>u_ID := 1, u_AgentSecret := ''o''\<rparr>)) some_users, ds_crons = some_crons\<lparr>cc_sortedList := map snd (cc_list some_crons)\<rparr>, ds_servers = some_registry\<rparr>"

lemma some_dash_synced: "synced some_dash"
proof -
  have "srv_reg.keyed some_registry" using srv_reach_ok [OF some_registry_reach] some_registry_list(2) fresh_keyed by blast
  moreover have "cron_reg.keyed (some_crons\<lparr>cc_sortedList := map snd (cc_list some_crons)\<rparr>)"
    by (auto simp: cron_reg.keyed_def cron_reg.in_sync_def some_crons_eval gomap_ok_def some_task_def split: if_splits)
  ultimately show ?thesis by (simp add: synced_def some_dash_def some_registry_list)
qed

lemma some_dash_users: "users_reach (ds_users some_dash)" "map_of (um_info (ds_users some_dash)) 1 = Some \<lparr>ui_Role = RoleMember, ui_AgentSecret = ''o''\<rparr>"
  "map_of (um_secret (ds_users some_dash)) ''o'' = Some 1"
proof -
  show "users_reach (ds_users some_dash)" unfolding some_dash_def
    by (simp, intro users_update some_users_reach) (simp add: secret_free_def some_users_eval some_member_def)
qed (simp_all add: some_dash_def OnUserUpdate_def set_user_def some_users_eval some_member_def)

theorem deleted_users_leave_nothing_witness:
  "\<exists>d' ev. OnUserDelete (\<lambda>_. True) [1] some_dash = (d', ev, Ret None) \<and> map_of (sr_list (ds_servers d')) 1 = None \<and>
    map_of (um_secret (ds_users d')) ''o'' = None"
proof -
  obtain d' ev where d': "OnUserDelete (\<lambda>_. True) [1] some_dash = (d', ev, Ret None)"
    "\<forall>k s. map_of (sr_list (ds_servers d')) k = Some s \<longleftrightarrow> map_of (sr_list (ds_servers some_dash)) k = Some s \<and> sv_UserID s \<notin> set [1]"
    "\<forall>secret k. map_of (um_secret (ds_users d')) secret = Some k \<longleftrightarrow> map_of (um_secret (ds_users some_dash)) secret = Some k \<and> k \<notin> set [1]"
    using deleted_users_leave_nothing [OF some_dash_synced some_dash_users(1), of "[1]" "\<lambda>_. True"] some_dash_users(2) by auto
  have "map_of (sr_list (ds_servers some_dash)) 1 = Some (InitServer (some_server 1 ''u'' 0))" by (simp add: some_dash_def some_registry_list)
  moreover have "sv_UserID (InitServer (some_server 1 ''u'' 0)) = 1" by (simp add: InitServer_def some_server_def)
  ultimately have "map_of (sr_list (ds_servers d')) 1 = None" using d'(2) by (cases "map_of (sr_list (ds_servers d')) 1") auto
  moreover have "map_of (um_secret (ds_users d')) ''o'' = None"
    using d'(3) some_dash_users(3) by (cases "map_of (um_secret (ds_users d')) ''o''") auto
  ultimately show ?thesis using d'(1) by blast
qed

lemma duplicate_user_blocks_registry_witness:
  "\<exists>d' ev. OnUserDelete (\<lambda>_. True) [1, 1] some_dash = (d', ev, Panic) \<and> sr_stuck (ds_servers d')"
  by (rule duplicate_user_blocks_registry [OF some_dash_synced, where k = 1 and s = "InitServer (some_server 1 ''u'' 0)"])
    (simp_all add: some_dash_def some_registry_list InitServer_def some_server_def)

text \<open>The tables of secrets and of users stay inverse to each other: a secret authenticates as a user exactly when that user is
  there and has it.\<close>

lemma secrets_are_exact:
  assumes "users_reach m"
  shows "map_of (um_secret m) secret = Some k \<longleftrightarrow> (\<exists>i. map_of (um_info m) k = Some i \<and> ui_AgentSecret i = secret)"
  using secrets_exactD [OF users_reach_exact [OF assms]] .

lemma secrets_are_exact_witness: "map_of (um_secret some_users) ''s'' = Some 9 \<and> ''s'' = ui_AgentSecret (the (map_of (um_info some_users) 9))"
  using secrets_are_exact [OF some_users_reach, of "''s''" 9] by (simp add: some_users_eval)

end
