(* ===== verification/Config_Access.thy ===== *)
theory Config_Access
  imports Server_Model
begin

text \<open>
  Templates, the configurations bound to them and the rights of users to both (\<open>model/template*.go\<close>,
  \<open>model/node_config*.go\<close>, \<open>model/raw_config.go\<close> and the handlers of \<open>template.go\<close>, \<open>template_acl.go\<close>, \<open>config.go\<close>,
  \<open>config_acl.go\<close>, \<open>template_detect.go\<close>, \<open>raw_config.go\<close> in \<open>cmd/dashboard/controller\<close>).

  A table is the list of its rows in the order of their numbers. \<open>fails n\<close> says that the database refuses the n-th
  statement of a handler, \<open>k\<close> is the number of a row it creates. JSON columns are kept as the values they encode. The time
  stamps of these rows decide nothing and are left out. The parser of templates is an argument that gives the tree.
\<close>

subsection \<open>Numbers in paths\<close>

fun parse_id_loop :: "uint64 \<Rightarrow> string \<Rightarrow> uint64 option" where
  "parse_id_loop k [] = Some k" |
  "parse_id_loop k (ch # s) = (case digit_val ch of None \<Rightarrow> None | Some d \<Rightarrow> parse_id_loop (k * 10 + of_nat d) s)"

definition parseUintParam :: "string \<Rightarrow> string \<Rightarrow> string + uint64" where
  "parseUintParam key s = (if s = [] then Inl (''missing '' @ key)
     else case parse_id_loop 0 s of None \<Rightarrow> Inl (''invalid '' @ key)
       | Some k \<Rightarrow> if k = 0 then Inl (''invalid '' @ key) else Inr k)"

definition parseTemplateID :: "string \<Rightarrow> string + uint64" where
  "parseTemplateID s = (if s = [] then Inl ''missing id''
     else case parse_id_loop 0 s of None \<Rightarrow> Inl ''invalid id'' | Some k \<Rightarrow> if k = 0 then Inl ''invalid id'' else Inr k)"

subsection \<open>Tables\<close>

definition PermReadMeta :: uint32 where "PermReadMeta = 1"
definition PermReadRaw :: uint32 where "PermReadRaw = 2"
definition PermReadVars :: uint32 where "PermReadVars = 2"
definition PermWrite :: uint32 where "PermWrite = 4"
definition PermDelete :: uint32 where "PermDelete = 8"

definition Has :: "uint32 \<Rightarrow> uint32 \<Rightarrow> bool" where
  "Has p need \<longleftrightarrow> and p need = need"

record acl_row =
  al_ID :: uint64
  al_Object :: uint64
  al_UserID :: uint64
  al_PermMask :: uint32

text \<open>A variable a template uses: \<open>node\<close> for \<open>v\<close>, \<open>config\<close> for \<open>c\<close>.\<close>

record detected_var =
  dv_Key :: string
  dv_Scope :: string

record tpl_row =
  tp_ID :: uint64
  tp_Name :: string
  tp_Type :: string
  tp_ContentRaw :: string
  tp_VarsSchema :: string
  tp_DetectedVars :: "detected_var list"

text \<open>The dynamic type of a value of \<open>map[string]any\<close>.\<close>

datatype any_val = AnyNil | AnyBool bool | AnyFloat float64 | AnyString string | AnyUint uint64 |
  AnyList "any_val list" | AnyMap "(string \<times> any_val) list"

type_synonym vars_map = "(string, any_val) gomap"

record cfg_row =
  cg_ID :: uint64
  cg_Name :: string
  cg_TemplateID :: uint64
  cg_VarsOverride :: vars_map
  cg_Enabled :: bool
  cg_CreatedBy :: uint64

record cfg_db =
  db_templates :: "tpl_row list"
  db_tacls :: "acl_row list"
  db_configs :: "cfg_row list"
  db_cacls :: "acl_row list"
  db_raw :: "string option"

definition first_id :: "('r \<Rightarrow> uint64) \<Rightarrow> uint64 \<Rightarrow> 'r list \<Rightarrow> 'r option" where
  "first_id idf k rows = find (\<lambda>r. idf r = k) rows"

definition update_id :: "('r \<Rightarrow> uint64) \<Rightarrow> uint64 \<Rightarrow> ('r \<Rightarrow> 'r) \<Rightarrow> 'r list \<Rightarrow> 'r list" where
  "update_id idf k f rows = map (\<lambda>r. if idf r = k then f r else r) rows"

definition delete_id :: "('r \<Rightarrow> uint64) \<Rightarrow> uint64 \<Rightarrow> 'r list \<Rightarrow> 'r list" where
  "delete_id idf k rows = filter (\<lambda>r. idf r \<noteq> k) rows"

definition order_id_desc :: "('r \<Rightarrow> uint64) \<Rightarrow> 'r list \<Rightarrow> 'r list" where
  "order_id_desc idf rows = rev (sort_key idf rows)"

text \<open>What a \<open>false\<close> in a column that has \<open>true\<close> as its default becomes when a row is created: \<open>zd\<close> says whether the
  database library takes the default for a zero value.\<close>

definition stored_bool :: "bool \<Rightarrow> bool \<Rightarrow> bool" where
  "stored_bool zd b = (b \<or> zd)"

subsection \<open>Callers and rights\<close>

definition isAdmin :: "user option \<Rightarrow> bool" where
  "isAdmin c = (case c of None \<Rightarrow> False | Some u \<Rightarrow> IsAdmin (u_Role u))"

definition currentUserID :: "user option \<Rightarrow> uint64 option" where
  "currentUserID c = map_option u_ID c"

definition adminHandler :: "user option \<Rightarrow> 's \<Rightarrow> 's \<times> (string + 'a) \<Rightarrow> 's \<times> (string + 'a)" where
  "adminHandler c s r = (case c of None \<Rightarrow> (s, Inl ''unauthorized'')
     | Some u \<Rightarrow> if \<not> IsAdmin (u_Role u) then (s, Inl ''permission denied'') else r)"

definition find_acl :: "uint64 \<Rightarrow> uint64 \<Rightarrow> acl_row list \<Rightarrow> acl_row option" where
  "find_acl k uid acls = find (\<lambda>a. al_Object a = k \<and> al_UserID a = uid) acls"

definition userHasPerm :: "user option \<Rightarrow> acl_row list \<Rightarrow> uint64 \<Rightarrow> uint32 \<Rightarrow> bool \<Rightarrow> bool" where
  "userHasPerm c acls k need failed =
     (isAdmin c \<or> (case currentUserID c of None \<Rightarrow> False
        | Some uid \<Rightarrow> \<not> failed \<and> (case find_acl k uid acls of None \<Rightarrow> False | Some a \<Rightarrow> Has (al_PermMask a) need)))"

definition userHasTemplatePerm :: "user option \<Rightarrow> cfg_db \<Rightarrow> uint64 \<Rightarrow> uint32 \<Rightarrow> bool \<Rightarrow> bool" where
  "userHasTemplatePerm c db = userHasPerm c (db_tacls db)"

definition userHasConfigPerm :: "user option \<Rightarrow> cfg_db \<Rightarrow> uint64 \<Rightarrow> uint32 \<Rightarrow> bool \<Rightarrow> bool" where
  "userHasConfigPerm c db = userHasPerm c (db_cacls db)"

subsection \<open>Granting rights\<close>

record template_acl_form =
  tf_PermMask :: "uint32 option"
  tf_ReadMeta :: "bool option"
  tf_ReadRaw :: "bool option"
  tf_Write :: "bool option"
  tf_Delete :: "bool option"

record config_acl_form =
  gf_PermMask :: "uint32 option"
  gf_ReadMeta :: "bool option"
  gf_ReadVars :: "bool option"
  gf_Write :: "bool option"
  gf_Delete :: "bool option"

definition mask_bit :: "bool option \<Rightarrow> uint32 \<Rightarrow> uint32 \<Rightarrow> uint32" where
  "mask_bit b p msk = (if b = Some True then or msk p else msk)"

definition computePermMask :: "template_acl_form \<Rightarrow> string + uint32" where
  "computePermMask sf = (case tf_PermMask sf of Some m \<Rightarrow> Inr m
     | None \<Rightarrow> if tf_ReadMeta sf = None \<and> tf_ReadRaw sf = None \<and> tf_Write sf = None \<and> tf_Delete sf = None then Inl ''missing permissions''
        else Inr (mask_bit (tf_Delete sf) PermDelete (mask_bit (tf_Write sf) PermWrite
          (mask_bit (tf_ReadRaw sf) PermReadRaw (mask_bit (tf_ReadMeta sf) PermReadMeta 0)))))"

definition computeConfigPermMask :: "config_acl_form \<Rightarrow> string + uint32" where
  "computeConfigPermMask sf = (case gf_PermMask sf of Some m \<Rightarrow> Inr m
     | None \<Rightarrow> if gf_ReadMeta sf = None \<and> gf_ReadVars sf = None \<and> gf_Write sf = None \<and> gf_Delete sf = None then Inl ''missing permissions''
        else Inr (mask_bit (gf_Delete sf) PermDelete (mask_bit (gf_Write sf) PermWrite
          (mask_bit (gf_ReadVars sf) PermReadVars (mask_bit (gf_ReadMeta sf) PermReadMeta 0)))))"

text \<open>The statements of the upsert: the query, and the insertion or the update of the mask.\<close>

definition upsert_acl :: "(nat \<Rightarrow> bool) \<Rightarrow> uint64 \<Rightarrow> uint64 \<Rightarrow> uint64 \<Rightarrow> uint32 \<Rightarrow> acl_row list \<Rightarrow> acl_row list \<times> (string + unit)" where
  "upsert_acl fails k obj uid msk acls =
     (if fails 0 then (acls, Inl ''database error'')
      else case find_acl obj uid acls of
        None \<Rightarrow> if fails 1 then (acls, Inl ''database error'')
          else (acls @ [\<lparr>al_ID = k, al_Object = obj, al_UserID = uid, al_PermMask = msk\<rparr>], Inr ())
      | Some a \<Rightarrow> if fails 1 then (acls, Inl ''database error'')
          else (update_id al_ID (al_ID a) (\<lambda>r. r\<lparr>al_PermMask := msk\<rparr>) acls, Inr ()))"

definition upsertTemplateACL :: "(nat \<Rightarrow> bool) \<Rightarrow> uint64 \<Rightarrow> string \<Rightarrow> string \<Rightarrow> template_acl_form \<Rightarrow> cfg_db \<Rightarrow> cfg_db \<times> (string + unit)" where
  "upsertTemplateACL fails k ids users sf db = (case parseTemplateID ids of Inl e \<Rightarrow> (db, Inl e)
     | Inr tid \<Rightarrow> case parseUintParam ''userId'' users of Inl e \<Rightarrow> (db, Inl e)
     | Inr uid \<Rightarrow> case computePermMask sf of Inl e \<Rightarrow> (db, Inl e)
     | Inr msk \<Rightarrow> (let (acls, r) = upsert_acl fails k tid uid msk (db_tacls db) in (db\<lparr>db_tacls := acls\<rparr>, r)))"

definition upsertConfigACL :: "(nat \<Rightarrow> bool) \<Rightarrow> uint64 \<Rightarrow> string \<Rightarrow> string \<Rightarrow> config_acl_form \<Rightarrow> cfg_db \<Rightarrow> cfg_db \<times> (string + unit)" where
  "upsertConfigACL fails k ids users sf db = (case parseUintParam ''id'' ids of Inl e \<Rightarrow> (db, Inl e)
     | Inr cid \<Rightarrow> case parseUintParam ''userId'' users of Inl e \<Rightarrow> (db, Inl e)
     | Inr uid \<Rightarrow> case computeConfigPermMask sf of Inl e \<Rightarrow> (db, Inl e)
     | Inr msk \<Rightarrow> (let (acls, r) = upsert_acl fails k cid uid msk (db_cacls db) in (db\<lparr>db_cacls := acls\<rparr>, r)))"

definition deleteTemplateACL :: "(nat \<Rightarrow> bool) \<Rightarrow> string \<Rightarrow> string \<Rightarrow> cfg_db \<Rightarrow> cfg_db \<times> (string + unit)" where
  "deleteTemplateACL fails ids users db = (case parseTemplateID ids of Inl e \<Rightarrow> (db, Inl e)
     | Inr tid \<Rightarrow> case parseUintParam ''userId'' users of Inl e \<Rightarrow> (db, Inl e)
     | Inr uid \<Rightarrow> if fails 0 then (db, Inl ''database error'')
         else (db\<lparr>db_tacls := filter (\<lambda>a. \<not> (al_Object a = tid \<and> al_UserID a = uid)) (db_tacls db)\<rparr>, Inr ()))"

definition deleteConfigACL :: "(nat \<Rightarrow> bool) \<Rightarrow> string \<Rightarrow> string \<Rightarrow> cfg_db \<Rightarrow> cfg_db \<times> (string + unit)" where
  "deleteConfigACL fails ids users db = (case parseUintParam ''id'' ids of Inl e \<Rightarrow> (db, Inl e)
     | Inr cid \<Rightarrow> case parseUintParam ''userId'' users of Inl e \<Rightarrow> (db, Inl e)
     | Inr uid \<Rightarrow> if fails 0 then (db, Inl ''database error'')
         else (db\<lparr>db_cacls := filter (\<lambda>a. \<not> (al_Object a = cid \<and> al_UserID a = uid)) (db_cacls db)\<rparr>, Inr ()))"

definition listTemplateACL :: "(nat \<Rightarrow> bool) \<Rightarrow> string \<Rightarrow> cfg_db \<Rightarrow> string + acl_row list" where
  "listTemplateACL fails ids db = (case parseTemplateID ids of Inl e \<Rightarrow> Inl e
     | Inr tid \<Rightarrow> if fails 0 then Inl ''database error'' else Inr (sort_key al_ID (filter (\<lambda>a. al_Object a = tid) (db_tacls db))))"

definition listConfigACL :: "(nat \<Rightarrow> bool) \<Rightarrow> string \<Rightarrow> cfg_db \<Rightarrow> string + acl_row list" where
  "listConfigACL fails ids db = (case parseUintParam ''id'' ids of Inl e \<Rightarrow> Inl e
     | Inr cid \<Rightarrow> if fails 0 then Inl ''database error'' else Inr (sort_key al_ID (filter (\<lambda>a. al_Object a = cid) (db_cacls db))))"

subsection \<open>Variables of a template\<close>

datatype tnode = ListNode "tnode list" | ActionNode "tnode option" | PipeNode "tnode list" | CommandNode "tnode list" |
  IdentifierNode string | StringNode string | TemplateNode | OtherNode

definition detect_command :: "tnode list \<Rightarrow> detected_var list \<Rightarrow> detected_var list" where
  "detect_command args out = (case args of IdentifierNode fn # StringNode key # _ \<Rightarrow>
       if fn \<noteq> ''v'' \<and> fn \<noteq> ''c'' \<or> key = [] then out
       else let d = \<lparr>dv_Key = key, dv_Scope = (if fn = ''c'' then ''config'' else ''node'')\<rparr>
         in if d \<in> set out then out else out @ [d]
     | _ \<Rightarrow> out)"

fun walk :: "tnode \<Rightarrow> detected_var list \<Rightarrow> detected_var list" where
  "walk (ListNode ns) out = fold walk ns out" |
  "walk (ActionNode p) out = (case p of None \<Rightarrow> out | Some pipe \<Rightarrow> walk pipe out)" |
  "walk (PipeNode cmds) out = fold walk cmds out" |
  "walk (CommandNode args) out = detect_command args out" |
  "walk (IdentifierNode s) out = out" |
  "walk (StringNode s) out = out" |
  "walk TemplateNode out = out" |
  "walk OtherNode out = out"

type_synonym tpl_parser = "string \<Rightarrow> tnode option option"

definition detectTemplateVars :: "tpl_parser \<Rightarrow> string \<Rightarrow> string + detected_var list" where
  "detectTemplateVars parse content = (case parse content of None \<Rightarrow> Inl ''invalid template''
     | Some None \<Rightarrow> Inr [] | Some (Some tree) \<Rightarrow> Inr (walk tree []))"

definition requiredNodeVars :: "detected_var list \<Rightarrow> string list" where
  "requiredNodeVars dvs = remdups (map dv_Key (filter (\<lambda>v. dv_Scope v = ''node'' \<and> dv_Key v \<noteq> []) dvs))"

definition validateVarsOverride :: "vars_map \<Rightarrow> detected_var list \<Rightarrow> go_error" where
  "validateVarsOverride vars dvs = map_option (\<lambda>k. ''missing var: '' @ k) (find (\<lambda>k. map_of vars k = None) (requiredNodeVars dvs))"

subsection \<open>Handlers of templates\<close>

record tpl_meta =
  tm_ID :: uint64
  tm_Name :: string
  tm_Type :: string
  tm_VarsSchema :: string
  tm_DetectedVars :: "detected_var list"

definition toTemplateMeta :: "tpl_row \<Rightarrow> bool \<Rightarrow> tpl_meta" where
  "toTemplateMeta t schema = \<lparr>tm_ID = tp_ID t, tm_Name = tp_Name t, tm_Type = tp_Type t,
     tm_VarsSchema = (if schema then tp_VarsSchema t else []), tm_DetectedVars = tp_DetectedVars t\<rparr>"

text \<open>The join of rows with the rights of a user whose mask has one of the asked bits.\<close>

definition join_acls :: "('r \<Rightarrow> uint64) \<Rightarrow> acl_row list \<Rightarrow> uint64 \<Rightarrow> uint32 \<Rightarrow> 'r list \<Rightarrow> 'r list" where
  "join_acls idf acls uid bits rows = concat (map (\<lambda>r. map (\<lambda>a. r)
     (filter (\<lambda>a. al_Object a = idf r \<and> al_UserID a = uid \<and> and (al_PermMask a) bits \<noteq> 0) acls)) rows)"

definition listTemplates :: "(nat \<Rightarrow> bool) \<Rightarrow> user option \<Rightarrow> string \<Rightarrow> cfg_db \<Rightarrow> string + tpl_meta list" where
  "listTemplates fails c query db =
     (let typ = TrimSpace query; rows = filter (\<lambda>t. typ = [] \<or> tp_Type t = typ) (db_templates db)
      in if isAdmin c then (if fails 0 then Inl ''database error'' else Inr (map (\<lambda>t. toTemplateMeta t True) (order_id_desc tp_ID rows)))
         else case currentUserID c of None \<Rightarrow> Inr []
           | Some uid \<Rightarrow> if fails 0 then Inl ''database error''
               else Inr (map (\<lambda>t. toTemplateMeta t False) (order_id_desc tp_ID (join_acls tp_ID (db_tacls db) uid PermReadMeta rows))))"

definition getTemplate :: "(nat \<Rightarrow> bool) \<Rightarrow> user option \<Rightarrow> string \<Rightarrow> cfg_db \<Rightarrow> string + tpl_meta" where
  "getTemplate fails c ids db = (case parseTemplateID ids of Inl e \<Rightarrow> Inl e
     | Inr k \<Rightarrow> if \<not> userHasTemplatePerm c db k PermReadMeta (fails 0) then Inl ''permission denied''
         else if fails 1 then Inl ''database error''
         else case first_id tp_ID k (db_templates db) of None \<Rightarrow> Inl ''template id does not exist''
           | Some t \<Rightarrow> Inr (toTemplateMeta t (isAdmin c)))"

definition getTemplateRaw :: "(nat \<Rightarrow> bool) \<Rightarrow> user option \<Rightarrow> string \<Rightarrow> cfg_db \<Rightarrow> string + string" where
  "getTemplateRaw fails c ids db = (case parseTemplateID ids of Inl e \<Rightarrow> Inl e
     | Inr k \<Rightarrow> if \<not> userHasTemplatePerm c db k PermReadRaw (fails 0) then Inl ''permission denied''
         else if fails 1 then Inl ''database error''
         else case first_id tp_ID k (db_templates db) of None \<Rightarrow> Inl ''template id does not exist'' | Some t \<Rightarrow> Inr (tp_ContentRaw t))"

record tpl_form =
  uf_Name :: string
  uf_Type :: string
  uf_ContentRaw :: string
  uf_VarsSchema :: string

definition name_char :: "char \<Rightarrow> bool" where
  "name_char ch \<longleftrightarrow> (let n = (of_char ch :: nat) in 97 \<le> n \<and> n \<le> 122 \<or> 65 \<le> n \<and> n \<le> 90 \<or> 48 \<le> n \<and> n \<le> 57 \<or> ch \<in> {CHR ''.'', CHR ''_'', CHR ''-''})"

definition tmplNameRe :: "string \<Rightarrow> bool" where
  "tmplNameRe s \<longleftrightarrow> 1 \<le> length s \<and> length s \<le> 128 \<and> list_all name_char s"

definition cfgNameRe :: "string \<Rightarrow> bool" where
  "cfgNameRe s \<longleftrightarrow> 1 \<le> length s \<and> length s \<le> 128 \<and> list_all (\<lambda>ch. name_char ch \<or> ch = CHR '' '') s"

text \<open>The form with its name and type trimmed, or an error.\<close>

definition validateTemplateForm :: "tpl_form \<Rightarrow> bool \<Rightarrow> string + tpl_form" where
  "validateTemplateForm f requireName = (let sf = f\<lparr>uf_Name := TrimSpace (uf_Name f), uf_Type := TrimSpace (uf_Type f)\<rparr>
     in if requireName \<and> uf_Name sf = [] then Inl ''name is required''
        else if uf_Name sf \<noteq> [] \<and> \<not> tmplNameRe (uf_Name sf) then Inl ''invalid name''
        else if uf_Type sf \<noteq> [] \<and> length (uf_Type sf) > 64 then Inl ''type is too long''
        else if length (uf_ContentRaw sf) > 256 * 1024 then Inl ''content_raw too large''
        else Inr sf)"

text \<open>Every carriage return before a line feed is dropped (\<open>strings.ReplaceAll\<close>).\<close>

fun unix_lines :: "string \<Rightarrow> string" where
  "unix_lines (a # b # s) = (if a = CHR 0x0D \<and> b = CHR 0x0A then CHR 0x0A # unix_lines s else a # unix_lines (b # s))" |
  "unix_lines s = s"

definition createTemplate :: "tpl_parser \<Rightarrow> (nat \<Rightarrow> bool) \<Rightarrow> uint64 \<Rightarrow> user option \<Rightarrow> tpl_form \<Rightarrow> cfg_db \<Rightarrow> cfg_db \<times> (string + tpl_meta)" where
  "createTemplate parse fails k c f db = (case validateTemplateForm f True of Inl e \<Rightarrow> (db, Inl e)
     | Inr sf \<Rightarrow> if uf_Type sf = [] then (db, Inl ''type is required'')
         else if \<not> isAdmin c then (db, Inl ''permission denied'')
         else let content = unix_lines (uf_ContentRaw sf)
           in case detectTemplateVars parse content of Inl e \<Rightarrow> (db, Inl e)
             | Inr dvs \<Rightarrow> let t = \<lparr>tp_ID = k, tp_Name = uf_Name sf, tp_Type = uf_Type sf, tp_ContentRaw = content,
                   tp_VarsSchema = uf_VarsSchema sf, tp_DetectedVars = dvs\<rparr>
                 in if fails 0 \<or> tp_Name t \<in> tp_Name ` set (db_templates db) then (db, Inl ''database error'')
                    else (db\<lparr>db_templates := db_templates db @ [t]\<rparr>, Inr (toTemplateMeta t True)))"

text \<open>The columns a form changes: the new content with its variables, when there is one.\<close>

definition template_updates :: "tpl_form \<Rightarrow> (string \<times> detected_var list) option \<Rightarrow> tpl_row \<Rightarrow> tpl_row" where
  "template_updates sf content t = t\<lparr>tp_Name := (if uf_Name sf \<noteq> [] then uf_Name sf else tp_Name t),
     tp_Type := (if uf_Type sf \<noteq> [] then uf_Type sf else tp_Type t),
     tp_ContentRaw := (case content of None \<Rightarrow> tp_ContentRaw t | Some p \<Rightarrow> fst p),
     tp_DetectedVars := (case content of None \<Rightarrow> tp_DetectedVars t | Some p \<Rightarrow> snd p),
     tp_VarsSchema := (if uf_VarsSchema sf \<noteq> [] then uf_VarsSchema sf else tp_VarsSchema t)\<rparr>"

definition name_taken :: "uint64 \<Rightarrow> string \<Rightarrow> tpl_row list \<Rightarrow> bool" where
  "name_taken k name rows \<longleftrightarrow> (\<exists>t \<in> set rows. tp_ID t = k) \<and> (\<exists>t \<in> set rows. tp_ID t \<noteq> k \<and> tp_Name t = name)"

definition updateTemplate :: "tpl_parser \<Rightarrow> (nat \<Rightarrow> bool) \<Rightarrow> user option \<Rightarrow> string \<Rightarrow> tpl_form \<Rightarrow> cfg_db \<Rightarrow> cfg_db \<times> (string + tpl_meta option)" where
  "updateTemplate parse fails c ids f db = (case parseTemplateID ids of Inl e \<Rightarrow> (db, Inl e)
     | Inr k \<Rightarrow> if \<not> userHasTemplatePerm c db k PermWrite (fails 0) then (db, Inl ''permission denied'')
         else case validateTemplateForm f False of Inl e \<Rightarrow> (db, Inl e)
     | Inr sf \<Rightarrow> let content = unix_lines (uf_ContentRaw sf); changes = uf_ContentRaw sf \<noteq> []
         in case (if changes then detectTemplateVars parse content else Inr []) of Inl e \<Rightarrow> (db, Inl e)
     | Inr dvs \<Rightarrow> if uf_Name sf = [] \<and> uf_Type sf = [] \<and> \<not> changes \<and> uf_VarsSchema sf = [] then (db, Inr None)
         else if fails 1 \<or> uf_Name sf \<noteq> [] \<and> name_taken k (uf_Name sf) (db_templates db) then (db, Inl ''database error'')
         else let db1 = db\<lparr>db_templates := update_id tp_ID k (template_updates sf (if changes then Some (content, dvs) else None)) (db_templates db)\<rparr>
           in if fails 2 then (db1, Inl ''database error'')
              else case first_id tp_ID k (db_templates db1) of None \<Rightarrow> (db1, Inl ''template id does not exist'')
                | Some t \<Rightarrow> (db1, Inr (Some (toTemplateMeta t (isAdmin c)))))"

definition deleteTemplate :: "(nat \<Rightarrow> bool) \<Rightarrow> user option \<Rightarrow> string \<Rightarrow> cfg_db \<Rightarrow> cfg_db \<times> (string + unit)" where
  "deleteTemplate fails c ids db = (case parseTemplateID ids of Inl e \<Rightarrow> (db, Inl e)
     | Inr k \<Rightarrow> if \<not> userHasTemplatePerm c db k PermDelete (fails 0) then (db, Inl ''permission denied'')
         else if fails 1 then (db, Inl ''database error'')
         else let db1 = db\<lparr>db_tacls := filter (\<lambda>a. al_Object a \<noteq> k) (db_tacls db)\<rparr>
           in if fails 2 then (db1, Inl ''database error'')
              else (db1\<lparr>db_templates := delete_id tp_ID k (db_templates db1)\<rparr>, Inr ()))"

subsection \<open>Handlers of configurations\<close>

record cfg_meta =
  cm_ID :: uint64
  cm_Name :: string
  cm_TemplateID :: uint64
  cm_Enabled :: bool
  cm_CreatedBy :: uint64
  cm_DetectedVars :: "detected_var list"
  cm_VarsOverride :: "vars_map option"

definition config_meta :: "cfg_row \<Rightarrow> detected_var list \<Rightarrow> vars_map option \<Rightarrow> cfg_meta" where
  "config_meta g dvs vars = \<lparr>cm_ID = cg_ID g, cm_Name = cg_Name g, cm_TemplateID = cg_TemplateID g, cm_Enabled = cg_Enabled g,
     cm_CreatedBy = cg_CreatedBy g, cm_DetectedVars = dvs, cm_VarsOverride = vars\<rparr>"

definition listConfigs :: "(nat \<Rightarrow> bool) \<Rightarrow> user option \<Rightarrow> cfg_db \<Rightarrow> string + cfg_meta list" where
  "listConfigs fails c db =
     (if isAdmin c then (if fails 0 then Inl ''database error'' else Inr (map (\<lambda>g. config_meta g [] None) (order_id_desc cg_ID (db_configs db))))
      else case currentUserID c of None \<Rightarrow> Inr []
        | Some uid \<Rightarrow> if fails 0 then Inl ''database error''
            else Inr (map (\<lambda>g. config_meta g [] None) (order_id_desc cg_ID (join_acls cg_ID (db_cacls db) uid PermReadMeta (db_configs db)))))"

definition getConfig :: "(nat \<Rightarrow> bool) \<Rightarrow> user option \<Rightarrow> string \<Rightarrow> cfg_db \<Rightarrow> string + cfg_meta" where
  "getConfig fails c ids db = (case parseUintParam ''id'' ids of Inl e \<Rightarrow> Inl e
     | Inr k \<Rightarrow> if \<not> userHasConfigPerm c db k PermReadMeta (fails 0) then Inl ''permission denied''
         else if fails 1 then Inl ''database error''
         else case first_id cg_ID k (db_configs db) of None \<Rightarrow> Inl ''config id does not exist''
     | Some g \<Rightarrow> if fails 2 then Inl ''database error''
         else case first_id tp_ID (cg_TemplateID g) (db_templates db) of None \<Rightarrow> Inl ''database error''
     | Some t \<Rightarrow> Inr (config_meta g (tp_DetectedVars t)
         (if userHasConfigPerm c db k PermReadVars (fails 3) \<or> isAdmin c then Some (cg_VarsOverride g) else None)))"

record cfg_form =
  kf_Name :: string
  kf_TemplateID :: uint64
  kf_Enabled :: "bool option"
  kf_VarsOverride :: "vars_map option"

definition normalizeConfigForm :: "cfg_form \<Rightarrow> cfg_form" where
  "normalizeConfigForm sf = sf\<lparr>kf_Name := TrimSpace (kf_Name sf)\<rparr>"

definition createConfig :: "bool \<Rightarrow> (nat \<Rightarrow> bool) \<Rightarrow> uint64 \<Rightarrow> user option \<Rightarrow> cfg_form \<Rightarrow> cfg_db \<Rightarrow> cfg_db \<times> (string + cfg_meta)" where
  "createConfig zd fails k c f db =
     (if \<not> isAdmin c then (db, Inl ''permission denied'')
      else let sf = normalizeConfigForm f; vars = (case kf_VarsOverride sf of None \<Rightarrow> [] | Some m \<Rightarrow> m)
        in if kf_Name sf = [] \<or> length (kf_Name sf) > 128 \<or> \<not> cfgNameRe (kf_Name sf) then (db, Inl ''invalid name'')
           else if kf_TemplateID sf = 0 then (db, Inl ''template_id is required'')
           else if fails 0 then (db, Inl ''database error'')
           else case first_id tp_ID (kf_TemplateID sf) (db_templates db) of None \<Rightarrow> (db, Inl ''template id does not exist'')
        | Some t \<Rightarrow> case validateVarsOverride vars (tp_DetectedVars t) of Some e \<Rightarrow> (db, Inl e)
        | None \<Rightarrow> if fails 1 then (db, Inl ''database error'')
            else let enabled = (case kf_Enabled sf of None \<Rightarrow> True | Some b \<Rightarrow> b);
                     g = \<lparr>cg_ID = k, cg_Name = kf_Name sf, cg_TemplateID = kf_TemplateID sf, cg_VarsOverride = vars,
                       cg_Enabled = stored_bool zd enabled, cg_CreatedBy = (case currentUserID c of None \<Rightarrow> 0 | Some uid \<Rightarrow> uid)\<rparr>
                 in (db\<lparr>db_configs := db_configs db @ [g]\<rparr>, Inr (config_meta g (tp_DetectedVars t) (Some vars))))"

definition config_updates :: "cfg_form \<Rightarrow> cfg_row \<Rightarrow> cfg_row" where
  "config_updates sf g = g\<lparr>cg_Name := (if kf_Name sf \<noteq> [] then kf_Name sf else cg_Name g),
     cg_TemplateID := (if kf_TemplateID sf \<noteq> 0 then kf_TemplateID sf else cg_TemplateID g),
     cg_Enabled := (case kf_Enabled sf of None \<Rightarrow> cg_Enabled g | Some b \<Rightarrow> b),
     cg_VarsOverride := (case kf_VarsOverride sf of None \<Rightarrow> cg_VarsOverride g | Some m \<Rightarrow> m)\<rparr>"

text \<open>The variables are checked only when the form has some.\<close>

definition updateConfigItem :: "(nat \<Rightarrow> bool) \<Rightarrow> user option \<Rightarrow> string \<Rightarrow> cfg_form \<Rightarrow> cfg_db \<Rightarrow> cfg_db \<times> (string + cfg_meta option)" where
  "updateConfigItem fails c ids f db = (case parseUintParam ''id'' ids of Inl e \<Rightarrow> (db, Inl e)
     | Inr k \<Rightarrow> if \<not> userHasConfigPerm c db k PermWrite (fails 0) then (db, Inl ''permission denied'')
         else if fails 1 then (db, Inl ''database error'')
         else case first_id cg_ID k (db_configs db) of None \<Rightarrow> (db, Inl ''config id does not exist'')
     | Some existing \<Rightarrow> let sf = normalizeConfigForm f
         in if kf_Name sf \<noteq> [] \<and> (length (kf_Name sf) > 128 \<or> \<not> cfgNameRe (kf_Name sf)) then (db, Inl ''invalid name'')
            else if fails 2 then (db, Inl ''database error'')
            else case first_id tp_ID (if kf_TemplateID sf \<noteq> 0 then kf_TemplateID sf else cg_TemplateID existing) (db_templates db) of
              None \<Rightarrow> (db, Inl ''template id does not exist'')
     | Some t \<Rightarrow> case (case kf_VarsOverride sf of None \<Rightarrow> None | Some m \<Rightarrow> validateVarsOverride m (tp_DetectedVars t)) of
              Some e \<Rightarrow> (db, Inl e)
     | None \<Rightarrow> if kf_Name sf = [] \<and> kf_TemplateID sf = 0 \<and> kf_Enabled sf = None \<and> kf_VarsOverride sf = None then (db, Inr None)
            else if fails 3 then (db, Inl ''database error'')
            else let db1 = db\<lparr>db_configs := update_id cg_ID k (config_updates sf) (db_configs db)\<rparr>
              in if fails 4 then (db1, Inl ''database error'')
                 else case first_id cg_ID k (db_configs db1) of None \<Rightarrow> (db1, Inl ''database error'')
                   | Some g \<Rightarrow> (db1, Inr (Some (config_meta g (tp_DetectedVars t)
                       (if userHasConfigPerm c db1 k PermReadVars (fails 5) \<or> isAdmin c then Some (cg_VarsOverride g) else None)))))"

definition deleteConfigItem :: "(nat \<Rightarrow> bool) \<Rightarrow> user option \<Rightarrow> string \<Rightarrow> cfg_db \<Rightarrow> cfg_db \<times> (string + unit)" where
  "deleteConfigItem fails c ids db = (case parseUintParam ''id'' ids of Inl e \<Rightarrow> (db, Inl e)
     | Inr k \<Rightarrow> if \<not> userHasConfigPerm c db k PermDelete (fails 0) then (db, Inl ''permission denied'')
         else if fails 1 then (db, Inl ''database error'')
         else let db1 = db\<lparr>db_cacls := filter (\<lambda>a. al_Object a \<noteq> k) (db_cacls db)\<rparr>
           in if fails 2 then (db1, Inl ''database error'')
              else (db1\<lparr>db_configs := delete_id cg_ID k (db_configs db1)\<rparr>, Inr ()))"

subsection \<open>The raw configuration\<close>

definition ensureRawConfigRow :: "(nat \<Rightarrow> bool) \<Rightarrow> cfg_db \<Rightarrow> cfg_db \<times> (string + string)" where
  "ensureRawConfigRow fails db = (if fails 0 then (db, Inl ''database error'')
     else case db_raw db of Some content \<Rightarrow> (db, Inr content)
       | None \<Rightarrow> if fails 1 then (db, Inl ''database error'') else (db\<lparr>db_raw := Some []\<rparr>, Inr []))"

definition getRawConfig :: "(nat \<Rightarrow> bool) \<Rightarrow> cfg_db \<Rightarrow> cfg_db \<times> (string + string)" where
  "getRawConfig fails db = ensureRawConfigRow fails db"

definition getRawConfigMeta :: "(nat \<Rightarrow> bool) \<Rightarrow> user option \<Rightarrow> cfg_db \<Rightarrow> cfg_db \<times> (string + nat)" where
  "getRawConfigMeta fails c db = (if \<not> isAdmin c then (db, Inl ''permission denied'')
     else case ensureRawConfigRow fails db of (db1, Inl e) \<Rightarrow> (db1, Inl e) | (db1, Inr content) \<Rightarrow> (db1, Inr (length content)))"

definition putRawConfig :: "(nat \<Rightarrow> bool) \<Rightarrow> user option \<Rightarrow> string \<Rightarrow> cfg_db \<Rightarrow> cfg_db \<times> (string + nat)" where
  "putRawConfig fails c body db = (if \<not> isAdmin c then (db, Inl ''permission denied'')
     else let content = unix_lines body
       in case ensureRawConfigRow fails db of (db1, Inl e) \<Rightarrow> (db1, Inl e)
         | (db1, Inr _) \<Rightarrow> if fails 2 then (db1, Inl ''database error'')
             else let db2 = db1\<lparr>db_raw := Some content\<rparr>
               in if fails 3 then (db2, Inl ''database error'') else (db2, Inr (length content)))"

subsection \<open>Requests\<close>

text \<open>One request of the caller \<open>c\<close> to a handler that can change the tables, behind the wrapper its route has. A created row
  gets a number that was never used.\<close>

definition fresh_id :: "('r \<Rightarrow> uint64) \<Rightarrow> uint64 \<Rightarrow> 'r list \<Rightarrow> bool" where
  "fresh_id idf k rows \<longleftrightarrow> k \<noteq> 0 \<and> k \<notin> idf ` set rows"

inductive cfg_step :: "tpl_parser \<Rightarrow> bool \<Rightarrow> user option \<Rightarrow> cfg_db \<Rightarrow> cfg_db \<Rightarrow> bool" for parse zd c db where
  cs_create_template: "fresh_id tp_ID k (db_templates db) \<Longrightarrow> cfg_step parse zd c db (fst (adminHandler c db (createTemplate parse fails k c f db)))"
| cs_update_template: "cfg_step parse zd c db (fst (updateTemplate parse fails c ids f db))"
| cs_delete_template: "cfg_step parse zd c db (fst (deleteTemplate fails c ids db))"
| cs_template_acl: "fresh_id al_ID k (db_tacls db) \<Longrightarrow> cfg_step parse zd c db (fst (adminHandler c db (upsertTemplateACL fails k ids users tf db)))"
| cs_drop_template_acl: "cfg_step parse zd c db (fst (adminHandler c db (deleteTemplateACL fails ids users db)))"
| cs_create_config: "fresh_id cg_ID k (db_configs db) \<Longrightarrow> cfg_step parse zd c db (fst (adminHandler c db (createConfig zd fails k c g db)))"
| cs_update_config: "cfg_step parse zd c db (fst (updateConfigItem fails c ids g db))"
| cs_delete_config: "cfg_step parse zd c db (fst (deleteConfigItem fails c ids db))"
| cs_config_acl: "fresh_id al_ID k (db_cacls db) \<Longrightarrow> cfg_step parse zd c db (fst (adminHandler c db (upsertConfigACL fails k ids users af db)))"
| cs_drop_config_acl: "cfg_step parse zd c db (fst (adminHandler c db (deleteConfigACL fails ids users db)))"
| cs_raw: "cfg_step parse zd c db (fst (getRawConfig fails db))"
| cs_put_raw: "cfg_step parse zd c db (fst (adminHandler c db (putRawConfig fails c body db)))"

inductive cfg_reach :: "tpl_parser \<Rightarrow> bool \<Rightarrow> cfg_db \<Rightarrow> bool" for parse zd where
  start: "cfg_reach parse zd \<lparr>db_templates = [], db_tacls = [], db_configs = [], db_cacls = [], db_raw = None\<rparr>"
| step: "cfg_reach parse zd db \<Longrightarrow> cfg_step parse zd c db db' \<Longrightarrow> cfg_reach parse zd db'"

subsection \<open>Objects guarded by rights\<close>

text \<open>Requests of callers without the role of an administrator, whose numbers, if they have one, are in \<open>U\<close>.\<close>

inductive member_run :: "(user option \<Rightarrow> 'db \<Rightarrow> 'db \<Rightarrow> bool) \<Rightarrow> uint64 set \<Rightarrow> 'db \<Rightarrow> 'db \<Rightarrow> bool" for stp U where
  mr_refl: "member_run stp U db db"
| mr_step: "member_run stp U db db1 \<Longrightarrow> stp c db1 db2 \<Longrightarrow> \<not> isAdmin c \<Longrightarrow> currentUserID c \<in> {None} \<union> Some ` U \<Longrightarrow> member_run stp U db db2"

definition may :: "uint32 option \<Rightarrow> uint32 \<Rightarrow> bool" where
  "may m p \<longleftrightarrow> (case m of None \<Rightarrow> False | Some x \<Rightarrow> Has x p)"

locale guarded_objects =
  fixes stp :: "user option \<Rightarrow> 'db \<Rightarrow> 'db \<Rightarrow> bool"
    and obj :: "'db \<Rightarrow> uint64 \<Rightarrow> 'r option"
    and rights :: "'db \<Rightarrow> uint64 \<Rightarrow> uint64 \<Rightarrow> uint32 option"
  assumes member_changes: "stp c db db' \<Longrightarrow> \<not> isAdmin c \<Longrightarrow> obj db' k \<noteq> obj db k \<Longrightarrow>
      \<exists>u. currentUserID c = Some u \<and> (may (rights db k u) PermWrite \<or> may (rights db k u) PermDelete)"
    and member_rights: "stp c db db' \<Longrightarrow> \<not> isAdmin c \<Longrightarrow> rights db' k v \<noteq> rights db k v \<Longrightarrow>
      rights db' k v = None \<and> (\<exists>u. currentUserID c = Some u \<and> may (rights db k u) PermDelete)"
begin

lemma rights_never_gained:
  assumes "member_run stp U db db'"
  shows "rights db' k v = rights db k v \<or> rights db' k v = None"
  using assms
proof induction
  case (mr_step db db1 c db2)
  then show ?case by (metis member_rights)
qed simp

lemma confined:
  assumes "member_run stp U db db'" and "\<forall>u \<in> U. \<not> may (rights db k u) PermWrite \<and> \<not> may (rights db k u) PermDelete"
  shows "obj db' k = obj db k \<and> rights db' k = rights db k"
  using assms
proof induction
  case (mr_step db db1 c db2)
  then have same: "obj db1 k = obj db k" "rights db1 k = rights db k" by auto
  have no: "\<not> may (rights db1 k u) PermWrite \<and> \<not> may (rights db1 k u) PermDelete" if "currentUserID c = Some u" for u
    using that mr_step.hyps(4) mr_step.prems same by auto
  have "rights db2 k v = rights db1 k v" for v using member_rights [OF mr_step.hyps(2,3), of k v] no by blast
  then show ?case using member_changes [OF mr_step.hyps(2,3), of k] no same by (metis ext)
qed simp

end

definition template_rights :: "cfg_db \<Rightarrow> uint64 \<Rightarrow> uint64 \<Rightarrow> uint32 option" where
  "template_rights db k u = map_option al_PermMask (find_acl k u (db_tacls db))"

definition config_rights :: "cfg_db \<Rightarrow> uint64 \<Rightarrow> uint64 \<Rightarrow> uint32 option" where
  "config_rights db k u = map_option al_PermMask (find_acl k u (db_cacls db))"

lemma userHasPerm_member:
  "\<not> isAdmin c \<Longrightarrow> userHasPerm c acls k need failed \<longleftrightarrow>
     (\<exists>u. currentUserID c = Some u \<and> \<not> failed \<and> may (map_option al_PermMask (find_acl k u acls)) need)"
  by (auto simp: userHasPerm_def may_def split: option.splits)

lemma find_filter: "find P (filter Q xs) = (if \<forall>x \<in> set xs. P x \<longrightarrow> Q x then find P xs else find P (filter Q xs))"
proof -
  have "find P (filter Q xs) = find P xs" if "\<forall>x \<in> set xs. P x \<longrightarrow> Q x"
    using that by (induction xs) auto
  then show ?thesis by simp
qed

lemma find_acl_drop: "find_acl k u (filter (\<lambda>a. al_Object a \<noteq> j) acls) = (if j = k then None else find_acl k u acls)"
  unfolding find_acl_def by (induction acls) auto

lemma first_id_update: "(\<And>r. idf (f r) = idf r) \<Longrightarrow> first_id idf k (update_id idf j f rows) = (if j = k then map_option f (first_id idf k rows) else first_id idf k rows)"
  unfolding first_id_def update_id_def by (induction rows) auto

lemma first_id_delete: "first_id idf k (delete_id idf j rows) = (if j = k then None else first_id idf k rows)"
  unfolding first_id_def delete_id_def by (induction rows) auto

lemma first_id_append: "first_id idf k (rows @ [r]) = (case first_id idf k rows of Some x \<Rightarrow> Some x | None \<Rightarrow> if idf r = k then Some r else None)"
  unfolding first_id_def by (induction rows) auto

lemma adminHandler_member: "\<not> isAdmin c \<Longrightarrow> fst (adminHandler c s r) = s"
  by (auto simp: adminHandler_def isAdmin_def split: option.splits)

text \<open>What a request of a member can do to the tables.\<close>

named_theorems table_simps "the tables after a request"
named_theorems changes_intros "the state a handler leaves, branch by branch"

text \<open>A handler leaves the state \<open>s\<close> as it is, or one of the states of \<open>S\<close>.\<close>

definition changes :: "'s \<Rightarrow> 's set \<Rightarrow> 's \<times> 'a \<Rightarrow> bool" where
  "changes s S out \<longleftrightarrow> fst out = s \<or> fst out \<in> S"

lemma changes_same [changes_intros]: "changes s S (s, r)"
  by (simp add: changes_def)

lemma changes_if [changes_intros]: "(b \<Longrightarrow> changes s S p) \<Longrightarrow> (\<not> b \<Longrightarrow> changes s S q) \<Longrightarrow> changes s S (if b then p else q)"
  by simp

lemma changes_sum [changes_intros]:
  "(\<And>e. x = Inl e \<Longrightarrow> changes s S (f e)) \<Longrightarrow> (\<And>a. x = Inr a \<Longrightarrow> changes s S (g a)) \<Longrightarrow> changes s S (case x of Inl e \<Rightarrow> f e | Inr a \<Rightarrow> g a)"
  by (cases x) simp_all

lemma changes_option [changes_intros]:
  "(x = None \<Longrightarrow> changes s S f) \<Longrightarrow> (\<And>a. x = Some a \<Longrightarrow> changes s S (g a)) \<Longrightarrow> changes s S (case x of None \<Rightarrow> f | Some a \<Rightarrow> g a)"
  by (cases x) simp_all

lemma changes_to: "s' \<in> S \<Longrightarrow> changes s S (s', r)"
  by (simp add: changes_def)

lemma updateTemplate_effect:
  "changes db {db\<lparr>db_templates := update_id tp_ID k (template_updates sf content) (db_templates db)\<rparr> | k sf content.
     userHasTemplatePerm c db k PermWrite (fails 0)} (updateTemplate parse fails c ids f db)"
  unfolding updateTemplate_def Let_def by (intro changes_intros changes_to CollectI) blast+

lemma deleteTemplate_effect:
  "changes db {db\<lparr>db_tacls := filter (\<lambda>a. al_Object a \<noteq> k) (db_tacls db)\<rparr>\<lparr>db_templates := ts\<rparr> | k ts.
     userHasTemplatePerm c db k PermDelete (fails 0) \<and> ts \<in> {db_templates db, delete_id tp_ID k (db_templates db)}} (deleteTemplate fails c ids db)"
  unfolding deleteTemplate_def Let_def by (intro changes_intros changes_to CollectI; force)

lemma updateConfigItem_effect:
  "changes db {db\<lparr>db_configs := update_id cg_ID k (config_updates sf) (db_configs db)\<rparr> | k sf.
     userHasConfigPerm c db k PermWrite (fails 0)} (updateConfigItem fails c ids f db)"
  unfolding updateConfigItem_def Let_def by (intro changes_intros changes_to CollectI) blast+

lemma deleteConfigItem_effect:
  "changes db {db\<lparr>db_cacls := filter (\<lambda>a. al_Object a \<noteq> k) (db_cacls db)\<rparr>\<lparr>db_configs := gs\<rparr> | k gs.
     userHasConfigPerm c db k PermDelete (fails 0) \<and> gs \<in> {db_configs db, delete_id cg_ID k (db_configs db)}} (deleteConfigItem fails c ids db)"
  unfolding deleteConfigItem_def Let_def by (intro changes_intros changes_to CollectI; force)

lemma getRawConfig_effect: "changes db {db\<lparr>db_raw := r\<rparr> | r. True} (getRawConfig fails db)"
  unfolding getRawConfig_def ensureRawConfigRow_def by (intro changes_intros changes_to) blast

lemma template_rights_simps [table_simps]:
  "template_rights (db\<lparr>db_tacls := filter (\<lambda>a. al_Object a \<noteq> j) (db_tacls db)\<rparr>) k u = (if j = k then None else template_rights db k u)"
  "template_rights (db\<lparr>db_templates := ts\<rparr>) = template_rights db" "template_rights (db\<lparr>db_configs := gs\<rparr>) = template_rights db"
  "template_rights (db\<lparr>db_cacls := acls\<rparr>) = template_rights db" "template_rights (db\<lparr>db_raw := r\<rparr>) = template_rights db"
  by (auto simp: template_rights_def find_acl_drop fun_eq_iff)

lemma config_rights_simps [table_simps]:
  "config_rights (db\<lparr>db_cacls := filter (\<lambda>a. al_Object a \<noteq> j) (db_cacls db)\<rparr>) k u = (if j = k then None else config_rights db k u)"
  "config_rights (db\<lparr>db_templates := ts\<rparr>) = config_rights db" "config_rights (db\<lparr>db_configs := gs\<rparr>) = config_rights db"
  "config_rights (db\<lparr>db_tacls := acls\<rparr>) = config_rights db" "config_rights (db\<lparr>db_raw := r\<rparr>) = config_rights db"
  by (auto simp: config_rights_def find_acl_drop fun_eq_iff)

lemma id_kept: "tp_ID (template_updates sf content t) = tp_ID t" "cg_ID (config_updates gf g) = cg_ID g"
  by (simp_all add: template_updates_def config_updates_def)

text \<open>A request of a member leaves the database as it is, or is one of six changes, for each of which it has the right.\<close>

lemma member_step:
  assumes "cfg_step parse zd c db db'" and "\<not> isAdmin c"
  obtains "db' = db"
  | r where "db' = db\<lparr>db_raw := r\<rparr>"
  | k u sf content where "currentUserID c = Some u" "may (template_rights db k u) PermWrite"
      "db' = db\<lparr>db_templates := update_id tp_ID k (template_updates sf content) (db_templates db)\<rparr>"
  | k u ts where "currentUserID c = Some u" "may (template_rights db k u) PermDelete" "ts \<in> {db_templates db, delete_id tp_ID k (db_templates db)}"
      "db' = db\<lparr>db_tacls := filter (\<lambda>a. al_Object a \<noteq> k) (db_tacls db)\<rparr>\<lparr>db_templates := ts\<rparr>"
  | k u gf where "currentUserID c = Some u" "may (config_rights db k u) PermWrite"
      "db' = db\<lparr>db_configs := update_id cg_ID k (config_updates gf) (db_configs db)\<rparr>"
  | k u gs where "currentUserID c = Some u" "may (config_rights db k u) PermDelete" "gs \<in> {db_configs db, delete_id cg_ID k (db_configs db)}"
      "db' = db\<lparr>db_cacls := filter (\<lambda>a. al_Object a \<noteq> k) (db_cacls db)\<rparr>\<lparr>db_configs := gs\<rparr>"
  using assms(1)
proof cases
  case (cs_update_template fails ids f)
  then show ?thesis using updateTemplate_effect [of db c fails parse ids f] that(1,3)
    unfolding changes_def userHasTemplatePerm_def userHasPerm_member [OF assms(2)] template_rights_def [symmetric] by blast
next
  case (cs_delete_template fails ids)
  then show ?thesis using deleteTemplate_effect [of db c fails ids] that(1,4)
    unfolding changes_def userHasTemplatePerm_def userHasPerm_member [OF assms(2)] template_rights_def [symmetric] by blast
next
  case (cs_update_config fails ids g)
  then show ?thesis using updateConfigItem_effect [of db c fails ids g] that(1,5)
    unfolding changes_def userHasConfigPerm_def userHasPerm_member [OF assms(2)] config_rights_def [symmetric] by blast
next
  case (cs_delete_config fails ids)
  then show ?thesis using deleteConfigItem_effect [of db c fails ids] that(1,6)
    unfolding changes_def userHasConfigPerm_def userHasPerm_member [OF assms(2)] config_rights_def [symmetric] by blast
next
  case (cs_raw fails)
  then show ?thesis using getRawConfig_effect [of db fails] that(1,2) unfolding changes_def by blast
qed (rule that(1), simp only: adminHandler_member [OF assms(2)])+

interpretation templates: guarded_objects "cfg_step parse zd" "\<lambda>db k. first_id tp_ID k (db_templates db)" template_rights
proof
  fix c and db db' :: cfg_db and k
  assume step: "cfg_step parse zd c db db'" "\<not> isAdmin c"
  show "\<exists>u. currentUserID c = Some u \<and> (may (template_rights db k u) PermWrite \<or> may (template_rights db k u) PermDelete)"
    if "first_id tp_ID k (db_templates db') \<noteq> first_id tp_ID k (db_templates db)"
    using step by (cases rule: member_step) (use that in \<open>auto simp: first_id_update id_kept first_id_delete split: if_splits\<close>)
  show "template_rights db' k v = None \<and> (\<exists>u. currentUserID c = Some u \<and> may (template_rights db k u) PermDelete)"
    if "template_rights db' k v \<noteq> template_rights db k v" for v
    using step by (cases rule: member_step) (use that in \<open>auto simp: table_simps split: if_splits\<close>)
qed

interpretation configs: guarded_objects "cfg_step parse zd" "\<lambda>db k. first_id cg_ID k (db_configs db)" config_rights
proof
  fix c and db db' :: cfg_db and k
  assume step: "cfg_step parse zd c db db'" "\<not> isAdmin c"
  show "\<exists>u. currentUserID c = Some u \<and> (may (config_rights db k u) PermWrite \<or> may (config_rights db k u) PermDelete)"
    if "first_id cg_ID k (db_configs db') \<noteq> first_id cg_ID k (db_configs db)"
    using step by (cases rule: member_step) (use that in \<open>auto simp: first_id_update id_kept first_id_delete split: if_splits\<close>)
  show "config_rights db' k v = None \<and> (\<exists>u. currentUserID c = Some u \<and> may (config_rights db k u) PermDelete)"
    if "config_rights db' k v \<noteq> config_rights db k v" for v
    using step by (cases rule: member_step) (use that in \<open>auto simp: table_simps split: if_splits\<close>)
qed

text \<open>C5: Requests of members can change a template or a configuration, or the rights to it, only if one of them has the right to
  write or to delete it.\<close>

theorem members_confined:
  assumes "member_run (cfg_step parse zd) U db db'"
  shows "(\<forall>k. (\<forall>u \<in> U. \<not> may (template_rights db k u) PermWrite \<and> \<not> may (template_rights db k u) PermDelete) \<longrightarrow>
      first_id tp_ID k (db_templates db') = first_id tp_ID k (db_templates db) \<and> template_rights db' k = template_rights db k) \<and>
    (\<forall>k. (\<forall>u \<in> U. \<not> may (config_rights db k u) PermWrite \<and> \<not> may (config_rights db k u) PermDelete) \<longrightarrow>
      first_id cg_ID k (db_configs db') = first_id cg_ID k (db_configs db) \<and> config_rights db' k = config_rights db k)"
  using templates.confined [OF assms] configs.confined [OF assms] by blast

lemma config_meta_vars: "cm_VarsOverride (config_meta g dvs vars) = vars"
  by (simp add: config_meta_def)


subsection \<open>Keys of the tables\<close>

definition acls_keyed :: "acl_row list \<Rightarrow> bool" where
  "acls_keyed acls \<longleftrightarrow> distinct (map (\<lambda>a. (al_Object a, al_UserID a)) acls) \<and> distinct (map al_ID acls)"

definition rows_keyed :: "('r \<Rightarrow> uint64) \<Rightarrow> 'r list \<Rightarrow> bool" where
  "rows_keyed idf rows \<longleftrightarrow> distinct (map idf rows) \<and> 0 \<notin> idf ` set rows"

definition cfg_keyed :: "cfg_db \<Rightarrow> bool" where
  "cfg_keyed db \<longleftrightarrow> rows_keyed tp_ID (db_templates db) \<and> rows_keyed cg_ID (db_configs db) \<and> acls_keyed (db_tacls db) \<and> acls_keyed (db_cacls db)"

lemma rows_keyed_append: "rows_keyed idf rows \<Longrightarrow> fresh_id idf (idf r) rows \<Longrightarrow> rows_keyed idf (rows @ [r])"
  by (auto simp: rows_keyed_def fresh_id_def)

lemma map_update_id: "(\<And>r. idf (f r) = idf r) \<Longrightarrow> map idf (update_id jdf k f rows) = map idf rows"
  by (simp add: update_id_def)

lemma rows_keyed_update: "(\<And>r. idf (f r) = idf r) \<Longrightarrow> rows_keyed idf (update_id idf k f rows) \<longleftrightarrow> rows_keyed idf rows"
  unfolding rows_keyed_def list.set_map [symmetric] by (simp only: map_update_id)

lemma rows_keyed_delete: "rows_keyed idf rows \<Longrightarrow> rows_keyed idf (delete_id idf k rows)"
  by (auto simp: rows_keyed_def delete_id_def distinct_map inj_on_def)

lemma acls_keyed_filter: "acls_keyed acls \<Longrightarrow> acls_keyed (filter P acls)"
  by (auto simp: acls_keyed_def distinct_map inj_on_def)

lemma find_acl_None: "find_acl k u acls = None \<longleftrightarrow> (k, u) \<notin> (\<lambda>a. (al_Object a, al_UserID a)) ` set acls"
  by (auto simp: find_acl_def find_None_iff)

lemma acls_keyed_upsert:
  assumes "acls_keyed acls" and "fresh_id al_ID k acls"
  shows "acls_keyed (fst (upsert_acl fails k obj uid m acls))"
proof (cases "find_acl obj uid acls")
  case None
  then have "(obj, uid) \<notin> (\<lambda>a. (al_Object a, al_UserID a)) ` set acls" by (simp add: find_acl_None)
  then show ?thesis using assms None by (auto simp: upsert_acl_def acls_keyed_def fresh_id_def)
next
  case (Some a)
  have "acls_keyed (update_id al_ID (al_ID a) (\<lambda>r. r\<lparr>al_PermMask := m\<rparr>) acls)"
    using assms(1) unfolding acls_keyed_def by (simp add: map_update_id)
  then show ?thesis using assms(1) Some by (simp add: upsert_acl_def)
qed

lemma createTemplate_effect:
  "changes db {db\<lparr>db_templates := db_templates db @ [t]\<rparr> | t. tp_ID t = k} (createTemplate parse fails k c f db)"
  unfolding createTemplate_def Let_def by (intro changes_intros changes_to CollectI) auto

lemma createConfig_effect:
  "changes db {db\<lparr>db_configs := db_configs db @ [g]\<rparr> | g. cg_ID g = k} (createConfig zd fails k c f db)"
  unfolding createConfig_def Let_def by (intro changes_intros changes_to CollectI) auto

lemma upsertTemplateACL_effect:
  "changes db {db\<lparr>db_tacls := fst (upsert_acl fails k tid uid m (db_tacls db))\<rparr> | tid uid m. True} (upsertTemplateACL fails k ids users sf db)"
  unfolding upsertTemplateACL_def case_prod_beta Let_def by (intro changes_intros changes_to CollectI) blast

lemma upsertConfigACL_effect:
  "changes db {db\<lparr>db_cacls := fst (upsert_acl fails k cid uid m (db_cacls db))\<rparr> | cid uid m. True} (upsertConfigACL fails k ids users sf db)"
  unfolding upsertConfigACL_def case_prod_beta Let_def by (intro changes_intros changes_to CollectI) blast

lemma deleteTemplateACL_effect: "changes db {db\<lparr>db_tacls := filter P (db_tacls db)\<rparr> | P. True} (deleteTemplateACL fails ids users db)"
  unfolding deleteTemplateACL_def by (intro changes_intros changes_to CollectI) blast

lemma deleteConfigACL_effect: "changes db {db\<lparr>db_cacls := filter P (db_cacls db)\<rparr> | P. True} (deleteConfigACL fails ids users db)"
  unfolding deleteConfigACL_def by (intro changes_intros changes_to CollectI) blast

lemma putRawConfig_effect: "changes db {db\<lparr>db_raw := r\<rparr> | r. True} (putRawConfig fails c body db)"
proof -
  have same: "db_raw db = None \<Longrightarrow> \<exists>r. db = db\<lparr>db_raw := r\<rparr>" by (intro exI [of _ None]) simp
  show ?thesis
    unfolding changes_def putRawConfig_def ensureRawConfigRow_def Let_def using same
    by (cases "db_raw db") auto
qed

lemma changes_admin: "changes db S r \<Longrightarrow> changes db S (adminHandler c db r)"
  by (auto simp: adminHandler_def changes_def split: option.split)

lemma changes_keyed: "changes db S out \<Longrightarrow> cfg_keyed db \<Longrightarrow> (\<And>x. x \<in> S \<Longrightarrow> cfg_keyed x) \<Longrightarrow> cfg_keyed (fst out)"
  by (auto simp: changes_def)

lemma cfg_step_keyed:
  assumes "cfg_step parse zd c db db'" and "cfg_keyed db"
  shows "cfg_keyed db'"
  using assms(1)
proof cases
  case (cs_create_template k fails f)
  show ?thesis unfolding cs_create_template(1)
    by (rule changes_keyed [OF changes_admin [OF createTemplate_effect] assms(2)]) (use assms(2) cs_create_template in \<open>auto simp: cfg_keyed_def rows_keyed_append\<close>)
next
  case (cs_update_template fails ids f)
  show ?thesis unfolding cs_update_template(1)
    by (rule changes_keyed [OF updateTemplate_effect assms(2)]) (use assms(2) cs_update_template in \<open>auto simp: cfg_keyed_def rows_keyed_update id_kept\<close>)
next
  case (cs_delete_template fails ids)
  show ?thesis unfolding cs_delete_template(1)
    by (rule changes_keyed [OF deleteTemplate_effect assms(2)]) (use assms(2) cs_delete_template in \<open>auto simp: cfg_keyed_def rows_keyed_delete acls_keyed_filter\<close>)
next
  case (cs_template_acl k fails ids users tf)
  show ?thesis unfolding cs_template_acl(1)
    by (rule changes_keyed [OF changes_admin [OF upsertTemplateACL_effect] assms(2)]) (use assms(2) cs_template_acl in \<open>auto simp: cfg_keyed_def acls_keyed_upsert\<close>)
next
  case (cs_drop_template_acl fails ids users)
  show ?thesis unfolding cs_drop_template_acl(1)
    by (rule changes_keyed [OF changes_admin [OF deleteTemplateACL_effect] assms(2)]) (use assms(2) cs_drop_template_acl in \<open>auto simp: cfg_keyed_def acls_keyed_filter\<close>)
next
  case (cs_create_config k fails g)
  show ?thesis unfolding cs_create_config(1)
    by (rule changes_keyed [OF changes_admin [OF createConfig_effect] assms(2)]) (use assms(2) cs_create_config in \<open>auto simp: cfg_keyed_def rows_keyed_append\<close>)
next
  case (cs_update_config fails ids g)
  show ?thesis unfolding cs_update_config(1)
    by (rule changes_keyed [OF updateConfigItem_effect assms(2)]) (use assms(2) cs_update_config in \<open>auto simp: cfg_keyed_def rows_keyed_update id_kept\<close>)
next
  case (cs_delete_config fails ids)
  show ?thesis unfolding cs_delete_config(1)
    by (rule changes_keyed [OF deleteConfigItem_effect assms(2)]) (use assms(2) cs_delete_config in \<open>auto simp: cfg_keyed_def rows_keyed_delete acls_keyed_filter\<close>)
next
  case (cs_config_acl k fails ids users af)
  show ?thesis unfolding cs_config_acl(1)
    by (rule changes_keyed [OF changes_admin [OF upsertConfigACL_effect] assms(2)]) (use assms(2) cs_config_acl in \<open>auto simp: cfg_keyed_def acls_keyed_upsert\<close>)
next
  case (cs_drop_config_acl fails ids users)
  show ?thesis unfolding cs_drop_config_acl(1)
    by (rule changes_keyed [OF changes_admin [OF deleteConfigACL_effect] assms(2)]) (use assms(2) cs_drop_config_acl in \<open>auto simp: cfg_keyed_def acls_keyed_filter\<close>)
next
  case (cs_raw fails)
  show ?thesis unfolding cs_raw(1)
    by (rule changes_keyed [OF getRawConfig_effect assms(2)]) (use assms(2) cs_raw in \<open>auto simp: cfg_keyed_def\<close>)
next
  case (cs_put_raw fails body)
  show ?thesis unfolding cs_put_raw(1)
    by (rule changes_keyed [OF changes_admin [OF putRawConfig_effect] assms(2)]) (use assms(2) cs_put_raw in \<open>auto simp: cfg_keyed_def\<close>)
qed

lemma cfg_reach_keyed: "cfg_reach parse zd db \<Longrightarrow> cfg_keyed db"
proof (induction rule: cfg_reach.induct)
  case start
  then show ?case by (simp add: cfg_keyed_def rows_keyed_def acls_keyed_def)
qed (rule cfg_step_keyed)

subsection \<open>Listing and reading\<close>

lemma parse_id_loop_digits: "parse_id_loop (of_nat n) s = map_option of_nat (digits_val n s)"
proof (induction s arbitrary: n)
  case (Cons ch s)
  have "(of_nat n * 10 + of_nat d :: uint64) = of_nat (n * 10 + d)" for d by simp
  then show ?case using Cons.IH by (simp split: option.split del: of_nat_add of_nat_mult)
qed simp

text \<open>Numbers in paths are read modulo the width of a word.\<close>

lemma path_number: "of_nat n \<noteq> (0 :: uint64) \<Longrightarrow> parseUintParam key (show_nat n) = Inr (of_nat n) \<and> parseTemplateID (show_nat n) = Inr (of_nat n)"
  using parse_id_loop_digits [of 0 "show_nat n"] by (simp add: parseUintParam_def parseTemplateID_def digits_val_show show_nat_nonempty)

lemma path_id: "k \<noteq> 0 \<Longrightarrow> parseUintParam key (show_uint k) = Inr k \<and> parseTemplateID (show_uint k) = Inr k"
  using path_number [of "unat k" key] by (simp add: show_uint_def)

lemma parse_nonzero: "parseTemplateID s = Inr k \<Longrightarrow> k \<noteq> 0" "parseUintParam key s = Inr k \<Longrightarrow> k \<noteq> 0"
  by (auto simp: parseTemplateID_def parseUintParam_def split: option.splits if_splits)

text \<open>Two numbers of a path a word apart name the same row.\<close>

lemma path_number_wraps: "parseUintParam ''id'' (show_nat (2 ^ 64 + 1)) = parseUintParam ''id'' (show_nat 1)"
  using path_number [of 1 "''id''"] path_number [of "2 ^ 64 + 1" "''id''"] by simp

lemma Has_ReadMeta: "Has m PermReadMeta \<longleftrightarrow> and m PermReadMeta \<noteq> 0"
  by (simp add: Has_def PermReadMeta_def and_one_eq mod_2_eq_odd)

lemma filter_acl:
  assumes "distinct (map (\<lambda>a. (al_Object a, al_UserID a)) acls)"
  shows "filter (\<lambda>a. al_Object a = k \<and> al_UserID a = u \<and> P a) acls =
    (case find_acl k u acls of None \<Rightarrow> [] | Some a \<Rightarrow> if P a then [a] else [])"
  using assms
proof (induction acls)
  case (Cons a acls)
  have "filter (\<lambda>a. al_Object a = k \<and> al_UserID a = u \<and> P a) acls = []" if "al_Object a = k" "al_UserID a = u"
    using Cons.prems that by (auto simp: filter_empty_conv image_iff)
  then show ?case using Cons by (auto simp: find_acl_def)
qed (simp add: find_acl_def)

lemma join_readable:
  assumes "acls_keyed acls"
  shows "join_acls idf acls u PermReadMeta rows = filter (\<lambda>r. may (map_option al_PermMask (find_acl (idf r) u acls)) PermReadMeta) rows"
proof -
  have "map (\<lambda>a. r) (filter (\<lambda>a. al_Object a = idf r \<and> al_UserID a = u \<and> and (al_PermMask a) PermReadMeta \<noteq> 0) acls) =
      (if may (map_option al_PermMask (find_acl (idf r) u acls)) PermReadMeta then [r] else [])" for r
    using assms unfolding acls_keyed_def
    by (simp only: filter_acl [where P = "\<lambda>a. and (al_PermMask a) PermReadMeta \<noteq> 0"])
      (simp add: may_def Has_ReadMeta split: option.split)
  then show ?thesis unfolding join_acls_def by (induction rows) auto
qed

lemma first_id_keyed: "rows_keyed idf rows \<Longrightarrow> first_id idf k rows = Some r \<longleftrightarrow> r \<in> set rows \<and> idf r = k"
  unfolding first_id_def rows_keyed_def by (induction rows) (auto simp: image_iff)

lemma order_id_desc_props: "set (order_id_desc idf rows) = set rows" "distinct rows \<Longrightarrow> distinct (order_id_desc idf rows)"
  by (simp_all add: order_id_desc_def distinct_sort)


subsection \<open>Rights granted and taken\<close>

lemma find_acl_append: "find_acl k u (acls @ [a]) = (case find_acl k u acls of Some b \<Rightarrow> Some b
    | None \<Rightarrow> if al_Object a = k \<and> al_UserID a = u then Some a else None)"
  unfolding find_acl_def by (induction acls) auto

lemma upsert_acl_rights:
  assumes "acls_keyed acls" and "upsert_acl fails k obj uid m acls = (acls', Inr ())"
  shows "map_option al_PermMask (find_acl j v acls') = (if j = obj \<and> v = uid then Some m else map_option al_PermMask (find_acl j v acls))"
proof (cases "find_acl obj uid acls")
  case None
  then have "acls' = acls @ [\<lparr>al_ID = k, al_Object = obj, al_UserID = uid, al_PermMask = m\<rparr>]"
    using assms(2) by (auto simp: upsert_acl_def split: if_splits)
  then show ?thesis using None by (auto simp: find_acl_append split: option.split)
next
  case (Some a)
  then have acls': "acls' = update_id al_ID (al_ID a) (\<lambda>r. r\<lparr>al_PermMask := m\<rparr>) acls"
    using assms(2) by (auto simp: upsert_acl_def split: if_splits)
  have a: "a \<in> set acls" "al_Object a = obj" "al_UserID a = uid" using Some by (auto simp: find_acl_def find_Some_iff)
  have found: "find_acl j v acls' = map_option (\<lambda>r. if al_ID r = al_ID a then r\<lparr>al_PermMask := m\<rparr> else r) (find_acl j v acls)"
    unfolding acls' find_acl_def update_id_def by (induction acls) auto
  have "al_ID b = al_ID a \<longleftrightarrow> j = obj \<and> v = uid" if "find_acl j v acls = Some b" for b
  proof -
    have b: "b \<in> set acls" "al_Object b = j" "al_UserID b = v" using that by (auto simp: find_acl_def find_Some_iff)
    show ?thesis
    proof
      assume "al_ID b = al_ID a"
      then have "b = a" using a(1) b(1) assms(1) by (auto simp: acls_keyed_def distinct_map inj_on_def)
      then show "j = obj \<and> v = uid" using a b by simp
    next
      assume "j = obj \<and> v = uid"
      then show "al_ID b = al_ID a" using that Some by simp
    qed
  qed
  then show ?thesis using Some found by (cases "find_acl j v acls") auto
qed

text \<open>Granting rights sets exactly the mask of that user for that object, taking them removes exactly it.\<close>

lemma granted_rights_are_exact:
  assumes "cfg_reach parse zd db"
  shows "(upsertTemplateACL fails k ids users tf db = (db', Inr ()) \<longrightarrow> (\<exists>tid uid m. parseTemplateID ids = Inr tid \<and> computePermMask tf = Inr m \<and>
      parseUintParam ''userId'' users = Inr uid \<and> (\<forall>j v. template_rights db' j v = (if j = tid \<and> v = uid then Some m else template_rights db j v)))) \<and>
    (deleteTemplateACL fails ids users db = (db', Inr ()) \<longrightarrow> (\<exists>tid uid. parseTemplateID ids = Inr tid \<and>
      parseUintParam ''userId'' users = Inr uid \<and> (\<forall>j v. template_rights db' j v = (if j = tid \<and> v = uid then None else template_rights db j v))))"
proof -
  have keyed: "acls_keyed (db_tacls db)" using cfg_reach_keyed [OF assms] by (simp add: cfg_keyed_def)
  have drop: "find_acl j v (filter (\<lambda>a. al_Object a = tid \<longrightarrow> al_UserID a \<noteq> uid) acls) = (if j = tid \<and> v = uid then None else find_acl j v acls)"
    for j v tid uid acls unfolding find_acl_def by (induction acls) auto
  have upsert: "template_rights db' j v = (if j = tid \<and> v = uid then Some m else template_rights db j v)"
    if "upsert_acl fails k tid uid m (db_tacls db) = (acls, Inr ())" "db' = db\<lparr>db_tacls := acls\<rparr>" for tid uid m acls j v
    using upsert_acl_rights [OF keyed that(1)] that(2) by (simp add: template_rights_def)
  show ?thesis
  proof (intro conjI impI)
    assume "upsertTemplateACL fails k ids users tf db = (db', Inr ())"
    then show "\<exists>tid uid m. parseTemplateID ids = Inr tid \<and> computePermMask tf = Inr m \<and> parseUintParam ''userId'' users = Inr uid \<and>
        (\<forall>j v. template_rights db' j v = (if j = tid \<and> v = uid then Some m else template_rights db j v))"
      using upsert by (fastforce simp: upsertTemplateACL_def Let_def split: sum.splits prod.splits)
  next
    assume "deleteTemplateACL fails ids users db = (db', Inr ())"
    then show "\<exists>tid uid. parseTemplateID ids = Inr tid \<and> parseUintParam ''userId'' users = Inr uid \<and>
        (\<forall>j v. template_rights db' j v = (if j = tid \<and> v = uid then None else template_rights db j v))"
      by (auto simp: deleteTemplateACL_def template_rights_def drop split: sum.splits if_splits)
  qed
qed

subsection \<open>Variables\<close>

text \<open>What a tree uses outside control structures.\<close>

fun used_vars :: "tnode \<Rightarrow> detected_var set" where
  "used_vars (ListNode ns) = (\<Union>n \<in> set ns. used_vars n)" |
  "used_vars (ActionNode p) = (case p of None \<Rightarrow> {} | Some q \<Rightarrow> used_vars q)" |
  "used_vars (PipeNode cmds) = (\<Union>n \<in> set cmds. used_vars n)" |
  "used_vars (CommandNode args) = (case args of IdentifierNode fn # StringNode key # _ \<Rightarrow>
     if fn = ''v'' \<and> key \<noteq> [] then {\<lparr>dv_Key = key, dv_Scope = ''node''\<rparr>}
     else if fn = ''c'' \<and> key \<noteq> [] then {\<lparr>dv_Key = key, dv_Scope = ''config''\<rparr>} else {} | _ \<Rightarrow> {})" |
  "used_vars _ = {}"

lemma detect_command_spec: "set (detect_command args out) = set out \<union> used_vars (CommandNode args)"
  "distinct out \<Longrightarrow> distinct (detect_command args out)"
  by (auto simp: detect_command_def Let_def split: list.split tnode.split)

lemma fold_walk:
  assumes "\<And>n out. n \<in> set ns \<Longrightarrow> set (walk n out) = set out \<union> used_vars n \<and> (distinct out \<longrightarrow> distinct (walk n out))"
  shows "set (fold walk ns out) = set out \<union> (\<Union>n \<in> set ns. used_vars n) \<and> (distinct out \<longrightarrow> distinct (fold walk ns out))"
  using assms by (induction ns arbitrary: out) auto

lemma walk_spec: "set (walk n out) = set out \<union> used_vars n \<and> (distinct out \<longrightarrow> distinct (walk n out))"
proof (induction n arbitrary: out)
  case (ListNode ns)
  then show ?case using fold_walk [of ns out] by simp
next
  case (ActionNode p)
  then show ?case by (cases p) auto
next
  case (PipeNode cmds)
  then show ?case using fold_walk [of cmds out] by simp
qed (simp_all add: detect_command_spec del: used_vars.simps(4))

text \<open>The variables found in a template are exactly those its commands name outside control structures, each once; a
  configuration is created only with a value for each of those that belong to the node.\<close>

lemma created_config_has_variables:
  assumes "detectTemplateVars parse content = Inr (tp_DetectedVars t)" and "parse content = Some (Some tree)"
    and "first_id tp_ID (kf_TemplateID f) (db_templates db) = Some t" and "createConfig zd fails k c f db = (db', Inr m)"
  shows "distinct (tp_DetectedVars t) \<and> set (tp_DetectedVars t) = used_vars tree \<and>
    (\<exists>vars. cm_VarsOverride m = Some vars \<and> (\<forall>v \<in> used_vars tree. dv_Scope v = ''node'' \<longrightarrow> map_of vars (dv_Key v) \<noteq> None))"
proof -
  have dv: "distinct (tp_DetectedVars t)" "set (tp_DetectedVars t) = used_vars tree"
    using assms(1,2) walk_spec [of tree "[]"] by (auto simp: detectTemplateVars_def)
  have nonempty: "dv_Key v \<noteq> []" if "v \<in> used_vars tree" for v
    using that by (induction tree) (auto split: option.splits list.splits tnode.splits if_splits)
  have "\<exists>vars. cm_VarsOverride m = Some vars \<and> validateVarsOverride vars (tp_DetectedVars t) = None"
    using assms(3,4) by (auto simp: createConfig_def normalizeConfigForm_def Let_def config_meta_def split: if_splits option.splits)
  then show ?thesis using dv nonempty
    by (fastforce simp: validateVarsOverride_def requiredNodeVars_def find_None_iff)
qed

text \<open>A user who may write a configuration can bind it to any template: neither the variables the new template needs nor the
  right to read it are asked for, and the answer shows its variables.\<close>

lemma config_retarget_is_unchecked:
  assumes "parseUintParam ''id'' ids = Inr k" and "userHasConfigPerm c db k PermWrite False"
    and "first_id cg_ID k (db_configs db) = Some g" and "first_id tp_ID tid (db_templates db) = Some t" and "tid \<noteq> 0"
  shows "\<exists>db' m. updateConfigItem (\<lambda>_. False) c ids \<lparr>kf_Name = [], kf_TemplateID = tid, kf_Enabled = None, kf_VarsOverride = None\<rparr> db = (db', Inr (Some m)) \<and>
    first_id cg_ID k (db_configs db') = Some (g\<lparr>cg_TemplateID := tid\<rparr>) \<and> cm_DetectedVars m = tp_DetectedVars t"
proof -
  define sf where "sf = \<lparr>kf_Name = [], kf_TemplateID = tid, kf_Enabled = None, kf_VarsOverride = None\<rparr>"
  have sf: "normalizeConfigForm sf = sf" "kf_Name sf = []" "kf_TemplateID sf = tid" "kf_VarsOverride sf = None" "kf_Enabled sf = None"
    by (simp_all add: sf_def normalizeConfigForm_def TrimSpace_def)
  have "first_id cg_ID k (update_id cg_ID k (config_updates sf) (db_configs db)) = Some (g\<lparr>cg_TemplateID := tid\<rparr>)"
    using assms(3,5) by (simp add: first_id_update id_kept config_updates_def sf_def)
  then show ?thesis using assms unfolding sf_def [symmetric] by (simp add: updateConfigItem_def sf Let_def config_meta_def)
qed

text \<open>A configuration that is created as disabled is enabled, when the database library stores the default of a column for a
  zero value.\<close>

lemma disabled_config_is_enabled:
  assumes "createConfig True fails k c f db = (db', Inr m)" and "kf_Enabled f = Some False" and "fresh_id cg_ID k (db_configs db)"
  shows "cm_Enabled m \<and> (\<exists>g. first_id cg_ID k (db_configs db') = Some g \<and> cg_Enabled g)"
proof -
  have none: "first_id cg_ID k (db_configs db) = None" using assms(3) by (auto simp: fresh_id_def first_id_def find_None_iff)
  show ?thesis
    using assms(1,2) none by (auto simp: createConfig_def normalizeConfigForm_def Let_def config_meta_def stored_bool_def first_id_append
        split: if_splits option.splits)
qed

subsection \<open>Examples\<close>

definition some_parse :: tpl_parser where
  "some_parse s = Some (Some (ListNode [OtherNode, ActionNode (Some (PipeNode [CommandNode [IdentifierNode ''v'', StringNode s]]))]))"

definition some_admin :: user where
  "some_admin = \<lparr>u_ID = 1, u_Username = ''a'', u_Role = RoleAdmin, u_AgentSecret = [], u_RejectPassword = False\<rparr>"

definition some_reader :: user where
  "some_reader = \<lparr>u_ID = 5, u_Username = ''m'', u_Role = RoleMember, u_AgentSecret = [], u_RejectPassword = False\<rparr>"

definition some_template :: "uint64 \<Rightarrow> string \<Rightarrow> string \<Rightarrow> tpl_row" where
  "some_template k name key = \<lparr>tp_ID = k, tp_Name = name, tp_Type = ''script'', tp_ContentRaw = key, tp_VarsSchema = [],
     tp_DetectedVars = [\<lparr>dv_Key = key, dv_Scope = ''node''\<rparr>]\<rparr>"

definition some_config :: cfg_row where
  "some_config = \<lparr>cg_ID = 1, cg_Name = ''c'', cg_TemplateID = 1, cg_VarsOverride = [(''K'', AnyNil)], cg_Enabled = True, cg_CreatedBy = 1\<rparr>"

definition some_config_form :: cfg_form where
  "some_config_form = \<lparr>kf_Name = ''c'', kf_TemplateID = 1, kf_Enabled = Some False, kf_VarsOverride = Some [(''K'', AnyNil)]\<rparr>"

definition some_acl :: "uint64 \<Rightarrow> uint32 \<Rightarrow> acl_row" where
  "some_acl obj m = \<lparr>al_ID = 1, al_Object = obj, al_UserID = 5, al_PermMask = m\<rparr>"

definition some_cfg_db :: "nat \<Rightarrow> cfg_db" where
  "some_cfg_db n = \<lparr>db_templates = take n [some_template 1 ''t'' ''K'', some_template 2 ''u'' ''L''], db_tacls = (if n \<ge> 3 then [some_acl 1 1] else []),
     db_configs = (if n \<ge> 4 then [some_config] else []), db_cacls = (if n \<ge> 5 then [some_acl 1 5] else []), db_raw = None\<rparr>"

definition no_failure :: "nat \<Rightarrow> bool" where "no_failure n = False"

lemmas some_defs = some_cfg_db_def some_template_def some_config_def some_config_form_def some_acl_def some_admin_def some_reader_def no_failure_def
  some_parse_def isAdmin_def IsAdmin_def RoleAdmin_def RoleMember_def currentUserID_def

lemmas text_defs = TrimSpace_def go_space_def tmplNameRe_def cfgNameRe_def name_char_def digit_val_def

lemma some_templates:
  "createTemplate some_parse no_failure 1 (Some some_admin) \<lparr>uf_Name = ''t'', uf_Type = ''script'', uf_ContentRaw = ''K'', uf_VarsSchema = []\<rparr> (some_cfg_db 0) =
     (some_cfg_db 1, Inr (toTemplateMeta (some_template 1 ''t'' ''K'') True))"
  "createTemplate some_parse no_failure 2 (Some some_admin) \<lparr>uf_Name = ''u'', uf_Type = ''script'', uf_ContentRaw = ''L'', uf_VarsSchema = []\<rparr> (some_cfg_db 1) =
     (some_cfg_db 2, Inr (toTemplateMeta (some_template 2 ''u'' ''L'') True))"
  by (simp_all add: createTemplate_def validateTemplateForm_def detectTemplateVars_def detect_command_def some_defs text_defs Let_def)

lemma some_ids: "parseTemplateID ''1'' = Inr 1" "parseUintParam ''userId'' ''5'' = Inr 5" "parseUintParam ''id'' ''1'' = Inr 1"
  by (simp_all add: parseTemplateID_def parseUintParam_def digit_val_def)

lemma some_grant:
  "upsertTemplateACL no_failure 1 ''1'' ''5'' \<lparr>tf_PermMask = None, tf_ReadMeta = Some True, tf_ReadRaw = None, tf_Write = None, tf_Delete = None\<rparr> (some_cfg_db 2) =
     (some_cfg_db 3, Inr ())"
  "upsertConfigACL no_failure 1 ''1'' ''5'' \<lparr>gf_PermMask = Some 5, gf_ReadMeta = None, gf_ReadVars = None, gf_Write = None, gf_Delete = None\<rparr> (some_cfg_db 4) =
     (some_cfg_db 5, Inr ())"
  by (simp_all add: upsertTemplateACL_def upsertConfigACL_def computePermMask_def computeConfigPermMask_def mask_bit_def PermReadMeta_def
      upsert_acl_def find_acl_def some_ids some_defs)

lemma some_creation:
  "createConfig True no_failure 1 (Some some_admin) some_config_form (some_cfg_db 3) =
     (some_cfg_db 4, Inr (config_meta some_config [\<lparr>dv_Key = ''K'', dv_Scope = ''node''\<rparr>] (Some [(''K'', AnyNil)])))"
  by (simp add: createConfig_def normalizeConfigForm_def first_id_def validateVarsOverride_def requiredNodeVars_def stored_bool_def
      config_meta_def some_defs text_defs Let_def)

lemma adminHandler_admin: "adminHandler (Some some_admin) s r = r"
  by (simp add: adminHandler_def some_defs)

lemma some_cfg_reach: "cfg_reach some_parse True (some_cfg_db 5)"
proof -
  note steps = cs_create_template [where c = "Some some_admin" and fails = no_failure] cs_template_acl [where c = "Some some_admin" and fails = no_failure]
    cs_create_config [where c = "Some some_admin" and fails = no_failure] cs_config_acl [where c = "Some some_admin" and fails = no_failure]
  have fresh: "fresh_id tp_ID 1 (db_templates (some_cfg_db 0))" "fresh_id tp_ID 2 (db_templates (some_cfg_db 1))"
    "fresh_id al_ID 1 (db_tacls (some_cfg_db 2))" "fresh_id cg_ID 1 (db_configs (some_cfg_db 3))" "fresh_id al_ID 1 (db_cacls (some_cfg_db 4))"
    by (simp_all add: fresh_id_def some_defs)
  have "cfg_reach some_parse True (some_cfg_db 0)" using cfg_reach.start by (simp add: some_defs)
  then have "cfg_reach some_parse True (some_cfg_db 1)"
    using cfg_reach.step steps(1) [OF fresh(1), of some_parse] some_templates(1) by (metis adminHandler_admin fst_conv)
  then have "cfg_reach some_parse True (some_cfg_db 2)"
    using cfg_reach.step steps(1) [OF fresh(2), of some_parse] some_templates(2) by (metis adminHandler_admin fst_conv)
  then have "cfg_reach some_parse True (some_cfg_db 3)"
    using cfg_reach.step steps(2) [OF fresh(3)] some_grant(1) by (metis adminHandler_admin fst_conv)
  then have "cfg_reach some_parse True (some_cfg_db 4)"
    using cfg_reach.step steps(3) [OF fresh(4)] some_creation by (metis adminHandler_admin fst_conv)
  then show ?thesis
    using cfg_reach.step steps(4) [OF fresh(5)] some_grant(2) by (metis adminHandler_admin fst_conv)
qed

lemma some_reader_rights: "\<not> isAdmin (Some some_reader)" "currentUserID (Some some_reader) = Some 5"
  "template_rights (some_cfg_db 5) 1 5 = Some 1" "template_rights (some_cfg_db 5) 2 v = None"
  "config_rights (some_cfg_db 5) 1 5 = Some 5" "config_rights (some_cfg_db 5) 2 v = None"
  by (simp_all add: template_rights_def config_rights_def find_acl_def some_defs)

definition retarget :: cfg_form where
  "retarget = \<lparr>kf_Name = [], kf_TemplateID = 2, kf_Enabled = None, kf_VarsOverride = None\<rparr>"

definition retargeted :: cfg_db where
  "retargeted = fst (updateConfigItem no_failure (Some some_reader) ''1'' retarget (some_cfg_db 5))"

lemma some_member_run: "member_run (cfg_step some_parse True) {5} (some_cfg_db 5) retargeted"
  unfolding retargeted_def using some_reader_rights
  by (intro mr_step [OF mr_refl, where c = "Some some_reader"] cs_update_config) simp_all

theorem members_confined_witness:
  "first_id tp_ID 1 (db_templates retargeted) = first_id tp_ID 1 (db_templates (some_cfg_db 5)) \<and> template_rights retargeted 1 5 = Some 1"
  using conjunct1 [OF members_confined [OF some_member_run]] some_reader_rights by (simp add: may_def Has_def PermWrite_def PermDelete_def)



lemma granted_rights_are_exact_witness:
  "\<exists>db'. deleteTemplateACL no_failure ''1'' ''5'' (some_cfg_db 5) = (db', Inr ()) \<and> template_rights db' 1 5 = None"
proof -
  obtain db' where "deleteTemplateACL no_failure ''1'' ''5'' (some_cfg_db 5) = (db', Inr ())"
    by (simp add: deleteTemplateACL_def some_ids no_failure_def)
  then show ?thesis using granted_rights_are_exact [OF some_cfg_reach, of no_failure _ "''1''" "''5''"] by (fastforce simp: some_ids)
qed

lemma created_config_has_variables_witness:
  "set (tp_DetectedVars (some_template 1 ''t'' ''K'')) = {\<lparr>dv_Key = ''K'', dv_Scope = ''node''\<rparr>}"
proof -
  have "detectTemplateVars some_parse ''K'' = Inr (tp_DetectedVars (some_template 1 ''t'' ''K''))"
    by (simp add: detectTemplateVars_def detect_command_def some_defs Let_def)
  moreover have "first_id tp_ID (kf_TemplateID some_config_form) (db_templates (some_cfg_db 3)) = Some (some_template 1 ''t'' ''K'')"
    by (simp add: first_id_def some_defs)
  ultimately show ?thesis
    using created_config_has_variables [where tree = "the (the (some_parse ''K''))", OF _ _ _ some_creation] by (simp add: some_parse_def)
qed

lemma config_retarget_is_unchecked_witness:
  "\<exists>db' m. updateConfigItem (\<lambda>_. False) (Some some_reader) ''1'' retarget (some_cfg_db 5) = (db', Inr (Some m)) \<and>
     first_id cg_ID 1 (db_configs db') = Some (some_config\<lparr>cg_TemplateID := 2\<rparr>) \<and> cm_DetectedVars m = [\<lparr>dv_Key = ''L'', dv_Scope = ''node''\<rparr>] \<and>
     validateVarsOverride (cg_VarsOverride some_config) (cm_DetectedVars m) = Some ''missing var: L'' \<and>
     \<not> userHasTemplatePerm (Some some_reader) (some_cfg_db 5) 2 PermReadMeta False"
proof -
  have pre: "userHasConfigPerm (Some some_reader) (some_cfg_db 5) 1 PermWrite False" "\<not> userHasTemplatePerm (Some some_reader) (some_cfg_db 5) 2 PermReadMeta False"
    "first_id cg_ID 1 (db_configs (some_cfg_db 5)) = Some some_config" "first_id tp_ID 2 (db_templates (some_cfg_db 5)) = Some (some_template 2 ''u'' ''L'')"
    by (simp_all add: userHasConfigPerm_def userHasTemplatePerm_def userHasPerm_def find_acl_def Has_def PermWrite_def PermReadMeta_def first_id_def some_defs)
  have "validateVarsOverride (cg_VarsOverride some_config) (tp_DetectedVars (some_template 2 ''u'' ''L'')) = Some ''missing var: L''"
    by (simp add: validateVarsOverride_def requiredNodeVars_def some_defs)
  then show ?thesis
    using config_retarget_is_unchecked [OF some_ids(3) pre(1,3,4)] pre(2) unfolding retarget_def by (fastforce simp: some_template_def)
qed

lemma disabled_config_is_enabled_witness:
  "kf_Enabled some_config_form = Some False \<and> (\<exists>g. first_id cg_ID 1 (db_configs (some_cfg_db 4)) = Some g \<and> cg_Enabled g)"
  using disabled_config_is_enabled [OF some_creation] by (simp add: some_config_form_def fresh_id_def some_cfg_db_def)

end
