(* ===== verification/Config_Assign.thy ===== *)
theory Config_Assign
  imports Config_Access
begin

text \<open>
  The assignment of configurations to servers, groups of servers and tags (\<open>model/node_config_assignment.go\<close>,
  \<open>cmd/dashboard/controller/config_assignment.go\<close>) and the choice of the one that takes effect.

  The table is the list of its rows; \<open>fails\<close>, \<open>zd\<close> and the numbers of new rows are as for the configurations. A row is also
  what the handlers show of it. Times are in nanoseconds; the time of creation is left out.
\<close>

subsection \<open>Rows and forms\<close>

record asg_row =
  ag_ID :: uint64
  ag_ConfigID :: uint64
  ag_BatchID :: string
  ag_TargetType :: string
  ag_ServerID :: uint64
  ag_GroupID :: uint64
  ag_TagName :: string
  ag_Priority :: int
  ag_Enabled :: bool
  ag_CreatedBy :: uint64
  ag_UpdatedAt :: int

definition NodeConfigTargetServer :: string where "NodeConfigTargetServer = ''server''"
definition NodeConfigTargetGroup :: string where "NodeConfigTargetGroup = ''group''"
definition NodeConfigTargetTag :: string where "NodeConfigTargetTag = ''tag''"

lemmas target_defs = NodeConfigTargetServer_def NodeConfigTargetGroup_def NodeConfigTargetTag_def

record asg_form =
  sf_ConfigID :: uint64
  sf_TargetType :: string
  sf_ServerID :: uint64
  sf_GroupID :: uint64
  sf_TagName :: string
  sf_Priority :: "int option"
  sf_Enabled :: "bool option"

record bulk_form =
  bf_ConfigID :: uint64
  bf_Servers :: "uint64 list"
  bf_Groups :: "uint64 list"
  bf_Tags :: "string list"
  bf_Priority :: "int option"
  bf_Enabled :: "bool option"

definition normalizeTagName :: "string \<Rightarrow> string" where
  "normalizeTagName s = ToLower (TrimSpace s)"

definition tagNameRe :: "string \<Rightarrow> bool" where
  "tagNameRe s \<longleftrightarrow> 1 \<le> length s \<and> length s \<le> 128 \<and> list_all (\<lambda>ch. name_char ch \<or> ch = CHR '':'') s"

text \<open>The form with its target type trimmed and its tag normalised, or an error.\<close>

definition validateAssignment :: "asg_form \<Rightarrow> string + asg_form" where
  "validateAssignment f = (if sf_ConfigID f = 0 then Inl ''config_id is required''
     else let sf = f\<lparr>sf_TargetType := TrimSpace (sf_TargetType f)\<rparr>
       in if sf_TargetType sf = NodeConfigTargetServer then (if sf_ServerID sf = 0 then Inl ''server_id is required'' else Inr sf)
          else if sf_TargetType sf = NodeConfigTargetGroup then (if sf_GroupID sf = 0 then Inl ''group_id is required'' else Inr sf)
          else if sf_TargetType sf = NodeConfigTargetTag then
            (let sf1 = sf\<lparr>sf_TagName := normalizeTagName (sf_TagName sf)\<rparr>
             in if sf_TagName sf1 = [] \<or> \<not> tagNameRe (sf_TagName sf1) then Inl ''invalid tag_name'' else Inr sf1)
          else Inl ''invalid target_type'')"

subsection \<open>Writing\<close>

text \<open>The columns of the unique index.\<close>

definition asg_key :: "asg_row \<Rightarrow> uint64 \<times> string \<times> uint64 \<times> uint64 \<times> string" where
  "asg_key a = (ag_ConfigID a, ag_TargetType a, ag_ServerID a, ag_GroupID a, ag_TagName a)"

text \<open>One row of an insertion that updates four columns of the row it conflicts with.\<close>

definition upsert_row :: "asg_row \<Rightarrow> asg_row list \<Rightarrow> asg_row list" where
  "upsert_row a rows = (if asg_key a \<in> asg_key ` set rows
     then map (\<lambda>b. if asg_key b = asg_key a
       then b\<lparr>ag_BatchID := ag_BatchID a, ag_Priority := ag_Priority a, ag_Enabled := ag_Enabled a, ag_UpdatedAt := ag_UpdatedAt a\<rparr> else b) rows
     else rows @ [a])"

definition the_or :: "'a \<Rightarrow> 'a option \<Rightarrow> 'a" where
  "the_or d x = (case x of None \<Rightarrow> d | Some v \<Rightarrow> v)"

definition new_asg :: "bool \<Rightarrow> int \<Rightarrow> uint64 \<Rightarrow> string \<Rightarrow> user option \<Rightarrow> asg_form \<Rightarrow> asg_row" where
  "new_asg zd now k batch c sf = \<lparr>ag_ID = k, ag_ConfigID = sf_ConfigID sf, ag_BatchID = batch, ag_TargetType = sf_TargetType sf,
     ag_ServerID = sf_ServerID sf, ag_GroupID = sf_GroupID sf, ag_TagName = sf_TagName sf, ag_Priority = the_or 0 (sf_Priority sf),
     ag_Enabled = stored_bool zd (the_or True (sf_Enabled sf)), ag_CreatedBy = the_or 0 (currentUserID c), ag_UpdatedAt = now\<rparr>"

definition createConfigAssignment :: "bool \<Rightarrow> (nat \<Rightarrow> bool) \<Rightarrow> int \<Rightarrow> uint64 \<Rightarrow> string \<Rightarrow> user option \<Rightarrow> asg_form \<Rightarrow> asg_row list \<Rightarrow>
    asg_row list \<times> (string + asg_row)" where
  "createConfigAssignment zd fails now k batch c f rows = (case validateAssignment f of Inl e \<Rightarrow> (rows, Inl e)
     | Inr sf \<Rightarrow> let a = new_asg zd now k batch c sf
         in if fails 0 then (rows, Inl ''database error'')
            else let rows1 = upsert_row a rows
              in if fails 1 then (rows1, Inl ''database error'')
                 else case find (\<lambda>b. asg_key b = asg_key a) rows1 of None \<Rightarrow> (rows1, Inl ''database error'') | Some b \<Rightarrow> (rows1, Inr b))"

text \<open>The targets of a bulk request, in the order of the lists; an invalid tag refuses it.\<close>

definition bulk_target :: "bulk_form \<Rightarrow> string \<Rightarrow> uint64 \<Rightarrow> uint64 \<Rightarrow> string \<Rightarrow> asg_form" where
  "bulk_target bf typ sid gid tag = \<lparr>sf_ConfigID = bf_ConfigID bf, sf_TargetType = typ, sf_ServerID = sid, sf_GroupID = gid, sf_TagName = tag,
     sf_Priority = bf_Priority bf, sf_Enabled = bf_Enabled bf\<rparr>"

definition bulk_targets :: "bulk_form \<Rightarrow> string + asg_form list" where
  "bulk_targets bf = (let tags = filter (\<lambda>t. t \<noteq> []) (map normalizeTagName (bf_Tags bf))
     in if list_all tagNameRe tags then Inr (
          map (\<lambda>sid. bulk_target bf NodeConfigTargetServer sid 0 []) (filter (\<lambda>sid. sid \<noteq> 0) (bf_Servers bf)) @
          map (\<lambda>gid. bulk_target bf NodeConfigTargetGroup 0 gid []) (filter (\<lambda>gid. gid \<noteq> 0) (bf_Groups bf)) @
          map (bulk_target bf NodeConfigTargetTag 0 0) tags)
        else Inl ''invalid tag_name'')"

text \<open>The rows of one statement take consecutive numbers from \<open>k\<close> on.\<close>

definition createConfigAssignmentsBulk :: "bool \<Rightarrow> (nat \<Rightarrow> bool) \<Rightarrow> int \<Rightarrow> uint64 \<Rightarrow> string \<Rightarrow> user option \<Rightarrow> bulk_form \<Rightarrow> asg_row list \<Rightarrow>
    asg_row list \<times> (string + asg_row list)" where
  "createConfigAssignmentsBulk zd fails now k batch c bf rows =
     (if bf_ConfigID bf = 0 then (rows, Inl ''config_id is required'')
      else if bf_Servers bf = [] \<and> bf_Groups bf = [] \<and> bf_Tags bf = [] then (rows, Inl ''servers or groups or tags is required'')
      else case bulk_targets bf of Inl e \<Rightarrow> (rows, Inl e)
        | Inr targets \<Rightarrow> if targets = [] then (rows, Inl ''no valid targets'')
            else if fails 0 then (rows, Inl ''database error'')
            else let rows1 = fold upsert_row (map (\<lambda>(i, sf). new_asg zd now (k + of_nat i) batch c sf) (enumerate 0 targets)) rows
              in if fails 1 then (rows1, Inl ''database error'')
                 else (rows1, Inr (order_id_desc ag_ID (filter (\<lambda>b. ag_BatchID b = batch) rows1))))"

definition asg_updates :: "asg_form \<Rightarrow> int \<Rightarrow> asg_row \<Rightarrow> asg_row" where
  "asg_updates sf now a = a\<lparr>ag_Priority := the_or (ag_Priority a) (sf_Priority sf), ag_Enabled := the_or (ag_Enabled a) (sf_Enabled sf),
     ag_TagName := (if sf_TagName sf \<noteq> [] then normalizeTagName (sf_TagName sf) else ag_TagName a), ag_UpdatedAt := now\<rparr>"

text \<open>The database refuses an update that gives two rows one key.\<close>

definition updateConfigAssignment :: "(nat \<Rightarrow> bool) \<Rightarrow> int \<Rightarrow> string \<Rightarrow> asg_form \<Rightarrow> asg_row list \<Rightarrow> asg_row list \<times> (string + asg_row option)" where
  "updateConfigAssignment fails now ids sf rows = (case parseUintParam ''id'' ids of Inl e \<Rightarrow> (rows, Inl e)
     | Inr k \<Rightarrow> if sf_TagName sf \<noteq> [] \<and> \<not> tagNameRe (normalizeTagName (sf_TagName sf)) then (rows, Inl ''invalid tag_name'')
         else if sf_Priority sf = None \<and> sf_Enabled sf = None \<and> sf_TagName sf = [] then (rows, Inr None)
         else let rows1 = update_id ag_ID k (asg_updates sf now) rows
           in if fails 0 \<or> \<not> distinct (map asg_key rows1) then (rows, Inl ''database error'')
              else if fails 1 then (rows1, Inl ''database error'')
              else case first_id ag_ID k rows1 of None \<Rightarrow> (rows1, Inl ''assignment id does not exist'') | Some a \<Rightarrow> (rows1, Inr (Some a)))"

definition deleteConfigAssignment :: "(nat \<Rightarrow> bool) \<Rightarrow> string \<Rightarrow> asg_row list \<Rightarrow> asg_row list \<times> (string + unit)" where
  "deleteConfigAssignment fails ids rows = (case parseUintParam ''id'' ids of Inl e \<Rightarrow> (rows, Inl e)
     | Inr k \<Rightarrow> if fails 0 then (rows, Inl ''database error'') else (delete_id ag_ID k rows, Inr ()))"

subsection \<open>Reading\<close>

text \<open>The rank of an assignment: priority, then the time of its last change, then its number.\<close>

definition asg_rank :: "asg_row \<Rightarrow> int \<times> int \<times> nat" where
  "asg_rank a = (ag_Priority a, ag_UpdatedAt a, unat (ag_ID a))"

definition first_asg :: "asg_row list \<Rightarrow> asg_row option" where
  "first_asg rows = (if rows = [] then None else Some (last (sort_key asg_rank rows)))"

definition targets_server :: "uint64 \<Rightarrow> asg_row \<Rightarrow> bool" where
  "targets_server k a \<longleftrightarrow> ag_TargetType a = NodeConfigTargetServer \<and> ag_ServerID a = k"

definition targets_groups :: "uint64 list \<Rightarrow> asg_row \<Rightarrow> bool" where
  "targets_groups gs a \<longleftrightarrow> ag_TargetType a = NodeConfigTargetGroup \<and> ag_GroupID a \<in> set gs"

definition targets_tag :: "string \<Rightarrow> asg_row \<Rightarrow> bool" where
  "targets_tag tag a \<longleftrightarrow> ag_TargetType a = NodeConfigTargetTag \<and> ag_TagName a = tag"

definition effectiveConfigAssignment :: "(nat \<Rightarrow> bool) \<Rightarrow> uint64 \<Rightarrow> uint64 \<Rightarrow> string \<Rightarrow> asg_row list \<Rightarrow> string + asg_row" where
  "effectiveConfigAssignment fails sid gid tagName rows = (let tag = normalizeTagName tagName
     in if sid = 0 \<and> gid = 0 \<and> tag = [] then Inl ''server_id or group_id or tag_name is required''
        else if fails 0 then Inl ''database error''
        else case first_asg (filter (\<lambda>a. ag_Enabled a \<and> (sid \<noteq> 0 \<and> targets_server sid a \<or> gid \<noteq> 0 \<and> targets_groups [gid] a \<or>
            tag \<noteq> [] \<and> targets_tag tag a)) rows) of None \<Rightarrow> Inl ''no matching assignment'' | Some a \<Rightarrow> Inr a)"

text \<open>A number of a query, 0 when it is none.\<close>

definition query_id :: "string \<Rightarrow> uint64" where
  "query_id s = (case parse_id_loop 0 (TrimSpace s) of None \<Rightarrow> 0 | Some k \<Rightarrow> k)"

definition listConfigAssignments :: "(nat \<Rightarrow> bool) \<Rightarrow> string \<Rightarrow> string \<Rightarrow> string \<Rightarrow> string \<Rightarrow> string \<Rightarrow> asg_row list \<Rightarrow> string + asg_row list" where
  "listConfigAssignments fails typ tag cid sid gid rows = (if fails 0 then Inl ''database error''
     else Inr (order_id_desc ag_ID (filter (\<lambda>a. (TrimSpace typ = [] \<or> ag_TargetType a = TrimSpace typ) \<and>
       (TrimSpace tag = [] \<or> ag_TagName a = normalizeTagName (TrimSpace tag)) \<and> (query_id cid = 0 \<or> ag_ConfigID a = query_id cid) \<and>
       (query_id sid = 0 \<or> ag_ServerID a = query_id sid) \<and> (query_id gid = 0 \<or> ag_GroupID a = query_id gid)) rows)))"

definition getAssignmentBatch :: "(nat \<Rightarrow> bool) \<Rightarrow> string \<Rightarrow> asg_row list \<Rightarrow> string + asg_row list" where
  "getAssignmentBatch fails param rows = (let bid = TrimSpace param
     in if bid = [] then Inl ''missing batchId'' else if fails 0 then Inl ''database error''
        else Inr (order_id_desc ag_ID (filter (\<lambda>a. ag_BatchID a = bid) rows)))"

record batch_view =
  bv_BatchID :: string
  bv_ConfigID :: uint64
  bv_Priority :: int
  bv_Enabled :: bool
  bv_Count :: nat
  bv_UpdatedAt :: int

definition batch_of :: "asg_row \<Rightarrow> string \<times> uint64 \<times> int \<times> bool" where
  "batch_of a = (ag_BatchID a, ag_ConfigID a, ag_Priority a, ag_Enabled a)"

definition batch_row :: "asg_row list \<Rightarrow> string \<times> uint64 \<times> int \<times> bool \<Rightarrow> batch_view" where
  "batch_row rows key = (case key of (bid, cid, prio, en) \<Rightarrow> let g = filter (\<lambda>a. batch_of a = key) rows
     in \<lparr>bv_BatchID = bid, bv_ConfigID = cid, bv_Priority = prio, bv_Enabled = en, bv_Count = length g,
         bv_UpdatedAt = Max (set (map (\<lambda>a. ag_UpdatedAt a div 1000000000) g))\<rparr>)"

definition listAssignmentBatches :: "(nat \<Rightarrow> bool) \<Rightarrow> asg_row list \<Rightarrow> string + batch_view list" where
  "listAssignmentBatches fails rows = (if fails 0 then Inl ''database error''
     else Inr (rev (sort_key bv_UpdatedAt (map (batch_row rows) (remdups (map batch_of (filter (\<lambda>a. ag_BatchID a \<noteq> []) rows)))))))"

subsection \<open>Requests\<close>

definition fresh_from :: "uint64 \<Rightarrow> nat \<Rightarrow> asg_row list \<Rightarrow> bool" where
  "fresh_from k n rows \<longleftrightarrow> distinct (map (\<lambda>i. k + of_nat i) [0..<n]) \<and> (\<forall>i < n. fresh_id ag_ID (k + of_nat i) rows)"

inductive asg_reach :: "bool \<Rightarrow> asg_row list \<Rightarrow> bool" for zd where
  ar_start: "asg_reach zd []"
| ar_create: "asg_reach zd rows \<Longrightarrow> fresh_id ag_ID k rows \<Longrightarrow> asg_reach zd (fst (createConfigAssignment zd fails now k batch c f rows))"
| ar_bulk: "asg_reach zd rows \<Longrightarrow> fresh_from k (length (bf_Servers bf) + length (bf_Groups bf) + length (bf_Tags bf)) rows \<Longrightarrow>
    asg_reach zd (fst (createConfigAssignmentsBulk zd fails now k batch c bf rows))"
| ar_update: "asg_reach zd rows \<Longrightarrow> asg_reach zd (fst (updateConfigAssignment fails now ids f rows))"
| ar_delete: "asg_reach zd rows \<Longrightarrow> asg_reach zd (fst (deleteConfigAssignment fails ids rows))"

definition target_ok :: "asg_row \<Rightarrow> bool" where
  "target_ok a \<longleftrightarrow> ag_ConfigID a \<noteq> 0 \<and> (ag_TargetType a = NodeConfigTargetServer \<and> ag_ServerID a \<noteq> 0 \<or>
     ag_TargetType a = NodeConfigTargetGroup \<and> ag_GroupID a \<noteq> 0 \<or>
     ag_TargetType a = NodeConfigTargetTag \<and> tagNameRe (ag_TagName a) \<and> normalizeTagName (ag_TagName a) = ag_TagName a)"

definition asgs_ok :: "asg_row list \<Rightarrow> bool" where
  "asgs_ok rows \<longleftrightarrow> distinct (map ag_ID rows) \<and> distinct (map asg_key rows) \<and> (\<forall>a \<in> set rows. target_ok a)"

lemma TrimSpace_none: "list_all (\<lambda>ch. \<not> go_space ch) s \<Longrightarrow> TrimSpace s = s"
proof -
  have id: "dropWhile go_space t = t" if "list_all (\<lambda>ch. \<not> go_space ch) t" for t using that by (cases t) auto
  assume "list_all (\<lambda>ch. \<not> go_space ch) s"
  then show ?thesis using id [of s] id [of "rev s"] by (simp add: TrimSpace_def list_all_iff)
qed

lemma tag_char_space: "name_char ch \<or> ch = CHR '':'' \<Longrightarrow> \<not> go_space ch"
  by (auto simp: name_char_def go_space_def Let_def)

lemma lower_idem: "lower_char (lower_char ch) = lower_char ch"
  by (simp add: lower_char_def Let_def of_char_of)

lemma normalized_tag: "tagNameRe (normalizeTagName s) \<Longrightarrow> normalizeTagName (normalizeTagName s) = normalizeTagName s"
proof -
  assume "tagNameRe (normalizeTagName s)"
  then have "list_all (\<lambda>ch. \<not> go_space ch) (normalizeTagName s)" using tag_char_space by (auto simp: tagNameRe_def list_all_iff)
  then show ?thesis using TrimSpace_none [of "normalizeTagName s"] by (simp add: normalizeTagName_def ToLower_def lower_idem)
qed

lemma the_or_simps [simp]: "the_or d None = d" "the_or d (Some x) = x"
  by (simp_all add: the_or_def)

lemma validated_target: "validateAssignment f = Inr sf \<Longrightarrow> target_ok (new_asg zd now k batch c sf)"
  by (auto simp: validateAssignment_def Let_def target_ok_def new_asg_def normalized_tag split: if_splits)

lemma bulk_target_ok:
  assumes "bf_ConfigID bf \<noteq> 0" and "bulk_targets bf = Inr ts" and "sf \<in> set ts"
  shows "target_ok (new_asg zd now k batch c sf)"
proof -
  define tags where "tags = filter (\<lambda>t. t \<noteq> []) (map normalizeTagName (bf_Tags bf))"
  have ts: "bulk_targets bf = (if list_all tagNameRe tags then Inr (map (\<lambda>sid. bulk_target bf NodeConfigTargetServer sid 0 []) (filter (\<lambda>sid. sid \<noteq> 0) (bf_Servers bf)) @
      map (\<lambda>gid. bulk_target bf NodeConfigTargetGroup 0 gid []) (filter (\<lambda>gid. gid \<noteq> 0) (bf_Groups bf)) @
      map (bulk_target bf NodeConfigTargetTag 0 0) tags) else Inl ''invalid tag_name'')"
    by (simp add: bulk_targets_def tags_def Let_def)
  have tags: "list_all tagNameRe tags" using assms(2) ts by (auto split: if_splits)
  have tag: "tagNameRe t \<and> normalizeTagName t = t" if "t \<in> set tags" for t
  proof -
    have "tagNameRe t" using tags that by (simp only: list_all_iff)
    moreover have "t \<in> normalizeTagName ` set (bf_Tags bf)" using that unfolding tags_def by (simp only: set_filter set_map mem_Collect_eq)
    ultimately show ?thesis using normalized_tag by (auto simp only: image_iff)
  qed
  consider sid where "sid \<noteq> 0" "sf = bulk_target bf NodeConfigTargetServer sid 0 []"
    | gid where "gid \<noteq> 0" "sf = bulk_target bf NodeConfigTargetGroup 0 gid []"
    | t where "t \<in> set tags" "sf = bulk_target bf NodeConfigTargetTag 0 0 t"
    using assms(2,3) tags unfolding ts by auto
  then show ?thesis
    using assms(1) tag by cases (auto simp: target_ok_def new_asg_def bulk_target_def)
qed

lemma key_same_target: "asg_key a = asg_key b \<Longrightarrow> target_ok a \<longleftrightarrow> target_ok b"
  by (simp add: target_ok_def asg_key_def)

lemma asg_key_upd [simp]: "asg_key (b\<lparr>ag_BatchID := x, ag_Priority := p, ag_Enabled := e, ag_UpdatedAt := t\<rparr>) = asg_key b"
  by (simp add: asg_key_def)

lemma upsert_row_maps:
  "asg_key a \<in> asg_key ` set rows \<Longrightarrow> map asg_key (upsert_row a rows) = map asg_key rows \<and> map ag_ID (upsert_row a rows) = map ag_ID rows"
  "asg_key a \<notin> asg_key ` set rows \<Longrightarrow> upsert_row a rows = rows @ [a]"
  by (simp_all add: upsert_row_def)

lemma upsert_row_ok:
  assumes "asgs_ok rows" and "ag_ID a \<notin> ag_ID ` set rows" and "target_ok a"
  shows "asgs_ok (upsert_row a rows)" "ag_ID ` set (upsert_row a rows) \<subseteq> insert (ag_ID a) (ag_ID ` set rows)"
    "asg_key ` set (upsert_row a rows) = insert (asg_key a) (asg_key ` set rows)"
proof -
  have ok: "target_ok b" if "asg_key b \<in> asg_key ` set rows" for b
    using that assms(1) key_same_target [of b] unfolding asgs_ok_def by (metis imageE)
  show "asgs_ok (upsert_row a rows)"
  proof (cases "asg_key a \<in> asg_key ` set rows")
    case True
    note m = upsert_row_maps(1) [OF True]
    have "target_ok b" if "b \<in> set (upsert_row a rows)" for b
    proof (rule ok)
      have "asg_key b \<in> set (map asg_key (upsert_row a rows))" using that by simp
      then show "asg_key b \<in> asg_key ` set rows" unfolding conjunct1 [OF m] by simp
    qed
    then show ?thesis using assms(1) m unfolding asgs_ok_def by metis
  next
    case False
    then show ?thesis using assms by (auto simp: asgs_ok_def upsert_row_maps(2))
  qed
  have ids: "set (map ag_ID (upsert_row a rows)) \<subseteq> insert (ag_ID a) (set (map ag_ID rows))"
    and keys: "set (map asg_key (upsert_row a rows)) = insert (asg_key a) (set (map asg_key rows))"
    using upsert_row_maps [of a rows] by (cases "asg_key a \<in> asg_key ` set rows"; force)+
  then show "ag_ID ` set (upsert_row a rows) \<subseteq> insert (ag_ID a) (ag_ID ` set rows)"
    "asg_key ` set (upsert_row a rows) = insert (asg_key a) (asg_key ` set rows)" by simp_all
qed

lemma upsert_rows_ok:
  assumes "asgs_ok rows" and "\<forall>a \<in> set new. target_ok a \<and> ag_ID a \<notin> ag_ID ` set rows" and "distinct (map ag_ID new)"
  shows "asgs_ok (fold upsert_row new rows) \<and> asg_key ` set (fold upsert_row new rows) = asg_key ` set new \<union> asg_key ` set rows"
  using assms
proof (induction new arbitrary: rows)
  case (Cons a new)
  note one = upsert_row_ok [of rows a]
  have "asgs_ok (fold upsert_row new (upsert_row a rows)) \<and>
      asg_key ` set (fold upsert_row new (upsert_row a rows)) = asg_key ` set new \<union> asg_key ` set (upsert_row a rows)"
  proof (rule Cons.IH)
    have "ag_ID b \<notin> ag_ID ` set (upsert_row a rows)" if "b \<in> set new" for b
    proof -
      have "ag_ID b \<noteq> ag_ID a" "ag_ID b \<notin> ag_ID ` set rows" using Cons.prems that by (auto simp: image_iff)
      then show ?thesis using one(2) Cons.prems by auto
    qed
    then show "\<forall>b \<in> set new. target_ok b \<and> ag_ID b \<notin> ag_ID ` set (upsert_row a rows)" using Cons.prems by simp
  qed (use Cons.prems one in auto)
  then show ?case using one Cons.prems by auto
qed simp

lemma bulk_ids:
  assumes "fresh_from k n rows" and "length ts \<le> n"
  shows "distinct (map ag_ID (map (\<lambda>(i, sf). new_asg zd now (k + of_nat i) batch c sf) (enumerate 0 ts)))"
    "\<forall>a \<in> set (map (\<lambda>(i, sf). new_asg zd now (k + of_nat i) batch c sf) (enumerate 0 ts)). ag_ID a \<notin> ag_ID ` set rows"
proof -
  have "map ag_ID (map (\<lambda>(i, sf). new_asg zd now (k + of_nat i) batch c sf) (enumerate 0 ts)) = map (\<lambda>i. k + of_nat i) [0..<length ts]"
    by (rule nth_equalityI) (auto simp: nth_enumerate_eq new_asg_def split: prod.split)
  also have "\<dots> = take (length ts) (map (\<lambda>i. k + of_nat i) [0..<n])" using assms(2) by (simp add: take_map)
  finally show "distinct (map ag_ID (map (\<lambda>(i, sf). new_asg zd now (k + of_nat i) batch c sf) (enumerate 0 ts)))"
    using assms(1) by (simp add: fresh_from_def)
  show "\<forall>a \<in> set (map (\<lambda>(i, sf). new_asg zd now (k + of_nat i) batch c sf) (enumerate 0 ts)). ag_ID a \<notin> ag_ID ` set rows"
  proof
    fix a
    assume "a \<in> set (map (\<lambda>(i, sf). new_asg zd now (k + of_nat i) batch c sf) (enumerate 0 ts))"
    then obtain i where "i < length ts" "ag_ID a = k + of_nat i" by (auto simp: in_set_enumerate_eq new_asg_def)
    then show "ag_ID a \<notin> ag_ID ` set rows" using assms unfolding fresh_from_def fresh_id_def by simp
  qed
qed

lemma bulk_targets_length:
  assumes "bulk_targets bf = Inr ts"
  shows "length ts \<le> length (bf_Servers bf) + length (bf_Groups bf) + length (bf_Tags bf)"
proof -
  have "length ts = length (filter (\<lambda>sid. sid \<noteq> 0) (bf_Servers bf)) + length (filter (\<lambda>gid. gid \<noteq> 0) (bf_Groups bf)) +
      length (filter ((\<lambda>t. t \<noteq> []) \<circ> normalizeTagName) (bf_Tags bf))"
    using assms by (auto simp: bulk_targets_def Let_def filter_map split: if_splits)
  then show ?thesis by (simp only: add_mono length_filter_le)
qed

lemma bulk_ok:
  assumes "asgs_ok rows" and "fresh_from k (length (bf_Servers bf) + length (bf_Groups bf) + length (bf_Tags bf)) rows"
    and "bf_ConfigID bf \<noteq> 0" and "bulk_targets bf = Inr ts"
  shows "asgs_ok (fold upsert_row (map (\<lambda>(i, sf). new_asg zd now (k + of_nat i) batch c sf) (enumerate 0 ts)) rows)"
proof -
  let ?new = "map (\<lambda>(i, sf). new_asg zd now (k + of_nat i) batch c sf) (enumerate 0 ts)"
  have "\<forall>a \<in> set ?new. target_ok a" using bulk_target_ok [OF assms(3,4)] by (auto simp: in_set_enumerate_eq)
  then show ?thesis
    using upsert_rows_ok [OF assms(1), of ?new] bulk_ids [OF assms(2) bulk_targets_length [OF assms(4)], where zd = zd and now = now and batch = batch and c = c]
    by blast
qed

lemma updated_target: "target_ok a \<Longrightarrow> sf_TagName sf = [] \<or> tagNameRe (normalizeTagName (sf_TagName sf)) \<Longrightarrow> target_ok (asg_updates sf now a)"
  by (auto simp: target_ok_def asg_updates_def normalized_tag)

lemma asg_reach_ok: "asg_reach zd rows \<Longrightarrow> asgs_ok rows"
proof (induction rule: asg_reach.induct)
  case ar_start
  then show ?case by (simp add: asgs_ok_def)
next
  case (ar_create rows k fails now batch c f)
  then show ?case
    using upsert_row_ok(1) [OF ar_create.IH, of "new_asg zd now k batch c sf" for sf] validated_target
    by (auto simp: createConfigAssignment_def Let_def new_asg_def fresh_id_def split: sum.split option.split)
next
  case (ar_bulk rows k bf fails now batch c)
  then show ?case using bulk_ok by (auto simp: createConfigAssignmentsBulk_def Let_def split: sum.split)
next
  case (ar_update rows fails now ids f)
  have "asgs_ok (update_id ag_ID k (asg_updates f now) rows)"
    if "distinct (map asg_key (update_id ag_ID k (asg_updates f now) rows))" "sf_TagName f = [] \<or> tagNameRe (normalizeTagName (sf_TagName f))" for k
  proof -
    have "map ag_ID (update_id ag_ID k (asg_updates f now) rows) = map ag_ID rows" by (rule map_update_id) (simp add: asg_updates_def)
    then have "distinct (map ag_ID (update_id ag_ID k (asg_updates f now) rows))" using ar_update.IH by (simp only: asgs_ok_def)
    moreover have "\<forall>a \<in> set (update_id ag_ID k (asg_updates f now) rows). target_ok a"
      using ar_update.IH that(2) updated_target by (auto simp: asgs_ok_def update_id_def)
    ultimately show ?thesis using that(1) unfolding asgs_ok_def by blast
  qed
  then show ?case using ar_update.IH by (auto simp: updateConfigAssignment_def Let_def split: sum.split option.split)
next
  case (ar_delete rows fails ids)
  then show ?case by (auto simp: deleteConfigAssignment_def asgs_ok_def delete_id_def distinct_map inj_on_def split: sum.split)
qed

subsection \<open>The assignment that takes effect\<close>

lemma asg_rank_inj: "distinct (map ag_ID rows) \<Longrightarrow> a \<in> set rows \<Longrightarrow> b \<in> set rows \<Longrightarrow> asg_rank a = asg_rank b \<Longrightarrow> a = b"
  by (auto simp: asg_rank_def distinct_map inj_on_def word_unat_eq_iff)

lemma sorted_last: "sorted (map f xs) \<Longrightarrow> x \<in> set xs \<Longrightarrow> f x \<le> f (last xs)"
  by (induction xs rule: rev_induct) (auto simp: sorted_append)

text \<open>The first row in the order of rank is the one of the highest rank.\<close>

lemma first_asg_iff:
  assumes "distinct (map ag_ID rows)"
  shows "first_asg rows = Some a \<longleftrightarrow> a \<in> set rows \<and> (\<forall>b \<in> set rows. asg_rank b \<le> asg_rank a)"
proof -
  have top: "last (sort_key asg_rank rows) \<in> set rows" "\<forall>b \<in> set rows. asg_rank b \<le> asg_rank (last (sort_key asg_rank rows))" if "rows \<noteq> []"
  proof -
    have "sort_key asg_rank rows \<noteq> []" using that by (metis length_0_conv length_sort)
    from last_in_set [OF this] show "last (sort_key asg_rank rows) \<in> set rows" by simp
    show "\<forall>b \<in> set rows. asg_rank b \<le> asg_rank (last (sort_key asg_rank rows))"
      using sorted_last [of asg_rank "sort_key asg_rank rows"] by simp
  qed
  show ?thesis
  proof
    assume "first_asg rows = Some a"
    then show "a \<in> set rows \<and> (\<forall>b \<in> set rows. asg_rank b \<le> asg_rank a)" using top by (auto simp: first_asg_def split: if_splits)
  next
    assume a: "a \<in> set rows \<and> (\<forall>b \<in> set rows. asg_rank b \<le> asg_rank a)"
    then have ne: "rows \<noteq> []" by auto
    have "asg_rank a = asg_rank (last (sort_key asg_rank rows))" using a top [OF ne] by (blast intro: antisym)
    then show "first_asg rows = Some a" using ne asg_rank_inj [OF assms _ top(1) [OF ne]] a by (auto simp: first_asg_def)
  qed
qed

lemma first_asg_None: "first_asg rows = None \<longleftrightarrow> rows = []"
  by (simp add: first_asg_def)

lemma distinct_filter_ids: "distinct (map ag_ID rows) \<Longrightarrow> distinct (map ag_ID (filter P rows))"
  by (simp add: distinct_map_filter)

lemma first_asg_filter:
  assumes "distinct (map ag_ID rows)"
  shows "first_asg (filter P rows) = Some a \<longleftrightarrow> a \<in> set rows \<and> P a \<and> (\<forall>b \<in> set rows. P b \<longrightarrow> asg_rank b \<le> asg_rank a)"
  using first_asg_iff [OF distinct_filter_ids [OF assms], of P a] by auto

text \<open>C31: In every reachable table the assignments have distinct numbers and keys and well-formed targets, with tags normalised.\<close>

theorem assignments_well_formed:
  assumes "asg_reach zd rows"
  shows "distinct (map ag_ID rows) \<and> distinct (map asg_key rows) \<and> (\<forall>a \<in> set rows. target_ok a)"
  using asg_reach_ok [OF assms] by (simp add: asgs_ok_def)

text \<open>C29: The effective assignment is the enabled one of the highest rank among those for the server, the group or the tag.\<close>

theorem effective_assignment_is_highest:
  assumes "asg_reach zd rows" and "sid \<noteq> 0 \<or> gid \<noteq> 0 \<or> normalizeTagName tag \<noteq> []"
  defines "matches \<equiv> \<lambda>a. ag_Enabled a \<and> (sid \<noteq> 0 \<and> targets_server sid a \<or> gid \<noteq> 0 \<and> targets_groups [gid] a \<or>
      normalizeTagName tag \<noteq> [] \<and> targets_tag (normalizeTagName tag) a)"
  shows "(effectiveConfigAssignment (\<lambda>_. False) sid gid tag rows = Inr a \<longleftrightarrow>
      a \<in> set rows \<and> matches a \<and> (\<forall>b \<in> set rows. matches b \<longrightarrow> asg_rank b \<le> asg_rank a)) \<and>
    (effectiveConfigAssignment (\<lambda>_. False) sid gid tag rows = Inl ''no matching assignment'' \<longleftrightarrow> (\<forall>b \<in> set rows. \<not> matches b))"
proof -
  have "effectiveConfigAssignment (\<lambda>_. False) sid gid tag rows =
      (case first_asg (filter matches rows) of None \<Rightarrow> Inl ''no matching assignment'' | Some a \<Rightarrow> Inr a)"
    using assms(2) by (auto simp: effectiveConfigAssignment_def Let_def matches_def)
  moreover have "distinct (map ag_ID rows)" using asg_reach_ok [OF assms(1)] by (simp add: asgs_ok_def)
  moreover have "first_asg (filter matches rows) = None \<longleftrightarrow> (\<forall>b \<in> set rows. \<not> matches b)"
    by (simp add: first_asg_None filter_empty_conv)
  ultimately show ?thesis using first_asg_filter [of rows matches a] by (auto split: option.split)
qed

text \<open>Creating an assignment as disabled leaves it enabled, also when it was there and disabled, if the database library
  stores the default of a column for a zero value.\<close>

lemma disabled_assignment_takes_effect:
  assumes "createConfigAssignment True fails now k batch c f rows = (rows', Inr b)" and "sf_Enabled f = Some False"
  shows "b \<in> set rows' \<and> ag_Enabled b"
proof -
  obtain sf where sf: "validateAssignment f = Inr sf" using assms(1) by (auto simp: createConfigAssignment_def split: sum.splits)
  define a where "a = new_asg True now k batch c sf"
  have en: "ag_Enabled a" by (simp add: a_def new_asg_def stored_bool_def)
  have b: "find (\<lambda>b. asg_key b = asg_key a) rows' = Some b" and rows': "rows' = upsert_row a rows"
    using assms(1) sf by (auto simp: createConfigAssignment_def Let_def a_def [symmetric] split: if_splits option.splits)
  then have "b \<in> set rows'" "asg_key b = asg_key a" by (auto simp: find_Some_iff)
  then show ?thesis using en imageI [of b "set rows" asg_key] unfolding rows' by (auto simp: upsert_row_def split: if_splits)
qed

subsection \<open>Bulk requests\<close>

definition same_cols :: "asg_row \<Rightarrow> asg_row \<Rightarrow> bool" where
  "same_cols a b \<longleftrightarrow> ag_BatchID b = ag_BatchID a \<and> ag_Priority b = ag_Priority a \<and> ag_Enabled b = ag_Enabled a \<and> ag_UpdatedAt b = ag_UpdatedAt a"

lemma upsert_row_mem:
  "b \<in> set (upsert_row a rows) \<Longrightarrow> asg_key b \<noteq> asg_key a \<and> b \<in> set rows \<or> asg_key b = asg_key a \<and> same_cols a b"
  "b \<in> set rows \<Longrightarrow> asg_key b \<noteq> asg_key a \<Longrightarrow> b \<in> set (upsert_row a rows)"
proof -
  show "b \<in> set rows \<Longrightarrow> asg_key b \<noteq> asg_key a \<Longrightarrow> b \<in> set (upsert_row a rows)" by (auto simp: upsert_row_def)
  assume b: "b \<in> set (upsert_row a rows)"
  show "asg_key b \<noteq> asg_key a \<and> b \<in> set rows \<or> asg_key b = asg_key a \<and> same_cols a b"
  proof (cases "asg_key a \<in> asg_key ` set rows")
    case True
    then show ?thesis using b by (auto simp: upsert_row_def same_cols_def)
  next
    case False
    then show ?thesis using b by (auto simp: upsert_row_def same_cols_def image_iff)
  qed
qed

lemma upsert_rows_mem:
  "b \<in> set (fold upsert_row new rows) \<Longrightarrow>
     asg_key b \<notin> asg_key ` set new \<and> b \<in> set rows \<or> asg_key b \<in> asg_key ` set new \<and> (\<exists>a \<in> set new. same_cols a b)"
proof (induction new arbitrary: rows)
  case (Cons a new)
  then show ?case using upsert_row_mem(1) [of b a rows] by fastforce
qed simp

lemma upsert_rows_keep: "b \<in> set rows \<Longrightarrow> asg_key b \<notin> asg_key ` set new \<Longrightarrow> b \<in> set (fold upsert_row new rows)"
  by (induction new arbitrary: rows) (auto intro: upsert_row_mem(2))

definition form_key :: "asg_form \<Rightarrow> uint64 \<times> string \<times> uint64 \<times> uint64 \<times> string" where
  "form_key sf = (sf_ConfigID sf, sf_TargetType sf, sf_ServerID sf, sf_GroupID sf, sf_TagName sf)"

text \<open>C30: A bulk request gives every target of its lists exactly one assignment, with the priority asked for and under the new
  batch, answers with exactly those, and leaves every other assignment as it was.\<close>

theorem bulk_assigns_exactly_targets:
  assumes "asg_reach zd rows" and "fresh_from k (length (bf_Servers bf) + length (bf_Groups bf) + length (bf_Tags bf)) rows"
    and "batch \<notin> ag_BatchID ` set rows" and "bulk_targets bf = Inr ts"
    and "createConfigAssignmentsBulk zd fails now k batch c bf rows = (rows', Inr out)"
  shows "distinct (map asg_key rows') \<and> asg_key ` set out = form_key ` set ts \<and>
    (\<forall>b \<in> set out. b \<in> set rows' \<and> ag_BatchID b = batch \<and> ag_Priority b = the_or 0 (bf_Priority bf)) \<and>
    (\<forall>b. b \<in> set rows' - set out \<longleftrightarrow> b \<in> set rows \<and> asg_key b \<notin> form_key ` set ts)"
proof -
  define new where "new = map (\<lambda>(i, sf). new_asg zd now (k + of_nat i) batch c sf) (enumerate 0 ts)"
  have rows': "rows' = fold upsert_row new rows" and out: "set out = {b \<in> set rows'. ag_BatchID b = batch}" and cfg: "bf_ConfigID bf \<noteq> 0"
    using assms(4,5) by (auto simp: createConfigAssignmentsBulk_def Let_def new_def order_id_desc_props split: if_splits)
  have "asgs_ok rows'" using bulk_ok [OF asg_reach_ok [OF assms(1)] assms(2) cfg assms(4)] by (simp add: rows' new_def)
  moreover have keys: "asg_key ` set new = form_key ` set ts"
  proof -
    have "map asg_key new = map form_key ts"
      by (rule nth_equalityI) (auto simp: new_def nth_enumerate_eq asg_key_def form_key_def new_asg_def)
    then show ?thesis by (metis list.set_map)
  qed
  have prio: "sf_Priority sf = bf_Priority bf" if "sf \<in> set ts" for sf
    using assms(4) that by (auto simp: bulk_targets_def bulk_target_def Let_def split: if_splits)
  have cols: "ag_BatchID a = batch \<and> ag_Priority a = the_or 0 (bf_Priority bf)" if "a \<in> set new" for a
    using that prio by (auto simp: new_def in_set_enumerate_eq new_asg_def)
  have all: "asg_key ` set rows' = form_key ` set ts \<union> asg_key ` set rows"
  proof -
    have "\<forall>a \<in> set new. target_ok a" using bulk_target_ok [OF cfg assms(4)] by (auto simp: new_def in_set_enumerate_eq)
    then show ?thesis unfolding rows' keys [symmetric]
      using upsert_rows_ok [OF asg_reach_ok [OF assms(1)], of new]
        bulk_ids [OF assms(2) bulk_targets_length [OF assms(4)], where zd = zd and now = now and batch = batch and c = c]
      by (auto simp: new_def [symmetric])
  qed
  have out_iff: "b \<in> set out \<longleftrightarrow> asg_key b \<in> form_key ` set ts" if "b \<in> set rows'" for b
    using upsert_rows_mem [of b new rows] that cols assms(3) unfolding keys rows' [symmetric] out same_cols_def by force
  have "asg_key ` set out = form_key ` set ts"
  proof (intro equalityI subsetI)
    show "x \<in> form_key ` set ts" if "x \<in> asg_key ` set out" for x using that out out_iff by auto
    fix x assume x: "x \<in> form_key ` set ts"
    then have "x \<in> asg_key ` set rows'" unfolding all by (rule UnI1)
    then obtain b where "b \<in> set rows'" "x = asg_key b" by (rule imageE)
    then show "x \<in> asg_key ` set out" using out_iff x by blast
  qed
  moreover have "\<forall>b \<in> set out. b \<in> set rows' \<and> ag_BatchID b = batch \<and> ag_Priority b = the_or 0 (bf_Priority bf)"
  proof
    fix b assume b: "b \<in> set out"
    then have "b \<in> set rows'" "asg_key b \<in> form_key ` set ts" using out out_iff by auto
    then obtain a where "a \<in> set new" "same_cols a b" using upsert_rows_mem [of b new rows] unfolding keys rows' by blast
    then show "b \<in> set rows' \<and> ag_BatchID b = batch \<and> ag_Priority b = the_or 0 (bf_Priority bf)"
      using cols \<open>b \<in> set rows'\<close> by (auto simp: same_cols_def)
  qed
  moreover have "b \<in> set rows' - set out \<longleftrightarrow> b \<in> set rows \<and> asg_key b \<notin> form_key ` set ts" for b
    using upsert_rows_mem [of b new rows] upsert_rows_keep [of b rows new] out_iff [of b] unfolding keys rows' [symmetric] by blast
  ultimately show ?thesis by (simp add: asgs_ok_def)
qed

subsection \<open>Examples\<close>

definition some_bulk :: bulk_form where
  "some_bulk = \<lparr>bf_ConfigID = 3, bf_Servers = [7, 0], bf_Groups = [2], bf_Tags = ['' dev ''], bf_Priority = Some 5, bf_Enabled = None\<rparr>"

definition some_asg :: "uint64 \<Rightarrow> string \<Rightarrow> uint64 \<Rightarrow> uint64 \<Rightarrow> string \<Rightarrow> asg_row" where
  "some_asg k typ sid gid tag = \<lparr>ag_ID = k, ag_ConfigID = 3, ag_BatchID = ''b'', ag_TargetType = typ, ag_ServerID = sid, ag_GroupID = gid,
     ag_TagName = tag, ag_Priority = 5, ag_Enabled = True, ag_CreatedBy = 0, ag_UpdatedAt = 9\<rparr>"

definition some_asgs :: "asg_row list" where
  "some_asgs = [some_asg 1 ''server'' 7 0 [], some_asg 2 ''group'' 0 2 [], some_asg 3 ''tag'' 0 0 ''dev'']"

lemma some_targets: "bulk_targets some_bulk = Inr [bulk_target some_bulk ''server'' 7 0 [], bulk_target some_bulk ''group'' 0 2 [],
    bulk_target some_bulk ''tag'' 0 0 ''dev'']"
  by (simp add: bulk_targets_def some_bulk_def normalizeTagName_def TrimSpace_def go_space_def ToLower_def lower_char_def tagNameRe_def
      name_char_def target_defs Let_def)

lemma some_bulk_result: "createConfigAssignmentsBulk True no_failure 9 1 ''b'' None some_bulk [] = (some_asgs, Inr (rev some_asgs))"
  unfolding createConfigAssignmentsBulk_def some_targets
  by (simp add: some_bulk_def bulk_target_def new_asg_def upsert_row_def asg_key_def stored_bool_def currentUserID_def no_failure_def
      some_asgs_def some_asg_def order_id_desc_def)

lemma some_fresh: "fresh_from 1 (length (bf_Servers some_bulk) + length (bf_Groups some_bulk) + length (bf_Tags some_bulk)) []"
  by (simp add: fresh_from_def fresh_id_def some_bulk_def All_less_Suc)

lemma some_asg_reach: "asg_reach True some_asgs"
  using ar_bulk [OF ar_start some_fresh, of True no_failure 9 "''b''" None] by (simp add: some_bulk_result)

definition some_asg_form :: asg_form where
  "some_asg_form = \<lparr>sf_ConfigID = 3, sf_TargetType = ''server'', sf_ServerID = 7, sf_GroupID = 0, sf_TagName = [], sf_Priority = None, sf_Enabled = Some False\<rparr>"

theorem assignments_well_formed_witness: "distinct (map asg_key some_asgs) \<and> target_ok (some_asg 3 ''tag'' 0 0 ''dev'')"
  using assignments_well_formed [OF some_asg_reach] by (simp add: some_asgs_def)

theorem effective_assignment_is_highest_witness:
  "effectiveConfigAssignment (\<lambda>_. False) 7 0 '' dev '' some_asgs = Inr (some_asg 3 ''tag'' 0 0 ''dev'')"
proof -
  have tag: "normalizeTagName '' dev '' = ''dev''" by (simp add: normalizeTagName_def TrimSpace_def go_space_def ToLower_def lower_char_def)
  show ?thesis
    using conjunct1 [OF effective_assignment_is_highest [OF some_asg_reach, of 7 0 "'' dev ''" "some_asg 3 ''tag'' 0 0 ''dev''"]]
    by (simp add: tag some_asgs_def some_asg_def targets_server_def targets_groups_def targets_tag_def target_defs asg_rank_def)
qed

lemma disabled_assignment_takes_effect_witness:
  "\<exists>rows' b. createConfigAssignment True no_failure 10 4 ''x'' None some_asg_form
       [(some_asg 1 ''server'' 7 0 [])\<lparr>ag_Enabled := False\<rparr>] = (rows', Inr b) \<and> ag_Enabled b \<and> ag_ID b = 1"
proof -
  obtain rows' b where r: "createConfigAssignment True no_failure 10 4 ''x'' None some_asg_form
       [(some_asg 1 ''server'' 7 0 [])\<lparr>ag_Enabled := False\<rparr>] = (rows', Inr b)" "ag_ID b = 1"
    by (simp add: createConfigAssignment_def validateAssignment_def some_asg_form_def TrimSpace_def go_space_def target_defs no_failure_def
        upsert_row_def asg_key_def new_asg_def some_asg_def)
  then show ?thesis using disabled_assignment_takes_effect [OF r(1)] by (auto simp: some_asg_form_def)
qed

theorem bulk_assigns_exactly_targets_witness:
  "asg_key ` set some_asgs = {(3, ''server'', 7, 0, []), (3, ''group'', 0, 2, []), (3, ''tag'', 0, 0, ''dev'')}"
  using bulk_assigns_exactly_targets [OF ar_start some_fresh _ some_targets some_bulk_result]
  by (simp add: form_key_def bulk_target_def some_bulk_def insert_commute)

end
