(* ===== verification/Signed_Token.thy ===== *)
theory Signed_Token
  imports Prelude
begin

text \<open>
  Signed tokens (\<open>pkg/utils/signed_token.go\<close>): a payload and its signature, both in the URL alphabet of base 64 without
  padding, joined by a dot.

  The signature and the text of the payload are arguments: \<open>hmac\<close> is HMAC-SHA256 of a secret and a text, \<open>marshal\<close> and
  \<open>unmarshal\<close> the JSON of a payload. The encoding is that of \<open>base64.RawURLEncoding\<close>; its decoder skips line breaks and does
  not ask that unused bits be zero.
\<close>

subsection \<open>Base 64\<close>

definition b64_char :: "nat \<Rightarrow> char" where
  "b64_char i = (if i < 26 then char_of (65 + i) else if i < 52 then char_of (71 + i) else if i < 62 then char_of (i - 4)
     else if i = 62 then CHR ''-'' else CHR ''_'')"

definition b64_val :: "char \<Rightarrow> nat option" where
  "b64_val c = (let n = of_char c in if 65 \<le> n \<and> n \<le> 90 then Some (n - 65) else if 97 \<le> n \<and> n \<le> 122 then Some (n - 71)
     else if 48 \<le> n \<and> n \<le> 57 then Some (n + 4) else if c = CHR ''-'' then Some 62 else if c = CHR ''_'' then Some 63 else None)"

fun b64_groups :: "nat list \<Rightarrow> nat list" where
  "b64_groups (a # b # c # s) = a div 4 # (a mod 4 * 16 + b div 16) # (b mod 16 * 4 + c div 64) # c mod 64 # b64_groups s" |
  "b64_groups [a, b] = [a div 4, a mod 4 * 16 + b div 16, b mod 16 * 4]" |
  "b64_groups [a] = [a div 4, a mod 4 * 16]" |
  "b64_groups [] = []"

fun b64_bytes :: "nat list \<Rightarrow> nat list option" where
  "b64_bytes (a # b # c # d # s) = map_option (\<lambda>t. (a * 4 + b div 16) # (b mod 16 * 16 + c div 4) # (c mod 4 * 64 + d) # t) (b64_bytes s)" |
  "b64_bytes [a, b, c] = Some [a * 4 + b div 16, b mod 16 * 16 + c div 4]" |
  "b64_bytes [a, b] = Some [a * 4 + b div 16]" |
  "b64_bytes [a] = None" |
  "b64_bytes [] = Some []"

fun b64_vals :: "string \<Rightarrow> nat list option" where
  "b64_vals [] = Some []" |
  "b64_vals (c # s) = (case b64_val c of None \<Rightarrow> None | Some i \<Rightarrow> map_option (Cons i) (b64_vals s))"

definition b64urlEncode :: "byte list \<Rightarrow> string" where
  "b64urlEncode b = map b64_char (b64_groups (map unat b))"

definition b64urlDecode :: "string \<Rightarrow> byte list option" where
  "b64urlDecode s = (case b64_vals (filter (\<lambda>c. c \<noteq> CHR 0x0D \<and> c \<noteq> CHR 0x0A) s) of None \<Rightarrow> None
     | Some vs \<Rightarrow> map_option (map of_nat) (b64_bytes vs))"

subsection \<open>Tokens\<close>

type_synonym hmac_fun = "string \<Rightarrow> string \<Rightarrow> byte list"

definition MakeSignedToken :: "hmac_fun \<Rightarrow> ('p \<Rightarrow> byte list option) \<Rightarrow> string \<Rightarrow> 'p \<Rightarrow> string + string" where
  "MakeSignedToken hmac marshal secret payload = (case marshal payload of None \<Rightarrow> Inl ''json error''
     | Some b \<Rightarrow> let payloadB64 = b64urlEncode b in Inr (payloadB64 @ ''.'' @ b64urlEncode (hmac secret payloadB64)))"

definition VerifySignedToken :: "hmac_fun \<Rightarrow> (byte list \<Rightarrow> 'p option) \<Rightarrow> string \<Rightarrow> string \<Rightarrow> string + 'p" where
  "VerifySignedToken hmac unmarshal secret token = (case go_split (CHR ''.'') token of
       [payloadB64, sigB64] \<Rightarrow> if sigB64 \<noteq> b64urlEncode (hmac secret payloadB64) then Inl ''invalid token signature''
         else (case b64urlDecode payloadB64 of None \<Rightarrow> Inl ''invalid token payload''
           | Some b \<Rightarrow> case unmarshal b of None \<Rightarrow> Inl ''invalid token payload'' | Some p \<Rightarrow> Inr p)
     | _ \<Rightarrow> Inl ''invalid token'')"

definition BuildIDXScriptURL :: "string \<Rightarrow> bool \<Rightarrow> string \<Rightarrow> string" where
  "BuildIDXScriptURL installHost agentTLS token = (if agentTLS then ''https'' else ''http'') @ ''://'' @ TrimSpace installHost @
     ''/api/v1/idx/script?token='' @ token"

subsection \<open>Round trips\<close>

lemma b64_val_char: "i < 64 \<Longrightarrow> b64_val (b64_char i) = Some i"
proof -
  assume i: "i < 64"
  consider "i < 26" | "26 \<le> i" "i < 52" | "52 \<le> i" "i < 62" | "i = 62" | "i = 63" using i by linarith
  then show ?thesis by cases (auto simp: b64_val_def b64_char_def of_char_of Let_def)
qed

lemma b64_char_plain: "i < 64 \<Longrightarrow> b64_char i \<noteq> CHR ''.'' \<and> b64_char i \<noteq> CHR 0x0D \<and> b64_char i \<noteq> CHR 0x0A"
  using b64_val_char [of i] by (auto simp: b64_val_def)

lemma b64_groups_small: "\<forall>x \<in> set bs. x < 256 \<Longrightarrow> y \<in> set (b64_groups bs) \<Longrightarrow> y < 64"
  by (induction bs rule: b64_groups.induct) auto

lemma b64_bytes_groups: "\<forall>x \<in> set bs. x < 256 \<Longrightarrow> b64_bytes (b64_groups bs) = Some bs"
  by (induction bs rule: b64_groups.induct) (auto simp: div_mult_mod_eq)

lemma b64_vals_chars: "\<forall>x \<in> set vs. x < 64 \<Longrightarrow> b64_vals (map b64_char vs) = Some vs"
  by (induction vs) (auto simp: b64_val_char)

lemma unat_byte: "x \<in> set (map unat (b :: byte list)) \<Longrightarrow> x < 256"
proof -
  have "unat (y :: byte) < 256" for y by (rule order_less_le_trans [OF unsigned_less]) simp
  then show "x \<in> set (map unat b) \<Longrightarrow> x < 256" by auto
qed

lemma b64_plain: "c \<in> set (b64urlEncode b) \<Longrightarrow> c \<noteq> CHR ''.'' \<and> c \<noteq> CHR 0x0D \<and> c \<noteq> CHR 0x0A"
  using b64_groups_small [of "map unat b"] unat_byte b64_char_plain by (fastforce simp: b64urlEncode_def)

lemma b64url_roundtrip: "b64urlDecode (b64urlEncode b) = Some b"
proof -
  have small: "\<forall>x \<in> set (map unat b). x < 256" using unat_byte by blast
  have "filter (\<lambda>c. c \<noteq> CHR 0x0D \<and> c \<noteq> CHR 0x0A) (b64urlEncode b) = b64urlEncode b"
    using b64_plain by (simp add: filter_id_conv)
  moreover have "b64_vals (b64urlEncode b) = Some (b64_groups (map unat b))"
    using b64_groups_small [OF small] by (simp add: b64urlEncode_def b64_vals_chars)
  ultimately show ?thesis using b64_bytes_groups [OF small] by (simp add: b64urlDecode_def comp_def)
qed

lemma go_split_plain: "c \<notin> set s \<Longrightarrow> go_split c s = [s]"
  by (induction s) auto

lemma go_split_join: "c \<notin> set s \<Longrightarrow> go_split c (s @ c # t) = s # go_split c t"
  by (induction s) auto

lemma go_split_two: "go_split c tok = [s, t] \<longleftrightarrow> tok = s @ c # t \<and> c \<notin> set s \<and> c \<notin> set t"
proof
  assume "go_split c tok = [s, t]"
  then show "tok = s @ c # t \<and> c \<notin> set s \<and> c \<notin> set t"
  proof (induction tok arbitrary: s)
    case (Cons x tok)
    show ?case
    proof (cases "x = c")
      case True
      have one: "go_split c u = [t] \<Longrightarrow> u = t \<and> c \<notin> set t" for u t
        by (induction u arbitrary: t) (auto split: if_splits list.splits)
      from True Cons.prems one [of tok t] show ?thesis by auto
    next
      case False
      then obtain s' where "go_split c tok = [s', t]" "s = x # s'" using Cons.prems by (auto split: list.splits)
      then show ?thesis using Cons.IH False by auto
    qed
  qed simp
qed (auto simp: go_split_join go_split_plain)

text \<open>What the verification accepts: a text and the signature of exactly that text.\<close>

lemma VerifySignedToken_iff:
  "VerifySignedToken hmac unmarshal secret token = Inr p \<longleftrightarrow> (\<exists>payload b. token = payload @ ''.'' @ b64urlEncode (hmac secret payload) \<and>
     CHR ''.'' \<notin> set payload \<and> b64urlDecode payload = Some b \<and> unmarshal b = Some p)"
proof -
  have "VerifySignedToken hmac unmarshal secret token = Inr p \<longleftrightarrow> (\<exists>payload sgn b. go_split (CHR ''.'') token = [payload, sgn] \<and>
      sgn = b64urlEncode (hmac secret payload) \<and> b64urlDecode payload = Some b \<and> unmarshal b = Some p)"
    by (auto simp: VerifySignedToken_def split: list.splits option.splits if_splits)
  then show ?thesis using b64_plain by (auto simp: go_split_two)
qed

lemma signed_token_verifies:
  assumes "MakeSignedToken hmac marshal secret p = Inr token" and "\<And>b. marshal p = Some b \<Longrightarrow> unmarshal b = Some p"
  shows "VerifySignedToken hmac unmarshal secret token = Inr p"
  unfolding VerifySignedToken_iff
proof -
  obtain b where b: "marshal p = Some b" "token = b64urlEncode b @ ''.'' @ b64urlEncode (hmac secret (b64urlEncode b))"
    using assms(1) by (auto simp: MakeSignedToken_def Let_def split: option.splits)
  then show "\<exists>payload b. token = payload @ ''.'' @ b64urlEncode (hmac secret payload) \<and>
     CHR ''.'' \<notin> set payload \<and> b64urlDecode payload = Some b \<and> unmarshal b = Some p"
    using assms(2) b64url_roundtrip b64_plain by blast
qed

text \<open>C32: A signed token verifies under its secret and gives its payload back; and every token that verifies ends with the
  signature of the text before its dot, so no other text can carry that signature unless the signatures are the same.\<close>

theorem signed_token_roundtrip:
  assumes "MakeSignedToken hmac marshal secret p = Inr token" and "\<And>b. marshal p = Some b \<Longrightarrow> unmarshal b = Some p"
  shows "VerifySignedToken hmac unmarshal secret token = Inr p \<and>
    (\<forall>token' q. VerifySignedToken hmac unmarshal secret token' = Inr q \<longrightarrow>
      (\<exists>payload. CHR ''.'' \<notin> set payload \<and> token' = payload @ ''.'' @ b64urlEncode (hmac secret payload)))"
proof (intro conjI allI impI)
  show "VerifySignedToken hmac unmarshal secret token = Inr p" by (rule signed_token_verifies [OF assms])
  fix token' q
  assume "VerifySignedToken hmac unmarshal secret token' = Inr q"
  then show "\<exists>payload. CHR ''.'' \<notin> set payload \<and> token' = payload @ ''.'' @ b64urlEncode (hmac secret payload)"
    unfolding VerifySignedToken_iff by (elim exE conjE) (intro exI conjI)
qed

definition some_hmac :: hmac_fun where
  "some_hmac secret s = [of_nat (length secret), of_nat (length s)]"

theorem signed_token_roundtrip_witness:
  "\<exists>token. MakeSignedToken some_hmac Some ''key'' [1, 2, 3, 255] = Inr token \<and> VerifySignedToken some_hmac Some ''key'' token = Inr [1, 2, 3, 255]"
proof -
  define token where "token = b64urlEncode [1, 2, 3, 255] @ ''.'' @ b64urlEncode (some_hmac ''key'' (b64urlEncode [1, 2, 3, 255]))"
  have t: "MakeSignedToken some_hmac Some ''key'' [1, 2, 3, 255] = Inr token"
    unfolding MakeSignedToken_def Let_def option.case token_def by (rule refl)
  have "VerifySignedToken some_hmac Some ''key'' token = Inr [1, 2, 3, 255]"
    by (rule conjunct1 [OF signed_token_roundtrip [OF t]]) simp
  with t show ?thesis by (intro exI conjI)
qed

end
