(* ===== verification/Idx_Dispatch.thy ===== *)
theory Idx_Dispatch
  imports Config_Assign Cron_Tasks Signed_Token Service_Worker
begin

text \<open>
  Boot scripts of IDX nodes: their dispatch when an agent connects (\<open>dispatchIDXMetaOnce\<close> in \<open>service/rpc/nezha.go\<close>), the
  script a node fetches with its token and the preview of it (\<open>idx_script.go\<close>, \<open>idx_preview.go\<close> in
  \<open>cmd/dashboard/controller\<close>), and the results of tasks (\<open>RequestTask\<close>).

  The executor of templates is an argument: given a text, the function \<open>v\<close> and the variables it answers with the text, or
  with nothing for a template it cannot read or run. \<open>fails n\<close> says that the database refuses the n-th statement; where the
  code discards the error the state stays as it is. A query for one row that finds none is an error.
  The texts of errors of libraries are left out.
\<close>

subsection \<open>State\<close>

record idx_run =
  rn_ID :: uint64
  rn_ServerID :: uint64
  rn_WorkspaceSlug :: string
  rn_BootTime :: uint64
  rn_AssignmentID :: uint64
  rn_TargetType :: string
  rn_Priority :: int
  rn_ConfigID :: uint64
  rn_TemplateID :: uint64
  rn_Status :: string
  rn_Successful :: "bool option"
  rn_Command :: string
  rn_Output :: string
  rn_Error :: string
  rn_DispatchedAt :: int
  rn_FetchedAt :: "int option"
  rn_FinishedAt :: "int option"

record idx_event =
  ev_ID :: uint64
  ev_ServerID :: uint64
  ev_WorkspaceSlug :: string
  ev_BootTime :: uint64
  ev_Stage :: string
  ev_AssignmentID :: uint64
  ev_TargetType :: string
  ev_Priority :: int
  ev_ConfigID :: uint64
  ev_TemplateID :: uint64
  ev_Successful :: "bool option"
  ev_Message :: string

text \<open>The columns of the unique index of boot runs.\<close>

record boot_run =
  br_ServerID :: uint64
  br_BootTime :: uint64
  br_ScriptID :: string

definition IdxMetaRunSkipped :: string where "IdxMetaRunSkipped = ''skipped''"
definition IdxMetaRunDispatched :: string where "IdxMetaRunDispatched = ''dispatched''"
definition IdxMetaRunFetched :: string where "IdxMetaRunFetched = ''fetched''"
definition IdxMetaRunSuccess :: string where "IdxMetaRunSuccess = ''success''"
definition IdxMetaRunFailed :: string where "IdxMetaRunFailed = ''failed''"

definition IdxMetaStageDispatchAttempt :: string where "IdxMetaStageDispatchAttempt = ''dispatch_attempt''"
definition IdxMetaStageDispatched :: string where "IdxMetaStageDispatched = ''dispatched''"
definition IdxMetaStageSendFailed :: string where "IdxMetaStageSendFailed = ''send_failed''"
definition IdxMetaStageScriptFetched :: string where "IdxMetaStageScriptFetched = ''script_fetched''"
definition IdxMetaStageResult :: string where "IdxMetaStageResult = ''result''"

lemmas status_defs = IdxMetaRunSkipped_def IdxMetaRunDispatched_def IdxMetaRunFetched_def IdxMetaRunSuccess_def IdxMetaRunFailed_def
lemmas stage_defs = IdxMetaStageDispatchAttempt_def IdxMetaStageDispatched_def IdxMetaStageSendFailed_def IdxMetaStageScriptFetched_def
  IdxMetaStageResult_def

text \<open>\<open>ix_groups\<close> are pairs of a group and a server.\<close>

record idx_db =
  ix_cfg :: cfg_db
  ix_asgs :: "asg_row list"
  ix_groups :: "(uint64 \<times> uint64) list"
  ix_runs :: "idx_run list"
  ix_events :: "idx_event list"
  ix_boots :: "boot_run list"

text \<open>What the agent of a server that connects says of itself; \<open>sn_BootTime\<close> is \<open>None\<close> before it reported its host.\<close>

record idx_server =
  sn_ID :: uint64
  sn_Name :: string
  sn_Connected :: bool
  sn_BootTime :: "uint64 option"
  sn_RuntimeIDX :: bool
  sn_RuntimeWorkspaceSlug :: string

text \<open>The payload of a token.\<close>

record idx_payload =
  pl_RunID :: uint64
  pl_ServerID :: uint64
  pl_WorkspaceSlug :: string
  pl_BootTime :: uint64
  pl_ExpiresAtUnix :: int

type_synonym tpl_exec = "string \<Rightarrow> (string \<Rightarrow> any_val) \<Rightarrow> vars_map \<Rightarrow> string option"

record idx_world =
  iw_now :: int
  iw_fails :: "nat \<Rightarrow> bool"
  iw_run :: uint64
  iw_event :: uint64
  iw_exec :: tpl_exec
  iw_hmac :: hmac_fun
  iw_marshal :: "idx_payload \<Rightarrow> byte list option"
  iw_unmarshal :: "byte list \<Rightarrow> idx_payload option"
  iw_secret :: string
  iw_host :: string
  iw_tls :: bool
  iw_sent :: bool

subsection \<open>Helpers\<close>

definition normalizeTag :: "string \<Rightarrow> string" where
  "normalizeTag s = ToLower (TrimSpace s)"

definition normalizeSlug :: "string \<Rightarrow> string" where
  "normalizeSlug s = ToLower (TrimSpace s)"

definition upper_char :: "char \<Rightarrow> char" where
  "upper_char c = (let n = (of_char c :: nat) in if 97 \<le> n \<and> n \<le> 122 then char_of (n - 32) else c)"

definition ToUpper :: "string \<Rightarrow> string" where
  "ToUpper = map upper_char"

definition idx_v :: "vars_map \<Rightarrow> string \<Rightarrow> any_val" where
  "idx_v vars k = (let key = TrimSpace k in if key = [] then AnyString []
     else case map_of vars key of Some x \<Rightarrow> x | None \<Rightarrow> (case map_of vars (ToUpper key) of Some x \<Rightarrow> x | None \<Rightarrow> AnyString []))"

definition script_vars :: "cfg_row \<Rightarrow> string \<Rightarrow> uint64 \<Rightarrow> uint64 \<Rightarrow> vars_map" where
  "script_vars g slug sid boot = AList.update ''BOOT_TIME'' (AnyUint boot) (AList.update ''SERVER_ID'' (AnyUint sid)
     (AList.update ''WORKSPACE_SLUG'' (AnyString slug) (cg_VarsOverride g)))"

definition sh_wrap :: "string \<Rightarrow> string" where
  "sh_wrap s = (if HasPrefix s ''#!'' then s else ''#!/bin/sh'' @ [CHR 0x0A] @ ''set -eu'' @ [CHR 0x0A, CHR 0x0A] @ s)"

definition hex_digit :: "nat \<Rightarrow> char" where
  "hex_digit n = (if n < 10 then char_of (48 + n) else char_of (87 + n))"

text \<open>The verb \<open>%q\<close> on ASCII text.\<close>

definition quote_char :: "char \<Rightarrow> string" where
  "quote_char c = (let n = (of_char c :: nat) in
     if c = CHR 0x22 \<or> c = CHR 0x5C then [CHR 0x5C, c]
     else if n = 7 then [CHR 0x5C, CHR ''a''] else if n = 8 then [CHR 0x5C, CHR ''b''] else if n = 12 then [CHR 0x5C, CHR ''f'']
     else if n = 10 then [CHR 0x5C, CHR ''n''] else if n = 13 then [CHR 0x5C, CHR ''r''] else if n = 9 then [CHR 0x5C, CHR ''t'']
     else if n = 11 then [CHR 0x5C, CHR ''v''] else if n < 32 \<or> n = 127 then [CHR 0x5C, CHR ''x'', hex_digit (n div 16), hex_digit (n mod 16)]
     else [c])"

definition go_quote :: "string \<Rightarrow> string" where
  "go_quote s = [CHR 0x22] @ concat (map quote_char s) @ [CHR 0x22]"

text \<open>A statement whose error is discarded.\<close>

definition best_effort :: "bool \<Rightarrow> ('s \<Rightarrow> 's) \<Rightarrow> 's \<Rightarrow> 's" where
  "best_effort failed f s = (if failed then s else f s)"

definition upd_run :: "uint64 \<Rightarrow> (idx_run \<Rightarrow> idx_run) \<Rightarrow> idx_db \<Rightarrow> idx_db" where
  "upd_run k f d = d\<lparr>ix_runs := update_id rn_ID k f (ix_runs d)\<rparr>"

definition upd_event :: "uint64 \<Rightarrow> (idx_event \<Rightarrow> idx_event) \<Rightarrow> idx_db \<Rightarrow> idx_db" where
  "upd_event k f d = d\<lparr>ix_events := update_id ev_ID k f (ix_events d)\<rparr>"

definition groups_of :: "uint64 \<Rightarrow> idx_db \<Rightarrow> uint64 list" where
  "groups_of sid d = map fst (filter (\<lambda>p. snd p = sid) (ix_groups d))"

subsection \<open>The choice of an assignment\<close>

text \<open>The query of the dispatch: the groups are added with \<open>Or\<close> to the whole condition, so it reads
  \<open>enabled AND (server OR tag) OR group\<close>.\<close>

definition dispatch_matches :: "uint64 \<Rightarrow> uint64 list \<Rightarrow> string \<Rightarrow> asg_row \<Rightarrow> bool" where
  "dispatch_matches sid gs slug a \<longleftrightarrow> ag_Enabled a \<and> (targets_server sid a \<or> targets_tag slug a) \<or> gs \<noteq> [] \<and> targets_groups gs a"

text \<open>The query of the script and of the preview.\<close>

definition script_matches :: "uint64 \<Rightarrow> uint64 list \<Rightarrow> string \<Rightarrow> asg_row \<Rightarrow> bool" where
  "script_matches sid gs slug a \<longleftrightarrow> ag_Enabled a \<and> (targets_tag slug a \<or> targets_server sid a \<or> gs \<noteq> [] \<and> targets_groups gs a)"

subsection \<open>The dispatch\<close>

definition idx_meta :: string where "idx_meta = ''idx-meta''"

definition new_run :: "idx_world \<Rightarrow> uint64 \<Rightarrow> string \<Rightarrow> uint64 \<Rightarrow> idx_run" where
  "new_run w sid slug boot = \<lparr>rn_ID = iw_run w, rn_ServerID = sid, rn_WorkspaceSlug = slug, rn_BootTime = boot, rn_AssignmentID = 0,
     rn_TargetType = [], rn_Priority = 0, rn_ConfigID = 0, rn_TemplateID = 0, rn_Status = IdxMetaRunDispatched, rn_Successful = None,
     rn_Command = [], rn_Output = [], rn_Error = [], rn_DispatchedAt = iw_now w, rn_FetchedAt = None, rn_FinishedAt = None\<rparr>"

definition new_event :: "uint64 \<Rightarrow> uint64 \<Rightarrow> string \<Rightarrow> uint64 \<Rightarrow> string \<Rightarrow> string \<Rightarrow> idx_event" where
  "new_event k sid slug boot stage msg = \<lparr>ev_ID = k, ev_ServerID = sid, ev_WorkspaceSlug = slug, ev_BootTime = boot, ev_Stage = stage,
     ev_AssignmentID = 0, ev_TargetType = [], ev_Priority = 0, ev_ConfigID = 0, ev_TemplateID = 0, ev_Successful = None, ev_Message = msg\<rparr>"

definition skip_run :: "string \<Rightarrow> idx_run \<Rightarrow> idx_run" where
  "skip_run e r = r\<lparr>rn_Status := IdxMetaRunSkipped, rn_Error := e\<rparr>"

definition fail_run :: "string \<Rightarrow> idx_run \<Rightarrow> idx_run" where
  "fail_run e r = r\<lparr>rn_Status := IdxMetaRunFailed, rn_Error := e\<rparr>"

definition stage_event :: "string \<Rightarrow> string \<Rightarrow> idx_event \<Rightarrow> idx_event" where
  "stage_event st m e = e\<lparr>ev_Stage := st, ev_Message := m\<rparr>"

definition drop_boot :: "boot_run \<Rightarrow> idx_db \<Rightarrow> idx_db" where
  "drop_boot b d = d\<lparr>ix_boots := filter (\<lambda>x. x \<noteq> b) (ix_boots d)\<rparr>"

text \<open>From the check of the boot on: the token, the command and the sending of the task.\<close>

definition send_script :: "idx_world \<Rightarrow> uint64 \<Rightarrow> uint64 \<Rightarrow> uint64 \<Rightarrow> string \<Rightarrow> uint64 \<Rightarrow> asg_row \<Rightarrow> tpl_row \<Rightarrow> idx_db \<Rightarrow>
    idx_db \<times> (uint64 \<times> string) option" where
  "send_script w rid eid sid slug boot asg tpl d =
     (let b = \<lparr>br_ServerID = sid, br_BootTime = boot, br_ScriptID = idx_meta\<rparr>;
          p = \<lparr>pl_RunID = rid, pl_ServerID = sid, pl_WorkspaceSlug = slug, pl_BootTime = boot, pl_ExpiresAtUnix = (iw_now w + 120000000000) div 1000000000\<rparr>
      in if iw_fails w 6 then (d, None)
         else if b \<in> set (ix_boots d)
         then (best_effort (iw_fails w 8) (upd_event eid (stage_event IdxMetaStageResult ''skipped: already dispatched in this boot''))
           (best_effort (iw_fails w 7) (upd_run rid (skip_run ''already dispatched in this boot'')) d), None)
         else let d1 = d\<lparr>ix_boots := ix_boots d @ [b]\<rparr>
           in case MakeSignedToken (iw_hmac w) (iw_marshal w) (iw_secret w) p of
                Inl e \<Rightarrow> (best_effort (iw_fails w 8) (upd_run rid (fail_run ''token build failed'')) (best_effort (iw_fails w 7) (drop_boot b) d1), None)
              | Inr tok \<Rightarrow> let cmd = take 2048 (''curl -fsSL '' @ go_quote (BuildIDXScriptURL (iw_host w) (iw_tls w) tok) @ '' | sh'');
                    d2 = best_effort (iw_fails w 7) (upd_run rid (\<lambda>r. r\<lparr>rn_AssignmentID := ag_ID asg, rn_TargetType := ag_TargetType asg,
                      rn_Priority := ag_Priority asg, rn_ConfigID := ag_ConfigID asg, rn_TemplateID := tp_ID tpl, rn_Command := cmd\<rparr>)) d1;
                    d3 = best_effort (iw_fails w 8) (upd_event eid (\<lambda>e. e\<lparr>ev_Stage := IdxMetaStageDispatched, ev_AssignmentID := ag_ID asg,
                      ev_TargetType := ag_TargetType asg, ev_Priority := ag_Priority asg, ev_ConfigID := ag_ConfigID asg, ev_TemplateID := tp_ID tpl,
                      ev_Message := cmd\<rparr>)) d2
                  in if iw_sent w then (d3, Some (rid, cmd))
                     else (best_effort (iw_fails w 11) (upd_event eid (stage_event IdxMetaStageSendFailed ''send failed''))
                       (best_effort (iw_fails w 10) (upd_run rid (fail_run ''send failed'')) (best_effort (iw_fails w 9) (drop_boot b) d3)), None))"

text \<open>From the query of the assignment on, with the rows of the run and of the event in place.\<close>

definition dispatch_assigned :: "idx_world \<Rightarrow> uint64 \<Rightarrow> uint64 \<Rightarrow> uint64 \<Rightarrow> string \<Rightarrow> uint64 \<Rightarrow> idx_db \<Rightarrow> idx_db \<times> (uint64 \<times> string) option" where
  "dispatch_assigned w rid eid sid slug boot d =
     (let gs = (if iw_fails w 2 then [] else groups_of sid d);
          skipped = (\<lambda>e. (best_effort (iw_fails w 8) (upd_event eid (stage_event IdxMetaStageSendFailed e))
            (best_effort (iw_fails w 7) (upd_run rid (skip_run e)) d), None))
      in case (if iw_fails w 3 then None else first_asg (filter (dispatch_matches sid gs slug) (ix_asgs d))) of None \<Rightarrow> skipped ''no matching assignment''
     | Some asg \<Rightarrow> case (if iw_fails w 4 then None else first_id cg_ID (ag_ConfigID asg) (db_configs (ix_cfg d))) of None \<Rightarrow> (d, None)
     | Some cfg \<Rightarrow> if \<not> cg_Enabled cfg then (d, None)
       else case (if iw_fails w 5 then None else first_id tp_ID (cg_TemplateID cfg) (db_templates (ix_cfg d))) of None \<Rightarrow> (d, None)
     | Some tpl \<Rightarrow> if TrimSpace (ToLower (tp_Type tpl)) \<noteq> ''script'' then skipped ''template type is not script''
       else let vars = script_vars cfg slug sid boot
         in case iw_exec w (tp_ContentRaw tpl) (idx_v vars) vars of None \<Rightarrow> (d, None)
     | Some rendered \<Rightarrow> if TrimSpace rendered = [] then (d, None) else send_script w rid eid sid slug boot asg tpl d)"

definition dispatchIDXMetaOnce :: "idx_world \<Rightarrow> idx_server option \<Rightarrow> idx_db \<Rightarrow> idx_db \<times> (uint64 \<times> string) option" where
  "dispatchIDXMetaOnce w server d = (case server of None \<Rightarrow> (d, None)
     | Some s \<Rightarrow> if \<not> sn_Connected s then (d, None) else case sn_BootTime s of None \<Rightarrow> (d, None)
     | Some boot \<Rightarrow> let slug = normalizeTag (sn_RuntimeWorkspaceSlug s); sid = sn_ID s
       in if boot = 0 \<or> \<not> sn_RuntimeIDX s \<or> slug = [] then (d, None)
          else let rid = (if iw_fails w 0 then 0 else iw_run w); eid = (if iw_fails w 1 then 0 else iw_event w);
                   d1 = best_effort (iw_fails w 0) (\<lambda>x. x\<lparr>ix_runs := ix_runs x @ [new_run w sid slug boot]\<rparr>) d;
                   d2 = best_effort (iw_fails w 1) (\<lambda>x. x\<lparr>ix_events := ix_events x @ [new_event eid sid slug boot IdxMetaStageDispatchAttempt []]\<rparr>) d1
          in dispatch_assigned w rid eid sid slug boot d2)"

subsection \<open>The script of a node\<close>

definition parseIDXToken :: "idx_world \<Rightarrow> string \<Rightarrow> string + idx_payload" where
  "parseIDXToken w tok = (case VerifySignedToken (iw_hmac w) (iw_unmarshal w) (iw_secret w) tok of Inl e \<Rightarrow> Inl e
     | Inr p \<Rightarrow> if pl_ExpiresAtUnix p \<le> iw_now w div 1000000000 then Inl ''token expired''
         else let q = p\<lparr>pl_WorkspaceSlug := normalizeSlug (pl_WorkspaceSlug p)\<rparr>
           in if pl_ServerID q = 0 \<or> pl_WorkspaceSlug q = [] \<or> pl_BootTime q = 0 then Inl ''invalid token fields'' else Inr q)"

text \<open>The configuration and the template of an assignment, as the script and the preview load them.\<close>

definition load_script :: "bool \<Rightarrow> bool \<Rightarrow> asg_row \<Rightarrow> cfg_db \<Rightarrow> string + cfg_row \<times> tpl_row" where
  "load_script f1 f2 asg db = (case (if f1 then None else first_id cg_ID (ag_ConfigID asg) (db_configs db)) of None \<Rightarrow> Inl ''database error''
     | Some cfg \<Rightarrow> if \<not> cg_Enabled cfg then Inl ''config is disabled''
         else case (if f2 then None else first_id tp_ID (cg_TemplateID cfg) (db_templates db)) of None \<Rightarrow> Inl ''database error''
     | Some tpl \<Rightarrow> if TrimSpace (ToLower (tp_Type tpl)) \<noteq> ''script'' then Inl ''template type is not script'' else Inr (cfg, tpl))"

definition render_script :: "tpl_exec \<Rightarrow> string \<Rightarrow> vars_map \<Rightarrow> string + string" where
  "render_script exec content vars = (case exec content (idx_v vars) vars of None \<Rightarrow> Inl ''template error''
     | Some rendered \<Rightarrow> if TrimSpace rendered = [] then Inl ''rendered script is empty'' else Inr (sh_wrap rendered))"

definition getIDXRenderedScript :: "idx_world \<Rightarrow> string \<Rightarrow> idx_db \<Rightarrow> idx_db \<times> (string + string)" where
  "getIDXRenderedScript w query d = (let tok = TrimSpace query in if tok = [] then (d, Inl ''token is required'')
     else case parseIDXToken w tok of
       Inl e \<Rightarrow> (best_effort (iw_fails w 0) (\<lambda>x. x\<lparr>ix_events := ix_events x @ [new_event (iw_event w) 0 [] 0 IdxMetaStageScriptFetched (''token invalid: '' @ e)]\<rparr>) d, Inl e)
     | Inr p \<Rightarrow> let d1 = best_effort (iw_fails w 0) (\<lambda>x. x\<lparr>ix_events := ix_events x @
             [new_event (iw_event w) (pl_ServerID p) (pl_WorkspaceSlug p) (pl_BootTime p) IdxMetaStageScriptFetched ''ok'']\<rparr>) d;
           d2 = (if pl_RunID p \<noteq> 0 then best_effort (iw_fails w 1) (upd_run (pl_RunID p) (\<lambda>r. r\<lparr>rn_Status := IdxMetaRunFetched, rn_FetchedAt := Some (iw_now w)\<rparr>)) d1 else d1);
           gs = (if iw_fails w 2 then [] else groups_of (pl_ServerID p) d2)
         in if iw_fails w 3 then (d2, Inl ''database error'')
            else case first_asg (filter (script_matches (pl_ServerID p) gs (pl_WorkspaceSlug p)) (ix_asgs d2)) of None \<Rightarrow> (d2, Inl ''no matching assignment'')
     | Some asg \<Rightarrow> case load_script (iw_fails w 4) (iw_fails w 5) asg (ix_cfg d2) of Inl e \<Rightarrow> (d2, Inl e)
     | Inr (cfg, tpl) \<Rightarrow> (d2, render_script (iw_exec w) (tp_ContentRaw tpl) (script_vars cfg (pl_WorkspaceSlug p) (pl_ServerID p) (pl_BootTime p))))"

subsection \<open>The preview\<close>

record preview_query =
  pq_WorkspaceSlug :: string
  pq_ServerID :: uint64
  pq_ServerName :: string

definition preview_matches :: "uint64 \<Rightarrow> uint64 list \<Rightarrow> string \<Rightarrow> asg_row \<Rightarrow> bool" where
  "preview_matches sid gs slug a \<longleftrightarrow> ag_Enabled a \<and> (targets_tag slug a \<or> sid \<noteq> 0 \<and> (targets_server sid a \<or> gs \<noteq> [] \<and> targets_groups gs a))"

text \<open>The server a query is about: \<open>by_name\<close> is the number of a server of that name in the database.\<close>

definition preview_server :: "(string \<Rightarrow> uint64 option) \<Rightarrow> idx_server list \<Rightarrow> preview_query \<Rightarrow> string + uint64" where
  "preview_server by_name servers q = (let slug = normalizeSlug (pq_WorkspaceSlug q) in
     if pq_ServerID q \<noteq> 0 then Inr (pq_ServerID q)
     else if TrimSpace (pq_ServerName q) \<noteq> [] then (case by_name (TrimSpace (pq_ServerName q)) of None \<Rightarrow> Inl ''server not found'' | Some k \<Rightarrow> Inr k)
     else (let sid = (case find (\<lambda>s. normalizeSlug (sn_RuntimeWorkspaceSlug s) = slug) servers of None \<Rightarrow> 0 | Some s \<Rightarrow> sn_ID s)
       in Inr (if sid = 0 then (case by_name slug of None \<Rightarrow> 0 | Some k \<Rightarrow> k) else sid)))"

definition previewIDXScript :: "idx_world \<Rightarrow> user option \<Rightarrow> (string \<Rightarrow> uint64 option) \<Rightarrow> idx_server list \<Rightarrow> preview_query \<Rightarrow> idx_db \<Rightarrow> string + string" where
  "previewIDXScript w c by_name servers q d = (let slug = normalizeSlug (pq_WorkspaceSlug q) in
     if \<not> isAdmin c then Inl ''permission denied'' else if slug = [] then Inl ''workspace_slug is required''
     else case preview_server by_name servers q of Inl e \<Rightarrow> Inl e
     | Inr sid \<Rightarrow> let gs = (if sid = 0 \<or> iw_fails w 2 then [] else groups_of sid d)
         in if iw_fails w 3 then Inl ''database error''
            else case first_asg (filter (preview_matches sid gs slug) (ix_asgs d)) of None \<Rightarrow> Inl ''no matching assignment''
     | Some asg \<Rightarrow> case load_script (iw_fails w 4) (iw_fails w 5) asg (ix_cfg d) of Inl e \<Rightarrow> Inl e
     | Inr (cfg, tpl) \<Rightarrow> let vars = AList.update ''WORKSPACE_SLUG'' (AnyString slug) (cg_VarsOverride cfg)
         in render_script (iw_exec w) (tp_ContentRaw tpl) (if sid \<noteq> 0 then AList.update ''SERVER_ID'' (AnyUint sid) vars else vars))"

subsection \<open>Clearing the runs\<close>

record clear_form =
  xf_ServerID :: uint64
  xf_WorkspaceSlug :: string
  xf_BeforeUnix :: int
  xf_Status :: string
  xf_ClearAll :: bool

text \<open>A deletion without a condition is refused by the database library unless \<open>all\<close>.\<close>

definition clearIdxMetaRuns :: "bool \<Rightarrow> user option \<Rightarrow> bool \<Rightarrow> clear_form \<Rightarrow> idx_db \<Rightarrow> idx_db \<times> (string + unit)" where
  "clearIdxMetaRuns all c failed sf d = (let slug = normalizeSlug (xf_WorkspaceSlug sf); st = TrimSpace (xf_Status sf) in
     if \<not> isAdmin c then (d, Inl ''permission denied'')
     else if \<not> xf_ClearAll sf \<and> xf_ServerID sf = 0 \<and> TrimSpace (xf_WorkspaceSlug sf) = [] \<and> xf_BeforeUnix sf = 0 \<and> st = []
     then (d, Inl ''refusing to clear without filters; set clear_all=true to wipe everything'')
     else if failed \<or> \<not> all \<and> xf_ServerID sf = 0 \<and> slug = [] \<and> xf_BeforeUnix sf \<le> 0 \<and> st = [] then (d, Inl ''database error'')
     else (d\<lparr>ix_runs := filter (\<lambda>r. \<not> ((xf_ServerID sf = 0 \<or> rn_ServerID r = xf_ServerID sf) \<and> (slug = [] \<or> rn_WorkspaceSlug r = slug) \<and>
       (xf_BeforeUnix sf \<le> 0 \<or> rn_DispatchedAt r < xf_BeforeUnix sf * 1000000000) \<and> (st = [] \<or> rn_Status r = st))) (ix_runs d)\<rparr>, Inr ()))"

subsection \<open>Results of tasks\<close>

definition TaskTypeCommand :: uint64 where "TaskTypeCommand = 4"
definition TaskTypeReportConfig :: uint64 where "TaskTypeReportConfig = 12"
definition TaskTypeTunnelSync :: uint64 where "TaskTypeTunnelSync = 14"
definition TaskTypeTunnelReport :: uint64 where "TaskTypeTunnelReport = 15"

text \<open>A notification to a group about a task, a server and its output; the result written to the row of a task; a report handed
  to the service sentinel.\<close>

datatype result_event = TaskSucceeded uint64 string string string | TaskFailed uint64 string string string | TaskRow uint64 bool | ToSentinel uint64 task_result

definition finish_run :: "idx_world \<Rightarrow> task_result \<Rightarrow> idx_db \<Rightarrow> idx_db" where
  "finish_run w r d = (case (if iw_fails w 0 then None else first_id rn_ID (tr_Id r) (ix_runs d)) of None \<Rightarrow> d
     | Some run \<Rightarrow> if rn_Status run = IdxMetaRunDispatched \<or> rn_Status run = IdxMetaRunFetched
         then best_effort (iw_fails w 1) (upd_run (rn_ID run) (\<lambda>x. x\<lparr>rn_Status := (if tr_Successful r then IdxMetaRunSuccess else IdxMetaRunFailed),
           rn_Successful := Some (tr_Successful r), rn_Output := take (32 * 1024) (tr_Data r), rn_FinishedAt := Some (iw_now w)\<rparr>)) d
         else d)"

definition finish_event :: "idx_world \<Rightarrow> task_result \<Rightarrow> idx_db \<Rightarrow> idx_db" where
  "finish_event w r d = (case (if iw_fails w 2 then None else first_id ev_ID (tr_Id r) (ix_events d)) of None \<Rightarrow> d
     | Some e \<Rightarrow> if ev_Stage e = IdxMetaStageDispatched
         then best_effort (iw_fails w 3) (upd_event (ev_ID e) (\<lambda>x. x\<lparr>ev_Stage := IdxMetaStageResult, ev_Successful := Some (tr_Successful r),
           ev_Message := take 8192 (tr_Data r)\<rparr>)) d
         else d)"

text \<open>\<open>nonzero_only\<close>: an update with a struct writes only the fields that are not zero.\<close>

definition cron_result :: "bool \<Rightarrow> task_result \<Rightarrow> string \<Rightarrow> cron_task option \<Rightarrow> result_event list" where
  "cron_result nonzero_only r name cr = (case cr of None \<Rightarrow> []
     | Some t \<Rightarrow> (if cr_PushSuccessful t \<and> tr_Successful r then [TaskSucceeded (cr_NotificationGroupID t) (cr_Name t) name (tr_Data r)] else []) @
         (if \<not> tr_Successful r then [TaskFailed (cr_NotificationGroupID t) (cr_Name t) name (tr_Data r)] else []) @
         [TaskRow (cr_ID t) (if nonzero_only \<and> \<not> tr_Successful r then cr_LastResult t else tr_Successful r)])"

text \<open>The channels of a server hold one answer each.\<close>

record agent_caches =
  ac_Config :: "(string + string) option"
  ac_Tunnel :: "(string + string) option"

definition put_answer :: "task_result \<Rightarrow> (string + string) option \<Rightarrow> (string + string) option" where
  "put_answer r ch = (case ch of Some x \<Rightarrow> Some x | None \<Rightarrow> Some (if tr_Successful r then Inr (tr_Data r) else Inl (tr_Data r)))"

text \<open>One message of the loop of \<open>RequestTask\<close>.\<close>

definition task_message :: "idx_world \<Rightarrow> bool \<Rightarrow> uint64 \<Rightarrow> string \<Rightarrow> cron_class \<Rightarrow> task_result \<Rightarrow> agent_caches \<times> idx_db \<Rightarrow>
    (agent_caches \<times> idx_db) \<times> result_event list" where
  "task_message w nonzero_only client name crons r st = (case st of (ac, d) \<Rightarrow>
     if tr_Type r = TaskTypeCommand then ((ac, finish_event w r (finish_run w r d)), cron_result nonzero_only r name (map_of (cc_list crons) (tr_Id r)))
     else if tr_Type r = TaskTypeReportConfig then ((ac\<lparr>ac_Config := put_answer r (ac_Config ac)\<rparr>, d), [])
     else if tr_Type r = TaskTypeTunnelSync \<or> tr_Type r = TaskTypeTunnelReport then ((ac\<lparr>ac_Tunnel := put_answer r (ac_Tunnel ac)\<rparr>, d), [])
     else if IsServiceSentinelNeeded (tr_Type r) then ((ac, d), [ToSentinel client r]) else ((ac, d), []))"

subsection \<open>Once per boot\<close>

text \<open>The operations that touch the state, with the server and boot of every task that was sent.\<close>

inductive idx_reach :: "(uint64 \<times> uint64) list \<Rightarrow> idx_db \<Rightarrow> bool" where
  ir_start: "ix_boots d = [] \<Longrightarrow> idx_reach [] d"
| ir_dispatch: "idx_reach tr d \<Longrightarrow> dispatchIDXMetaOnce w server d = (d', out) \<Longrightarrow>
    idx_reach (case out of None \<Rightarrow> tr | Some t \<Rightarrow> tr @ [(sn_ID (the server), the (sn_BootTime (the server)))]) d'"
| ir_fetch: "idx_reach tr d \<Longrightarrow> idx_reach tr (fst (getIDXRenderedScript w query d))"
| ir_message: "idx_reach tr d \<Longrightarrow> idx_reach tr (snd (fst (task_message w nz client name crons r (ac, d))))"
| ir_clear: "idx_reach tr d \<Longrightarrow> idx_reach tr (fst (clearIdxMetaRuns al c failed sf d))"
| ir_config: "idx_reach tr d \<Longrightarrow> idx_reach tr (d\<lparr>ix_cfg := cfg, ix_asgs := asgs, ix_groups := gs\<rparr>)"

named_theorems boots_simps "what leaves the boot runs as they are"

lemma best_effort_boots [boots_simps]: "(\<And>x. ix_boots (f x) = ix_boots x) \<Longrightarrow> ix_boots (best_effort b f d) = ix_boots d"
  by (simp add: best_effort_def)

lemma upd_boots [boots_simps]: "ix_boots (upd_run k f d) = ix_boots d" "ix_boots (upd_event k g d) = ix_boots d"
  by (simp_all add: upd_run_def upd_event_def)

lemma drop_boots: "set (ix_boots (best_effort b (drop_boot x) d)) \<supseteq> set (ix_boots d) - {x}"
  by (auto simp: best_effort_def drop_boot_def)

lemma send_script_boots:
  assumes "send_script w rid eid sid slug boot asg tpl d = (d', out)"
  defines "b \<equiv> \<lparr>br_ServerID = sid, br_BootTime = boot, br_ScriptID = idx_meta\<rparr>"
  shows "(out = None \<longrightarrow> set (ix_boots d) \<subseteq> set (ix_boots d')) \<and>
    (out \<noteq> None \<longrightarrow> b \<notin> set (ix_boots d) \<and> set (ix_boots d') = insert b (set (ix_boots d)))"
proof -
  have drop: "set (ix_boots d) \<subseteq> set (ix_boots (best_effort f (drop_boot b) e))" if "ix_boots e = ix_boots d @ [b]" "b \<notin> set (ix_boots d)" for f e
    using drop_boots [of e b f] that by auto
  show ?thesis
    using assms(1) unfolding send_script_def Let_def b_def [symmetric]
    by (auto simp: boots_simps drop [THEN subsetD] split: if_splits sum.splits)
qed

lemma dispatch_assigned_cases:
  assumes "dispatch_assigned w rid eid sid slug boot d = (d', out)"
  shows "out = None \<and> ix_boots d' = ix_boots d \<or> (\<exists>asg tpl. send_script w rid eid sid slug boot asg tpl d = (d', out))"
proof -
  have eq: "(x, None) = (d', out) \<Longrightarrow> ix_boots x = ix_boots d \<Longrightarrow> out = None \<and> ix_boots d' = ix_boots d" for x by auto
  show ?thesis
    using assms unfolding dispatch_assigned_def Let_def
    by (simp split: option.splits if_splits; use eq in \<open>auto simp: boots_simps\<close>)
qed

lemma dispatch_cases:
  assumes "dispatchIDXMetaOnce w server d = (d', out)"
  shows "out = None \<and> ix_boots d' = ix_boots d \<or> (\<exists>s boot rid eid slug asg tpl d2. server = Some s \<and> sn_BootTime s = Some boot \<and>
    ix_boots d2 = ix_boots d \<and> send_script w rid eid (sn_ID s) slug boot asg tpl d2 = (d', out))"
proof (cases server)
  case (Some s)
  show ?thesis
  proof (cases "sn_BootTime s")
    case (Some boot)
    define slug where "slug = normalizeTag (sn_RuntimeWorkspaceSlug s)"
    define rid where "rid = (if iw_fails w 0 then 0 else iw_run w)"
    define eid where "eid = (if iw_fails w 1 then 0 else iw_event w)"
    define d2 where "d2 = best_effort (iw_fails w 1) (\<lambda>x. x\<lparr>ix_events := ix_events x @ [new_event eid (sn_ID s) slug boot IdxMetaStageDispatchAttempt []]\<rparr>)
      (best_effort (iw_fails w 0) (\<lambda>x. x\<lparr>ix_runs := ix_runs x @ [new_run w (sn_ID s) slug boot]\<rparr>) d)"
    have boots: "ix_boots d2 = ix_boots d" by (simp add: d2_def boots_simps)
    have "dispatchIDXMetaOnce w server d = (if \<not> sn_Connected s then (d, None) else if boot = 0 \<or> \<not> sn_RuntimeIDX s \<or> slug = [] then (d, None)
        else dispatch_assigned w rid eid (sn_ID s) slug boot d2)"
      by (simp add: dispatchIDXMetaOnce_def \<open>server = Some s\<close> Some Let_def slug_def rid_def eid_def d2_def)
    then show ?thesis
      using assms boots Some \<open>server = Some s\<close> dispatch_assigned_cases [of w rid eid "sn_ID s" slug boot d2 d' out]
      by (fastforce split: if_splits)
  next
    case None
    then show ?thesis using assms \<open>server = Some s\<close> by (auto simp: dispatchIDXMetaOnce_def split: if_splits)
  qed
qed (use assms in \<open>simp add: dispatchIDXMetaOnce_def\<close>)

lemma getIDXRenderedScript_boots [boots_simps]: "ix_boots (fst (getIDXRenderedScript w query d)) = ix_boots d"
  unfolding getIDXRenderedScript_def Let_def by (simp add: boots_simps split: sum.split option.split prod.split)

lemma finish_boots [boots_simps]: "ix_boots (finish_run w r d) = ix_boots d" "ix_boots (finish_event w r d) = ix_boots d"
  by (simp_all add: finish_run_def finish_event_def boots_simps split: option.split)

lemma task_message_boots [boots_simps]: "ix_boots (snd (fst (task_message w nz client name crons r (ac, d)))) = ix_boots d"
  by (simp add: task_message_def boots_simps)

lemma clear_boots [boots_simps]: "ix_boots (fst (clearIdxMetaRuns al c failed sf d)) = ix_boots d"
  by (simp add: clearIdxMetaRuns_def Let_def)

lemma idx_reach_boots:
  "idx_reach tr d \<Longrightarrow> distinct tr \<and> (\<forall>(sid, boot) \<in> set tr. \<lparr>br_ServerID = sid, br_BootTime = boot, br_ScriptID = idx_meta\<rparr> \<in> set (ix_boots d))"
proof (induction rule: idx_reach.induct)
  case (ir_dispatch tr d w server d' out)
  from dispatch_cases [OF ir_dispatch.hyps(2)] show ?case
  proof
    assume "\<exists>s boot rid eid slug asg tpl d2. server = Some s \<and> sn_BootTime s = Some boot \<and>
      ix_boots d2 = ix_boots d \<and> send_script w rid eid (sn_ID s) slug boot asg tpl d2 = (d', out)"
    then obtain s boot rid eid slug asg tpl d2 where s: "server = Some s" "sn_BootTime s = Some boot" "ix_boots d2 = ix_boots d"
      "send_script w rid eid (sn_ID s) slug boot asg tpl d2 = (d', out)" by blast
    show ?case using send_script_boots [OF s(4)] s(1-3) ir_dispatch.IH by (cases out) auto
  qed (use ir_dispatch.IH in simp)
qed (simp_all add: boots_simps)

text \<open>C6: Whatever agents connect and reconnect, and whatever results, fetches and changes come between, a node is sent its
  script at most once for each boot of a server.\<close>

theorem script_sent_once_per_boot:
  assumes "idx_reach tr d"
  shows "distinct tr \<and> (\<forall>w s boot. sn_BootTime s = Some boot \<and> (sn_ID s, boot) \<in> set tr \<longrightarrow> snd (dispatchIDXMetaOnce w (Some s) d) = None)"
proof -
  have "snd (dispatchIDXMetaOnce w (Some s) d) = None" if "sn_BootTime s = Some boot" "(sn_ID s, boot) \<in> set tr" for w s boot
  proof -
    obtain d' out where out: "dispatchIDXMetaOnce w (Some s) d = (d', out)" by (cases "dispatchIDXMetaOnce w (Some s) d")
    have "\<lparr>br_ServerID = sn_ID s, br_BootTime = boot, br_ScriptID = idx_meta\<rparr> \<in> set (ix_boots d)"
      using idx_reach_boots [OF assms] that(2) by auto
    then have "out = None" using dispatch_cases [OF out] that(1) by (auto dest!: send_script_boots)
    then show ?thesis using out by simp
  qed
  then show ?thesis using idx_reach_boots [OF assms] by blast
qed

subsection \<open>The same assignment\<close>

text \<open>C33: The dispatch, the script and the preview take the same assignment when no assignment to a group of the server is
  disabled; but a disabled assignment to a group is taken by the dispatch when it ranks highest, and by the others never.\<close>

theorem dispatch_choice:
  assumes "asg_reach zd rows" and "sid \<noteq> 0"
  shows "((\<forall>a \<in> set rows. targets_groups gs a \<longrightarrow> ag_Enabled a) \<longrightarrow>
      first_asg (filter (dispatch_matches sid gs slug) rows) = first_asg (filter (script_matches sid gs slug) rows)) \<and>
    first_asg (filter (preview_matches sid gs slug) rows) = first_asg (filter (script_matches sid gs slug) rows) \<and>
    (\<forall>a \<in> set rows. targets_groups gs a \<and> (\<forall>b \<in> set rows. asg_rank b \<le> asg_rank a) \<longrightarrow>
      first_asg (filter (dispatch_matches sid gs slug) rows) = Some a) \<and>
    (\<forall>a. first_asg (filter (script_matches sid gs slug) rows) = Some a \<longrightarrow> ag_Enabled a)"
proof -
  have ids: "distinct (map ag_ID rows)" using asg_reach_ok [OF assms(1)] by (simp add: asgs_ok_def)
  have ne: "targets_groups gs a \<Longrightarrow> gs \<noteq> []" for a by (auto simp: targets_groups_def)
  have "filter (dispatch_matches sid gs slug) rows = filter (script_matches sid gs slug) rows"
    if "\<forall>a \<in> set rows. targets_groups gs a \<longrightarrow> ag_Enabled a"
    using that by (intro filter_cong) (auto simp: dispatch_matches_def script_matches_def)
  moreover have "preview_matches sid gs slug = script_matches sid gs slug"
    using assms(2) by (auto simp: preview_matches_def script_matches_def)
  moreover have "first_asg (filter (dispatch_matches sid gs slug) rows) = Some a"
    if "a \<in> set rows" "targets_groups gs a" "\<forall>b \<in> set rows. asg_rank b \<le> asg_rank a" for a
    using that ne by (auto simp: first_asg_filter [OF ids] dispatch_matches_def)
  moreover have "ag_Enabled a" if "first_asg (filter (script_matches sid gs slug) rows) = Some a" for a
    using that by (auto simp: first_asg_filter [OF ids] script_matches_def)
  ultimately show ?thesis by auto
qed

subsection \<open>From the dispatch to the script\<close>

lemma go_space_code: "go_space c \<Longrightarrow> (of_char c :: nat) \<le> 32"
  by (auto simp: go_space_def)

lemma go_space_lower: "go_space (lower_char c) \<longleftrightarrow> go_space c"
  using go_space_code [of c] go_space_code [of "lower_char c"] by (auto simp: lower_char_def Let_def of_char_of split: if_splits)

lemma TrimSpace_lower: "TrimSpace (ToLower s) = ToLower (TrimSpace s)"
  by (simp add: TrimSpace_def ToLower_def dropWhile_map comp_def go_space_lower rev_map)

lemma TrimSpace_idem: "TrimSpace (TrimSpace s) = TrimSpace s"
proof -
  define u where "u = dropWhile go_space s"
  define t where "t = rev (dropWhile go_space (rev u))"
  have u: "u = [] \<or> \<not> go_space (hd u)" using hd_dropWhile [of go_space s] by (auto simp: u_def)
  obtain v where v: "u = t @ v" using takeWhile_dropWhile_id [of go_space "rev u"] by (metis rev_append rev_rev_ident t_def)
  have "dropWhile go_space t = t" using u v by (cases t) auto
  moreover have "dropWhile go_space (rev t) = rev t" by (simp add: t_def)
  ultimately show ?thesis by (simp add: TrimSpace_def t_def u_def)
qed

lemma normalize_idem: "normalizeSlug (normalizeTag s) = normalizeTag s"
  by (simp add: normalizeSlug_def normalizeTag_def TrimSpace_lower TrimSpace_idem) (simp add: ToLower_def lower_idem)

text \<open>C34: The command that is sent holds a token that gives the node its run, server, workspace and boot back for two minutes,
  and then is refused as expired.\<close>

theorem dispatched_token_opens_script:
  assumes "send_script w rid eid sid slug boot asg tpl d = (d', Some (k, cmd))"
    and "slug = normalizeTag name" and "slug \<noteq> []" and "sid \<noteq> 0" and "boot \<noteq> 0"
    and "\<And>b. iw_marshal w \<lparr>pl_RunID = rid, pl_ServerID = sid, pl_WorkspaceSlug = slug, pl_BootTime = boot,
      pl_ExpiresAtUnix = iw_now w div 1000000000 + 120\<rparr> = Some b \<Longrightarrow> iw_unmarshal w b = Some \<lparr>pl_RunID = rid, pl_ServerID = sid,
      pl_WorkspaceSlug = slug, pl_BootTime = boot, pl_ExpiresAtUnix = iw_now w div 1000000000 + 120\<rparr>"
  shows "k = rid \<and> (\<exists>tok. cmd = take 2048 (''curl -fsSL '' @ go_quote (BuildIDXScriptURL (iw_host w) (iw_tls w) tok) @ '' | sh'') \<and>
    (\<forall>t. parseIDXToken (w\<lparr>iw_now := t\<rparr>) tok = (if iw_now w div 1000000000 + 120 \<le> t div 1000000000 then Inl ''token expired''
      else Inr \<lparr>pl_RunID = rid, pl_ServerID = sid, pl_WorkspaceSlug = slug, pl_BootTime = boot,
        pl_ExpiresAtUnix = iw_now w div 1000000000 + 120\<rparr>)))"
proof -
  define p where "p = \<lparr>pl_RunID = rid, pl_ServerID = sid, pl_WorkspaceSlug = slug, pl_BootTime = boot,
    pl_ExpiresAtUnix = iw_now w div 1000000000 + 120\<rparr>"
  have expires: "(iw_now w + 120000000000) div 1000000000 = iw_now w div 1000000000 + 120" by simp
  obtain tok where tok: "MakeSignedToken (iw_hmac w) (iw_marshal w) (iw_secret w) p = Inr tok" "k = rid"
    "cmd = take 2048 (''curl -fsSL '' @ go_quote (BuildIDXScriptURL (iw_host w) (iw_tls w) tok) @ '' | sh'')"
    using assms(1) unfolding send_script_def Let_def expires p_def [symmetric] by (auto split: if_splits sum.splits)
  have "VerifySignedToken (iw_hmac w) (iw_unmarshal w) (iw_secret w) tok = Inr p"
    by (rule signed_token_verifies [OF tok(1)]) (use assms(6) in \<open>simp add: p_def\<close>)
  then have "parseIDXToken (w\<lparr>iw_now := t\<rparr>) tok = (if iw_now w div 1000000000 + 120 \<le> t div 1000000000 then Inl ''token expired'' else Inr p)" for t
    using assms(2-5) normalize_idem [of name] by (simp add: parseIDXToken_def p_def)
  then show ?thesis using tok(2,3) by (auto simp: p_def)
qed

subsection \<open>What a result reaches\<close>

lemma first_run_upd: "(\<And>r. rn_ID (f r) = rn_ID r) \<Longrightarrow> first_id rn_ID k (ix_runs (upd_run j f d)) = (if j = k then map_option f (first_id rn_ID k (ix_runs d)) else first_id rn_ID k (ix_runs d))"
  by (simp add: upd_run_def first_id_update)

lemma first_event_upd: "(\<And>r. ev_ID (f r) = ev_ID r) \<Longrightarrow> first_id ev_ID k (ix_events (upd_event j f d)) = (if j = k then map_option f (first_id ev_ID k (ix_events d)) else first_id ev_ID k (ix_events d))"
  by (simp add: upd_event_def first_id_update)

lemma upd_other [simp]: "ix_runs (upd_event k f d) = ix_runs d" "ix_events (upd_run k g d) = ix_events d"
  by (simp_all add: upd_run_def upd_event_def)

lemma first_id_is: "first_id idf k rows = Some r \<Longrightarrow> idf r = k"
  by (auto simp: first_id_def find_Some_iff)

lemma finish_run_status:
  assumes "\<And>n. \<not> iw_fails w n" and "first_id rn_ID (tr_Id r) (ix_runs d) = Some run"
    and "rn_Status run = IdxMetaRunDispatched \<or> rn_Status run = IdxMetaRunFetched"
  shows "\<exists>run'. first_id rn_ID (tr_Id r) (ix_runs (finish_run w r d)) = Some run' \<and>
    rn_Status run' = (if tr_Successful r then IdxMetaRunSuccess else IdxMetaRunFailed) \<and> rn_Output run' = take (32 * 1024) (tr_Data r)"
  using assms first_id_is [OF assms(2)] by (simp add: finish_run_def best_effort_def first_run_upd)

lemma finish_event_other: "k \<noteq> tr_Id r \<Longrightarrow> first_id ev_ID k (ix_events (finish_event w r d)) = first_id ev_ID k (ix_events d)"
  using first_id_is [of ev_ID "tr_Id r" "ix_events d"]
  by (auto simp: finish_event_def best_effort_def first_event_upd split: option.split if_splits)

lemma finish_run_events [simp]: "ix_events (finish_run w r d) = ix_events d"
  by (simp add: finish_run_def best_effort_def split: option.split)

lemma finish_event_runs [simp]: "ix_runs (finish_event w r d) = ix_runs d"
  by (simp add: finish_event_def best_effort_def split: option.split)

text \<open>The result of a boot script finishes its run, but is looked up among the events under the number of the run: the event
  of the dispatch has a number of its own and stays dispatched for good.\<close>

lemma result_misses_event:
  assumes "send_script w rid eid sid slug boot asg tpl d = (d', Some (k, cmd))" and "\<And>n. \<not> iw_fails w n" and "rid \<noteq> eid"
    and "first_id rn_ID rid (ix_runs d) = Some run" and "rn_Status run = IdxMetaRunDispatched" and "first_id ev_ID eid (ix_events d) = Some e"
    and "tr_Id r = k" and "tr_Type r = TaskTypeCommand" and "\<And>n. \<not> iw_fails w' n"
    and "task_message w' nz client name crons r (ac, d') = ((ac', d''), evs)"
  shows "(\<exists>run'. first_id rn_ID rid (ix_runs d'') = Some run' \<and> rn_Status run' = (if tr_Successful r then IdxMetaRunSuccess else IdxMetaRunFailed)) \<and>
    (\<exists>e'. first_id ev_ID eid (ix_events d'') = Some e' \<and> ev_Stage e' = IdxMetaStageDispatched)"
proof -
  have d': "k = rid" "\<exists>run'. first_id rn_ID rid (ix_runs d') = Some run' \<and> rn_Status run' = IdxMetaRunDispatched"
    "\<exists>e'. first_id ev_ID eid (ix_events d') = Some e' \<and> ev_Stage e' = IdxMetaStageDispatched"
    using assms(1-6) unfolding send_script_def Let_def best_effort_def
    by (auto simp: first_run_upd first_event_upd split: if_splits sum.splits)
  have d'': "d'' = finish_event w' r (finish_run w' r d')" using assms(8,10) by (simp add: task_message_def)
  obtain run' where "first_id rn_ID (tr_Id r) (ix_runs d') = Some run'" "rn_Status run' = IdxMetaRunDispatched" using d'(1,2) assms(7) by auto
  then have "\<exists>run'. first_id rn_ID rid (ix_runs d'') = Some run' \<and> rn_Status run' = (if tr_Successful r then IdxMetaRunSuccess else IdxMetaRunFailed)"
    using finish_run_status [OF assms(9), of r d' run'] d'(1) assms(7) unfolding d'' by auto
  moreover have "first_id ev_ID eid (ix_events d'') = first_id ev_ID eid (ix_events d')"
    unfolding d'' using finish_event_other [of eid r w' "finish_run w' r d'"] d'(1) assms(3,7) by simp
  ultimately show ?thesis using d'(3) by simp
qed

text \<open>A run whose script was never sent, because its configuration is disabled, stays dispatched, and the result of any task of
  the same number finishes it.\<close>

lemma unsent_run_takes_any_result:
  assumes "\<And>n. \<not> iw_fails w n" and "first_asg (filter (dispatch_matches sid (groups_of sid d) slug) (ix_asgs d)) = Some asg"
    and "first_id cg_ID (ag_ConfigID asg) (db_configs (ix_cfg d)) = Some cfg" and "\<not> cg_Enabled cfg"
    and "first_id rn_ID rid (ix_runs d) = Some run" and "rn_Status run = IdxMetaRunDispatched" and "tr_Id r = rid"
  shows "dispatch_assigned w rid eid sid slug boot d = (d, None) \<and>
    (\<exists>run'. first_id rn_ID rid (ix_runs (finish_run w r d)) = Some run' \<and> rn_Status run' = (if tr_Successful r then IdxMetaRunSuccess else IdxMetaRunFailed))"
  using assms finish_run_status [OF assms(1), of r d run] by (auto simp: dispatch_assigned_def Let_def)

text \<open>A fetch with a token that is still valid reopens a run that is finished.\<close>

lemma fetch_reopens_run:
  assumes "\<And>n. \<not> iw_fails w n" and "parseIDXToken w (TrimSpace query) = Inr p" and "TrimSpace query \<noteq> []" and "pl_RunID p = k" and "k \<noteq> 0"
    and "first_id rn_ID k (ix_runs d) = Some run"
  shows "\<exists>run'. first_id rn_ID k (ix_runs (fst (getIDXRenderedScript w query d))) = Some run' \<and> rn_Status run' = IdxMetaRunFetched"
  using assms first_run_upd [of "\<lambda>r. r\<lparr>rn_Status := IdxMetaRunFetched, rn_FetchedAt := Some (iw_now w)\<rparr>" k k]
  by (auto simp: getIDXRenderedScript_def Let_def best_effort_def upd_run_def split: option.split sum.split)

text \<open>After one success a task that fails is still shown as successful.\<close>

lemma last_result_sticks:
  "cr_LastResult t \<Longrightarrow> \<not> tr_Successful r \<Longrightarrow> TaskRow (cr_ID t) True \<in> set (cron_result True r name (Some t))"
  by (simp add: cron_result_def)

text \<open>Clearing all runs, the way the answer to a request without filters asks for, is refused by a library that wants a
  condition.\<close>

lemma clear_all_is_refused:
  assumes "isAdmin c" and "xf_ClearAll sf" and "xf_ServerID sf = 0" and "xf_WorkspaceSlug sf = []" and "xf_BeforeUnix sf = 0" and "xf_Status sf = []"
  shows "clearIdxMetaRuns False c failed sf d = (d, Inl ''database error'')"
  using assms by (simp add: clearIdxMetaRuns_def normalizeSlug_def TrimSpace_def ToLower_def)

subsection \<open>Examples\<close>

definition some_node :: idx_server where
  "some_node = \<lparr>sn_ID = 7, sn_Name = ''n'', sn_Connected = True, sn_BootTime = Some 5, sn_RuntimeIDX = True, sn_RuntimeWorkspaceSlug = '' dev ''\<rparr>"

definition some_payload :: idx_payload where
  "some_payload = \<lparr>pl_RunID = 4, pl_ServerID = 7, pl_WorkspaceSlug = ''dev'', pl_BootTime = 5, pl_ExpiresAtUnix = 120\<rparr>"

definition some_iw :: idx_world where
  "some_iw = \<lparr>iw_now = 0, iw_fails = no_failure, iw_run = 4, iw_event = 6, iw_exec = (\<lambda>_ _ _. Some ''x''), iw_hmac = some_hmac,
     iw_marshal = (\<lambda>_. Some [1]), iw_unmarshal = (\<lambda>_. Some some_payload), iw_secret = ''k'', iw_host = ''h'', iw_tls = True, iw_sent = True\<rparr>"

definition some_script_config :: cfg_db where
  "some_script_config = \<lparr>db_templates = [some_template 1 ''t'' ''K''], db_tacls = [], db_configs = [some_config\<lparr>cg_ID := 3\<rparr>], db_cacls = [], db_raw = None\<rparr>"

definition some_idx :: idx_db where
  "some_idx = \<lparr>ix_cfg = some_script_config, ix_asgs = some_asgs, ix_groups = [(2, 7)], ix_runs = [], ix_events = [], ix_boots = []\<rparr>"

definition some_rows :: idx_db where
  "some_rows = some_idx\<lparr>ix_runs := [new_run some_iw 7 ''dev'' 5], ix_events := [new_event 6 7 ''dev'' 5 IdxMetaStageDispatchAttempt []]\<rparr>"

lemma some_iw_simps: "iw_now some_iw = 0" "iw_fails some_iw n = False" "iw_run some_iw = 4" "iw_event some_iw = 6" "iw_sent some_iw"
  "iw_exec some_iw t v m = Some ''x''" "iw_marshal some_iw p = Some [1]" "iw_unmarshal some_iw b = Some some_payload"
  by (simp_all add: some_iw_def no_failure_def)

lemma some_slug: "normalizeTag '' dev '' = ''dev''"
  by (simp add: normalizeTag_def TrimSpace_def go_space_def ToLower_def lower_char_def)

lemma some_choice: "first_asg (filter (dispatch_matches 7 [2] ''dev'') some_asgs) = Some (some_asg 3 ''tag'' 0 0 ''dev'')"
proof -
  have "distinct (map ag_ID some_asgs)" by (simp add: some_asgs_def some_asg_def)
  then show ?thesis
    unfolding first_asg_filter [OF \<open>distinct (map ag_ID some_asgs)\<close>]
    by (simp add: some_asgs_def some_asg_def dispatch_matches_def targets_server_def targets_groups_def targets_tag_def target_defs asg_rank_def)
qed

lemma some_sending: "\<exists>d' cmd. send_script some_iw 4 6 7 ''dev'' 5 (some_asg 3 ''tag'' 0 0 ''dev'') (some_template 1 ''t'' ''K'') some_rows = (d', Some (4, cmd))"
  unfolding send_script_def Let_def MakeSignedToken_def by (simp add: some_iw_simps some_rows_def some_idx_def)

lemma some_dispatch: "dispatchIDXMetaOnce some_iw (Some some_node) some_idx =
    send_script some_iw 4 6 7 ''dev'' 5 (some_asg 3 ''tag'' 0 0 ''dev'') (some_template 1 ''t'' ''K'') some_rows"
proof -
  have "dispatchIDXMetaOnce some_iw (Some some_node) some_idx = dispatch_assigned some_iw 4 6 7 ''dev'' 5 some_rows"
    by (simp add: dispatchIDXMetaOnce_def some_node_def some_slug some_iw_simps best_effort_def some_rows_def Let_def some_idx_def)
  moreover have "groups_of 7 some_rows = [2]" "ix_asgs some_rows = some_asgs" "ix_cfg some_rows = some_script_config"
    by (simp_all add: some_rows_def some_idx_def groups_of_def)
  moreover have "TrimSpace (ToLower ''script'') = ''script''" "TrimSpace ''x'' \<noteq> []"
    by (simp_all add: TrimSpace_def go_space_def ToLower_def lower_char_def)
  ultimately show ?thesis
    by (simp add: dispatch_assigned_def some_iw_simps some_choice some_asg_def some_script_config_def first_id_def some_config_def some_template_def)
qed

theorem script_sent_once_per_boot_witness:
  "\<exists>d' cmd. dispatchIDXMetaOnce some_iw (Some some_node) some_idx = (d', Some (4, cmd)) \<and> snd (dispatchIDXMetaOnce some_iw (Some some_node) d') = None"
proof -
  obtain d' cmd where d': "dispatchIDXMetaOnce some_iw (Some some_node) some_idx = (d', Some (4, cmd))"
    using some_sending some_dispatch by auto
  have "idx_reach [] some_idx" by (rule ir_start) (simp add: some_idx_def)
  from ir_dispatch [OF this d'] have "idx_reach [(7, 5)] d'" by (simp add: some_node_def)
  from script_sent_once_per_boot [OF this] have "snd (dispatchIDXMetaOnce some_iw (Some some_node) d') = None" by (simp add: some_node_def)
  with d' show ?thesis by blast
qed

theorem dispatch_choice_witness:
  "first_asg (filter (dispatch_matches 7 [2] ''dev'') some_asgs) = first_asg (filter (script_matches 7 [2] ''dev'') some_asgs)"
  using dispatch_choice [OF some_asg_reach, of 7 "[2]" "''dev''"]
  by (simp add: some_asgs_def some_asg_def targets_groups_def)

theorem dispatched_token_opens_script_witness:
  "\<exists>d' cmd tok. dispatchIDXMetaOnce some_iw (Some some_node) some_idx = (d', Some (4, cmd)) \<and>
     parseIDXToken (some_iw\<lparr>iw_now := 119999999999\<rparr>) tok = Inr some_payload \<and>
     parseIDXToken (some_iw\<lparr>iw_now := 120000000000\<rparr>) tok = Inl ''token expired''"
proof -
  obtain d' cmd where sent: "send_script some_iw 4 6 7 ''dev'' 5 (some_asg 3 ''tag'' 0 0 ''dev'') (some_template 1 ''t'' ''K'') some_rows = (d', Some (4, cmd))"
    using some_sending by blast
  have "iw_marshal some_iw p = Some b \<Longrightarrow> iw_unmarshal some_iw b = Some \<lparr>pl_RunID = 4, pl_ServerID = 7, pl_WorkspaceSlug = ''dev'', pl_BootTime = 5, pl_ExpiresAtUnix = iw_now some_iw div 1000000000 + 120\<rparr>" for p b
    by (simp add: some_iw_simps some_payload_def)
  moreover have nonzero: "(7::64 word) \<noteq> 0" "(5::64 word) \<noteq> 0" by simp_all
  ultimately have opens: "\<exists>tok. \<forall>t. parseIDXToken (some_iw\<lparr>iw_now := t\<rparr>) tok = (if iw_now some_iw div 1000000000 + 120 \<le> t div 1000000000 then Inl ''token expired''
      else Inr \<lparr>pl_RunID = 4, pl_ServerID = 7, pl_WorkspaceSlug = ''dev'', pl_BootTime = 5, pl_ExpiresAtUnix = iw_now some_iw div 1000000000 + 120\<rparr>)"
    using dispatched_token_opens_script [OF sent some_slug [symmetric] list.distinct(2) nonzero] by blast
  from opens
  obtain tok where tok: "\<forall>t. parseIDXToken (some_iw\<lparr>iw_now := t\<rparr>) tok = (if iw_now some_iw div 1000000000 + 120 \<le> t div 1000000000 then Inl ''token expired''
      else Inr \<lparr>pl_RunID = 4, pl_ServerID = 7, pl_WorkspaceSlug = ''dev'', pl_BootTime = 5, pl_ExpiresAtUnix = iw_now some_iw div 1000000000 + 120\<rparr>)"
    by blast
  have "parseIDXToken (some_iw\<lparr>iw_now := 119999999999\<rparr>) tok = Inr some_payload" "parseIDXToken (some_iw\<lparr>iw_now := 120000000000\<rparr>) tok = Inl ''token expired''"
    unfolding tok [rule_format] by (simp_all add: some_iw_simps some_payload_def)
  then show ?thesis using sent unfolding some_dispatch by blast
qed

lemma result_misses_event_witness:
  "\<exists>d' cmd r ac' d'' evs e'. dispatchIDXMetaOnce some_iw (Some some_node) some_idx = (d', Some (4, cmd)) \<and>
     task_message some_iw True 7 ''n'' some_crons r (\<lparr>ac_Config = None, ac_Tunnel = None\<rparr>, d') = ((ac', d''), evs) \<and>
     first_id ev_ID 6 (ix_events d'') = Some e' \<and> ev_Stage e' = IdxMetaStageDispatched"
proof -
  obtain d' cmd where sent: "send_script some_iw 4 6 7 ''dev'' 5 (some_asg 3 ''tag'' 0 0 ''dev'') (some_template 1 ''t'' ''K'') some_rows = (d', Some (4, cmd))"
    using some_sending by blast
  define r where "r = \<lparr>tr_Id = 4, tr_Type = TaskTypeCommand, tr_Delay = 0, tr_Data = ''ok'', tr_Successful = True\<rparr>"
  obtain ac' d'' evs where m: "task_message some_iw True 7 ''n'' some_crons r (\<lparr>ac_Config = None, ac_Tunnel = None\<rparr>, d') = ((ac', d''), evs)"
    by (metis prod.exhaust)
  have "first_id rn_ID 4 (ix_runs some_rows) = Some (new_run some_iw 7 ''dev'' 5)"
    "first_id ev_ID 6 (ix_events some_rows) = Some (new_event 6 7 ''dev'' 5 IdxMetaStageDispatchAttempt [])"
    "rn_Status (new_run some_iw 7 ''dev'' 5) = IdxMetaRunDispatched"
    by (simp_all add: some_rows_def first_id_def new_run_def new_event_def some_iw_simps)
  then show ?thesis
    using result_misses_event [OF sent _ _ _ _ _ _ _ _ m] sent m unfolding some_dispatch by (fastforce simp: some_iw_simps r_def)
qed

end
