(* ===== verification/Io_Stream.thy ===== *)
theory Io_Stream
  imports Server_Model
begin

text \<open>
  The bridge between an agent and a browser: the table of streams and the join of two connections
  (\<open>service/rpc/io_stream.go\<close>, \<open>IOStream\<close> in \<open>nezha.go\<close>), the readers of both sides (\<open>pkg/grpcx\<close>,
  \<open>pkg/websocketx\<close>), the terminal and the file manager (\<open>controller/terminal.go\<close>, \<open>fm.go\<close>) and the NAT proxy
  (\<open>ServeNAT\<close> in \<open>cmd/dashboard/rpc/rpc.go\<close>).

  A context is shared by pointer, so the contexts are a heap and the table maps an identifier to an address. A connection is
  a number. \<open>io_op\<close> are the calls other handlers make in between. Identifiers of streams, the answer of a \<open>select\<close> and of the
  network are arguments.
\<close>

subsection \<open>The table\<close>

record io_ctx =
  ic_userIo :: "nat option"
  ic_agentIo :: "nat option"
  ic_userCh :: bool
  ic_agentCh :: bool

text \<open>\<open>ic_userCh\<close> and \<open>ic_agentCh\<close> tell that the channel is closed; \<open>ih_closed\<close> are the connections that were closed.\<close>

record io_handler =
  ih_heap :: "io_ctx list"
  ih_streams :: "(string, nat) gomap"
  ih_closed :: "nat list"

definition io_init :: io_handler where
  "io_init = \<lparr>ih_heap = [], ih_streams = [], ih_closed = []\<rparr>"

definition CreateStream :: "string \<Rightarrow> io_handler \<Rightarrow> io_handler" where
  "CreateStream sid h = h\<lparr>ih_heap := ih_heap h @ [\<lparr>ic_userIo = None, ic_agentIo = None, ic_userCh = False, ic_agentCh = False\<rparr>],
     ih_streams := AList.update sid (length (ih_heap h)) (ih_streams h)\<rparr>"

definition GetStream :: "string \<Rightarrow> io_handler \<Rightarrow> string + nat" where
  "GetStream sid h = (case map_of (ih_streams h) sid of Some p \<Rightarrow> Inr p | None \<Rightarrow> Inl ''stream not found'')"

definition CloseStream :: "string \<Rightarrow> io_handler \<Rightarrow> io_handler" where
  "CloseStream sid h = (case map_of (ih_streams h) sid of None \<Rightarrow> h
     | Some p \<Rightarrow> let c = ih_heap h ! p;
           close_user = (case ic_userIo c of None \<Rightarrow> [] | Some u \<Rightarrow> [u]);
           close_agent = (case ic_agentIo c of None \<Rightarrow> [] | Some a \<Rightarrow> [a])
         in h\<lparr>ih_closed := ih_closed h @ close_user @ close_agent, ih_streams := AList.delete sid (ih_streams h)\<rparr>)"

definition upd_ctx :: "nat \<Rightarrow> (io_ctx \<Rightarrow> io_ctx) \<Rightarrow> io_handler \<Rightarrow> io_handler" where
  "upd_ctx p f h = h\<lparr>ih_heap := (ih_heap h)[p := f (ih_heap h ! p)]\<rparr>"

definition UserConnected :: "string \<Rightarrow> nat \<Rightarrow> io_handler \<Rightarrow> io_handler \<times> go_error" where
  "UserConnected sid u h = (case GetStream sid h of Inl e \<Rightarrow> (h, Some e)
     | Inr p \<Rightarrow> (upd_ctx p (\<lambda>c. c\<lparr>ic_userIo := Some u, ic_userCh := True\<rparr>) h, None))"

definition AgentConnected :: "string \<Rightarrow> nat \<Rightarrow> io_handler \<Rightarrow> io_handler \<times> go_error" where
  "AgentConnected sid a h = (case GetStream sid h of Inl e \<Rightarrow> (h, Some e)
     | Inr p \<Rightarrow> (upd_ctx p (\<lambda>c. c\<lparr>ic_agentIo := Some a, ic_agentCh := True\<rparr>) h, None))"

datatype io_op = OpCreate string | OpUser string nat | OpAgent string nat | OpClose string

fun io_apply :: "io_op \<Rightarrow> io_handler \<Rightarrow> io_handler" where
  "io_apply (OpCreate sid) h = CreateStream sid h"
| "io_apply (OpUser sid u) h = fst (UserConnected sid u h)"
| "io_apply (OpAgent sid a) h = fst (AgentConnected sid a h)"
| "io_apply (OpClose sid) h = CloseStream sid h"

definition io_run :: "io_op list \<Rightarrow> io_handler \<Rightarrow> io_handler" where
  "io_run ops h = fold io_apply ops h"

subsection \<open>Waiting for both sides\<close>

datatype io_select = SelUser | SelAgent | SelTimeout

text \<open>The states the rounds of the loop see, with the calls of others between them.\<close>

primrec io_states :: "io_handler \<Rightarrow> (nat \<Rightarrow> io_op list) \<Rightarrow> nat \<Rightarrow> io_handler" where
  "io_states h ops 0 = h"
| "io_states h ops (Suc n) = io_run (ops n) (io_states h ops n)"

definition start_breaks :: "io_ctx \<Rightarrow> io_select \<Rightarrow> bool" where
  "start_breaks c s = (case s of SelUser \<Rightarrow> ic_agentIo c \<noteq> None | SelAgent \<Rightarrow> ic_userIo c \<noteq> None | SelTimeout \<Rightarrow> True)"

text \<open>The loop gives the number of its last round, and nothing when it never ends.\<close>

partial_function (option) start_loop :: "(nat \<Rightarrow> io_ctx) \<Rightarrow> (nat \<Rightarrow> io_select) \<Rightarrow> nat \<Rightarrow> nat option" where
  "start_loop ctx sel n = (if start_breaks (ctx n) (sel n) then Some n else start_loop ctx sel (Suc n))"

definition start_check :: "io_ctx \<Rightarrow> string + nat \<times> nat" where
  "start_check c = (case (ic_userIo c, ic_agentIo c) of
       (None, None) \<Rightarrow> Inl ''timeout: no connection established''
     | (None, Some _) \<Rightarrow> Inl ''timeout: user connection not established''
     | (Some _, None) \<Rightarrow> Inl ''timeout: agent connection not established''
     | (Some u, Some a) \<Rightarrow> Inr (u, a))"

text \<open>Up to the copying: the connections it joins.\<close>

definition StartStream :: "string \<Rightarrow> (nat \<Rightarrow> io_op list) \<Rightarrow> (nat \<Rightarrow> io_select) \<Rightarrow> io_handler \<Rightarrow> (io_handler \<times> (string + nat \<times> nat)) option" where
  "StartStream sid ops sel h = (case GetStream sid h of Inl e \<Rightarrow> Some (h, Inl e)
     | Inr p \<Rightarrow> (case start_loop (\<lambda>n. ih_heap (io_states h ops (Suc n)) ! p) sel 0 of None \<Rightarrow> None
         | Some n \<Rightarrow> let h' = io_states h ops (Suc (Suc n)) in Some (h', start_check (ih_heap h' ! p))))"

subsection \<open>Handlers\<close>

text \<open>The first message of an agent.\<close>

definition stream_magic_ok :: "byte list \<Rightarrow> bool" where
  "stream_magic_ok d \<longleftrightarrow> \<not> (length d < 4 \<or> (d ! 0 \<noteq> 0xff \<and> d ! 1 \<noteq> 0x05 \<and> d ! 2 \<noteq> 0xff \<and> d ! 3 = 0x05))"

definition bytes_string :: "byte list \<Rightarrow> string" where
  "bytes_string d = map (\<lambda>b. char_of (unat b)) d"

text \<open>Up to \<open>Wait\<close>: the answer is an error or the connection it waits on, which returns when that is closed.\<close>

definition IOStream :: "bool \<Rightarrow> byte list option \<Rightarrow> nat \<Rightarrow> io_handler \<Rightarrow> io_handler \<times> (string + nat)" where
  "IOStream authed first a h = (if \<not> authed then (h, Inl ''unauthenticated'') else case first of None \<Rightarrow> (h, Inl ''recv'')
     | Some d \<Rightarrow> if \<not> stream_magic_ok d then (h, Inl ''invalid stream id'')
         else let sid = bytes_string (drop 4 d)
           in case GetStream sid h of Inl e \<Rightarrow> (h, Inl e)
            | Inr _ \<Rightarrow> (case AgentConnected sid a h of (h', Some e) \<Rightarrow> (h', Inl e) | (h', None) \<Rightarrow> (h', Inr a)))"

definition stream_returns :: "nat \<Rightarrow> io_handler \<Rightarrow> bool" where
  "stream_returns a h \<longleftrightarrow> a \<in> set (ih_closed h)"

text \<open>A new session of the terminal or the file manager: \<open>uuid\<close> is its identifier, if one can be made.\<close>

definition create_session :: "user option \<Rightarrow> server option \<Rightarrow> string option \<Rightarrow> bool \<Rightarrow> io_handler \<Rightarrow> io_handler \<times> (string + string \<times> server)" where
  "create_session auth srv uuid sent h = (case srv of None \<Rightarrow> (h, Inl ''server not found or not connected'')
     | Some s \<Rightarrow> if \<not> sv_Online s then (h, Inl ''server not found or not connected'')
         else if \<not> HasPermission auth (sv_UserID s) then (h, Inl ''permission denied'')
         else case uuid of None \<Rightarrow> (h, Inl ''uuid'')
     | Some sid \<Rightarrow> let h1 = CreateStream sid h in if sent then (h1, Inr (sid, s)) else (h1, Inl ''send''))"

definition createTerminal :: "user option \<Rightarrow> (uint64, server) gomap \<Rightarrow> uint64 \<Rightarrow> string option \<Rightarrow> bool \<Rightarrow> io_handler \<Rightarrow>
    io_handler \<times> (string + string \<times> uint64 \<times> string)" where
  "createTerminal auth servers k uuid sent h = (case create_session auth (map_of servers k) uuid sent h of
       (h', Inl e) \<Rightarrow> (h', Inl e) | (h', Inr (sid, s)) \<Rightarrow> (h', Inr (sid, sv_ID s, sv_Name s)))"

definition createFM :: "user option \<Rightarrow> (uint64, server) gomap \<Rightarrow> string \<Rightarrow> string option \<Rightarrow> bool \<Rightarrow> io_handler \<Rightarrow> io_handler \<times> (string + string)" where
  "createFM auth servers idStr uuid sent h = (case ParseUint idStr of None \<Rightarrow> (h, Inl ''parse'')
     | Some k \<Rightarrow> (case create_session auth (map_of servers k) uuid sent h of
         (h', Inl e) \<Rightarrow> (h', Inl e) | (h', Inr (sid, _)) \<Rightarrow> (h', Inr sid)))"

definition close_ws :: "nat \<Rightarrow> io_handler \<Rightarrow> io_handler" where
  "close_ws u h = h\<lparr>ih_closed := ih_closed h @ [u]\<rparr>"

text \<open>What happens during a session: the upgraded connection, if the upgrade works, and the calls of others before it is
  attached, in the rounds of the wait, and while bytes are copied.\<close>

record io_env =
  ie_conn :: "nat option"
  ie_before :: "io_op list"
  ie_rounds :: "nat \<Rightarrow> io_op list"
  ie_select :: "nat \<Rightarrow> io_select"
  ie_copying :: "io_op list"

text \<open>Attach, wait, copy: \<open>h\<close> is the state when the connection is attached.\<close>

definition join_stream :: "string \<Rightarrow> nat \<Rightarrow> io_env \<Rightarrow> io_handler \<Rightarrow> (io_handler \<times> (string + nat \<times> nat)) option" where
  "join_stream sid u env h = (case UserConnected sid u h of (h1, Some e) \<Rightarrow> Some (h1, Inl e)
     | (h1, None) \<Rightarrow> (case StartStream sid (ie_rounds env) (ie_select env) h1 of None \<Rightarrow> None
         | Some (h2, Inl e) \<Rightarrow> Some (h2, Inl e)
         | Some (h2, Inr ua) \<Rightarrow> Some (io_run (ie_copying env) h2, Inr ua)))"

text \<open>\<open>terminalStream\<close> and \<open>fmStream\<close>, which are the same; nothing when it never returns.\<close>

definition terminalStream :: "string \<Rightarrow> io_env \<Rightarrow> io_handler \<Rightarrow> (io_handler \<times> (string + nat \<times> nat)) option" where
  "terminalStream sid env h = (case GetStream sid h of Inl e \<Rightarrow> Some (h, Inl e)
     | Inr _ \<Rightarrow> let h1 = io_run (ie_before env) h
         in case ie_conn env of None \<Rightarrow> Some (CloseStream sid h1, Inl ''upgrade'')
          | Some u \<Rightarrow> (case join_stream sid u env h1 of None \<Rightarrow> None
              | Some (h2, r) \<Rightarrow> Some (CloseStream sid (close_ws u h2), r)))"

definition fmStream :: "string \<Rightarrow> io_env \<Rightarrow> io_handler \<Rightarrow> (io_handler \<times> (string + nat \<times> nat)) option" where
  "fmStream = terminalStream"

text \<open>The NAT proxy: the answer is the text written with status 503, if any.\<close>

definition ServeNAT :: "server option \<Rightarrow> string option \<Rightarrow> bool \<Rightarrow> bool \<Rightarrow> io_env \<Rightarrow> io_handler \<Rightarrow> (io_handler \<times> go_error) option" where
  "ServeNAT srv uuid marshalled sent env h = (case srv of None \<Rightarrow> Some (h, Some ''server not found or not connected'')
     | Some s \<Rightarrow> if \<not> sv_Online s then Some (h, Some ''server not found or not connected'')
         else case uuid of None \<Rightarrow> Some (h, Some ''stream id error'')
     | Some sid \<Rightarrow> let h1 = CreateStream sid h
         in if \<not> marshalled then Some (CloseStream sid h1, Some ''task data error'')
            else if \<not> sent then Some (CloseStream sid h1, Some ''send task error'')
            else let h2 = io_run (ie_before env) h1
              in case ie_conn env of None \<Rightarrow> Some (CloseStream sid h2, Some ''request wrapper error'')
               | Some u \<Rightarrow> (case UserConnected sid u h2 of (h3, Some e) \<Rightarrow> Some (CloseStream sid h3, Some (''user connected error: '' @ e))
                   | (h3, None) \<Rightarrow> (case StartStream sid (ie_rounds env) (ie_select env) h3 of None \<Rightarrow> None
                       | Some (h4, Inl e) \<Rightarrow> Some (CloseStream sid h4, None)
                       | Some (h4, Inr ua) \<Rightarrow> Some (CloseStream sid (io_run (ie_copying env) h4), None))))"

subsection \<open>Copying\<close>

definition buf_size :: nat where "buf_size = 1024 * 1024"

text \<open>\<open>Read\<close> of both wrappers into a buffer of that size: what is left of a message is kept for the next call. \<open>dec\<close> gives the
  bytes of a message; no message is left when the connection ends.\<close>

definition buffered_read :: "('m \<Rightarrow> byte list) \<Rightarrow> byte list \<times> 'm list \<Rightarrow> byte list option \<times> (byte list \<times> 'm list)" where
  "buffered_read dec st = (case st of (buf, msgs) \<Rightarrow>
     if buf \<noteq> [] then (Some (take buf_size buf), (drop buf_size buf, msgs))
     else case msgs of [] \<Rightarrow> (None, ([], [])) | m # ms \<Rightarrow> (Some (take buf_size (dec m)), (drop buf_size (dec m), ms)))"

definition iw_decode :: "byte list \<Rightarrow> byte list" where
  "iw_decode d = d"

text \<open>A message of a browser: whether it is text, and its bytes.\<close>

definition ws_decode :: "bool \<times> byte list \<Rightarrow> byte list" where
  "ws_decode m = (if fst m then 0 # snd m else snd m)"

definition copy_size :: "('m \<Rightarrow> byte list) \<Rightarrow> byte list \<times> 'm list \<Rightarrow> nat" where
  "copy_size dec st = length (fst st) + sum_list (map (\<lambda>m. Suc (length (dec m))) (snd st))"

lemma buffered_read_smaller: "buffered_read dec st = (Some d, st') \<Longrightarrow> copy_size dec st' < copy_size dec st"
  by (cases st; cases "snd st") (auto simp: buffered_read_def copy_size_def buf_size_def split: if_splits)

text \<open>\<open>io.CopyBuffer\<close>: the chunks that were written, and whether it ended because there is no more to read; \<open>ok k\<close> tells that
  the k-th write works.\<close>

function copy_buffer :: "('m \<Rightarrow> byte list) \<Rightarrow> (nat \<Rightarrow> bool) \<Rightarrow> nat \<Rightarrow> byte list \<times> 'm list \<Rightarrow> byte list list \<times> bool" where
  "copy_buffer dec ok k st = (case buffered_read dec st of (None, _) \<Rightarrow> ([], True)
     | (Some d, st') \<Rightarrow> if d = [] then copy_buffer dec ok k st'
         else if ok k then (case copy_buffer dec ok (Suc k) st' of (out, ended) \<Rightarrow> (d # out, ended))
         else ([], False))"
  by pat_completeness auto

termination
  by (relation "measure (\<lambda>(dec, ok, k, st). copy_size dec st)") (auto intro: buffered_read_smaller dest: sym)

declare copy_buffer.simps [simp del]

lemma buffered_read_bytes:
  assumes "buffered_read dec (buf, msgs) = (Some d, (buf', msgs'))"
  shows "buf @ concat (map dec msgs) = d @ buf' @ concat (map dec msgs') \<and> length d \<le> buf_size"
  using assms by (cases msgs) (auto simp: buffered_read_def split: if_splits)

definition copied_ok :: "(nat \<Rightarrow> bool) \<Rightarrow> nat \<Rightarrow> byte list \<Rightarrow> byte list list \<times> bool \<Rightarrow> bool" where
  "copied_ok ok k bytes r \<longleftrightarrow> (\<exists>rest. bytes = concat (fst r) @ rest \<and> (snd r \<longrightarrow> rest = [])) \<and>
     (\<forall>d \<in> set (fst r). d \<noteq> [] \<and> length d \<le> buf_size) \<and> (\<forall>j < length (fst r). ok (k + j)) \<and> (snd r \<or> \<not> ok (k + length (fst r)))"

lemma copied_ok_Cons: "copied_ok ok (Suc k) bytes r \<Longrightarrow> ok k \<Longrightarrow> d \<noteq> [] \<Longrightarrow> length d \<le> buf_size \<Longrightarrow> copied_ok ok k (d @ bytes) (d # fst r, snd r)"
  unfolding copied_ok_def by (auto simp: less_Suc_eq_0_disj)

lemma copy_buffer_ok: "copied_ok ok k (fst st @ concat (map dec (snd st))) (copy_buffer dec ok k st)"
proof (induction dec ok k st rule: copy_buffer.induct)
  case (1 dec ok k st)
  show ?case
  proof (cases "buffered_read dec st" rule: prod.exhaust)
    case (Pair x st')
    show ?thesis
    proof (cases x)
      case None
      then have "copy_buffer dec ok k st = ([], True)" "st = ([], [])"
        using Pair by (simp add: copy_buffer.simps [of _ _ _ st], cases st) (auto simp: buffered_read_def split: if_splits list.splits)
      then show ?thesis by (simp add: copied_ok_def)
    next
      case (Some d)
      have bytes: "fst st @ concat (map dec (snd st)) = d @ fst st' @ concat (map dec (snd st'))" "length d \<le> buf_size"
        using buffered_read_bytes [of dec "fst st" "snd st" d "fst st'" "snd st'"] Pair Some by simp_all
      show ?thesis
        using 1 [OF Pair [symmetric] Some] bytes copied_ok_Cons [of ok k _ "copy_buffer dec ok (Suc k) st'" d]
        by (auto simp: copy_buffer.simps [of _ _ _ st] Pair Some copied_ok_def [of _ _ _ "([], False)"] split: prod.split)
    qed
  qed
qed

text \<open>C37: Copying from a side of a stream gives its bytes in order, in pieces of at most a megabyte: all of them if no write fails,
  and otherwise the ones before it.\<close>

theorem copy_delivers_stream:
  "case copy_buffer dec ok k (buf, msgs) of (out, ended) \<Rightarrow>
     (\<exists>rest. buf @ concat (map dec msgs) = concat out @ rest \<and> (ended \<longrightarrow> rest = [])) \<and> (\<forall>d \<in> set out. d \<noteq> [] \<and> length d \<le> buf_size) \<and>
     (\<forall>j < length out. ok (k + j)) \<and> (ended \<or> \<not> ok (k + length out))"
  using copy_buffer_ok [of ok k "(buf, msgs)" dec] by (simp add: copied_ok_def case_prod_beta)

theorem copy_delivers_stream_witness:
  "copy_buffer ws_decode (\<lambda>_. True) 0 ([], [(True, [1, 2]), (False, [3])]) = ([[0, 1, 2], [3]], True) \<and> length [0, 1, 2 :: byte] \<le> buf_size"
proof -
  have "copy_buffer ws_decode (\<lambda>_. True) 0 ([], [(True, [1, 2]), (False, [3])]) = ([[0, 1, 2], [3]], True)"
    by (simp add: copy_buffer.simps buffered_read_def ws_decode_def buf_size_def)
  with copy_delivers_stream [of "[]" ws_decode "[(True, [1, 2]), (False, [3])]" "\<lambda>_. True" 0] show ?thesis by simp
qed

subsection \<open>The table of streams\<close>

text \<open>What a stream is for its users: the connections attached since it was made.\<close>

type_synonym io_table = "string \<Rightarrow> (nat option \<times> nat option) option"

fun spec_apply :: "io_op \<Rightarrow> io_table \<Rightarrow> io_table" where
  "spec_apply (OpCreate sid) t = t(sid \<mapsto> (None, None))"
| "spec_apply (OpUser sid u) t = (case t sid of None \<Rightarrow> t | Some (_, a) \<Rightarrow> t(sid \<mapsto> (Some u, a)))"
| "spec_apply (OpAgent sid a) t = (case t sid of None \<Rightarrow> t | Some (u, _) \<Rightarrow> t(sid \<mapsto> (u, Some a)))"
| "spec_apply (OpClose sid) t = t(sid := None)"

definition io_view :: "io_handler \<Rightarrow> io_table" where
  "io_view h sid = (case GetStream sid h of Inl _ \<Rightarrow> None | Inr p \<Rightarrow> Some (ic_userIo (ih_heap h ! p), ic_agentIo (ih_heap h ! p)))"

definition io_ok :: "io_handler \<Rightarrow> bool" where
  "io_ok h \<longleftrightarrow> (\<forall>s p. map_of (ih_streams h) s = Some p \<longrightarrow> p < length (ih_heap h)) \<and>
     (\<forall>s s' p. map_of (ih_streams h) s = Some p \<and> map_of (ih_streams h) s' = Some p \<longrightarrow> s = s')"

lemmas io_defs = CreateStream_def GetStream_def CloseStream_def UserConnected_def AgentConnected_def upd_ctx_def Let_def

lemma io_apply_ok: "io_ok h \<Longrightarrow> io_ok (io_apply x h)"
  by (cases x) (force simp: io_ok_def io_defs map_of_update map_of_delete split: option.splits if_splits sum.splits)+

lemma io_run_ok: "io_ok h \<Longrightarrow> io_ok (io_run ops h)"
  unfolding io_run_def by (induction ops arbitrary: h) (auto intro: io_apply_ok)

lemma io_init_ok: "io_ok io_init"
  by (simp add: io_ok_def io_init_def)

lemma io_view_apply: "io_ok h \<Longrightarrow> io_view (io_apply x h) = spec_apply x (io_view h)"
  by (cases x) (force simp: fun_eq_iff io_view_def io_ok_def io_defs map_of_update map_of_delete nth_append nth_list_update
    split: option.splits sum.splits if_splits)+

text \<open>C35: The table of contexts with its shared addresses behaves as a plain map from identifiers to the last connection attached
  to each side, over any calls of the handlers.\<close>

theorem io_table_refines:
  "io_view (io_run ops io_init) = fold spec_apply ops Map.empty"
proof -
  have "io_ok h \<Longrightarrow> io_view (io_run ops h) = fold spec_apply ops (io_view h)" for h
    unfolding io_run_def by (induction ops arbitrary: h) (simp_all add: io_view_apply io_apply_ok)
  moreover have "io_view io_init = Map.empty" by (simp add: fun_eq_iff io_view_def GetStream_def io_init_def)
  ultimately show ?thesis using io_init_ok by metis
qed

subsection \<open>Whose connections are joined\<close>

definition creates :: "io_op list \<Rightarrow> string list" where
  "creates ops = concat (map (\<lambda>x. case x of OpCreate s \<Rightarrow> [s] | _ \<Rightarrow> []) ops)"

lemma creates_simps [simp]: "creates [] = []" "creates (xs @ ys) = creates xs @ creates ys" "creates [OpCreate s] = [s]"
  "creates [OpUser s u] = []" "creates [OpAgent s a] = []" "creates [OpClose s] = []"
  by (simp_all add: creates_def)

text \<open>The contexts after a history of calls: the address of a stream is that of its creation, and its connections were attached
  under its identifier.\<close>

definition io_hist :: "io_op list \<Rightarrow> io_handler \<Rightarrow> bool" where
  "io_hist ops h \<longleftrightarrow> length (ih_heap h) = length (creates ops) \<and>
     (\<forall>s p. map_of (ih_streams h) s = Some p \<longrightarrow> p < length (ih_heap h) \<and> creates ops ! p = s) \<and>
     (\<forall>p < length (ih_heap h). (\<forall>u. ic_userIo (ih_heap h ! p) = Some u \<longrightarrow> OpUser (creates ops ! p) u \<in> set ops) \<and>
       (\<forall>a. ic_agentIo (ih_heap h ! p) = Some a \<longrightarrow> OpAgent (creates ops ! p) a \<in> set ops) \<and>
       (ic_userCh (ih_heap h ! p) \<longleftrightarrow> ic_userIo (ih_heap h ! p) \<noteq> None) \<and> (ic_agentCh (ih_heap h ! p) \<longleftrightarrow> ic_agentIo (ih_heap h ! p) \<noteq> None))"

lemma io_hist_step: "io_hist ops h \<Longrightarrow> io_hist (ops @ [x]) (io_apply x h)"
  by (cases x) (fastforce simp: io_hist_def io_defs map_of_update map_of_delete nth_append nth_list_update less_Suc_eq
    split: option.splits sum.splits if_splits)+

lemma io_hist_run: "io_hist past h \<Longrightarrow> io_hist (past @ ops) (io_run ops h)"
proof (induction ops rule: rev_induct)
  case (snoc x xs)
  then show ?case using io_hist_step [of "past @ xs" "io_run xs h" x] by (simp add: io_run_def)
qed (simp add: io_run_def)

lemma io_hist_init: "io_hist [] io_init"
  by (simp add: io_hist_def io_init_def)

lemma io_hist_reach: "io_hist ops (io_run ops io_init)"
  using io_hist_run [OF io_hist_init, of ops] by simp

lemma io_states_run: "io_states h ops n = io_run (concat (map ops [0..<n])) h"
  by (induction n) (simp_all add: io_run_def)

text \<open>A context only gains connections.\<close>

definition ctx_le :: "io_ctx \<Rightarrow> io_ctx \<Rightarrow> bool" where
  "ctx_le c c' \<longleftrightarrow> (ic_userIo c \<noteq> None \<longrightarrow> ic_userIo c' \<noteq> None) \<and> (ic_agentIo c \<noteq> None \<longrightarrow> ic_agentIo c' \<noteq> None)"

lemma nth_update_at: "p < length xs \<Longrightarrow> xs[i := v] ! p = (if i = p then v else xs ! p)"
  by (cases "i = p") simp_all

lemma io_apply_mono: "p < length (ih_heap h) \<Longrightarrow> p < length (ih_heap (io_apply x h)) \<and> ctx_le (ih_heap h ! p) (ih_heap (io_apply x h) ! p)"
  by (cases x) (auto simp: io_defs ctx_le_def nth_append nth_update_at split: option.splits sum.splits)

lemma io_run_mono: "p < length (ih_heap h) \<Longrightarrow> p < length (ih_heap (io_run ops h)) \<and> ctx_le (ih_heap h ! p) (ih_heap (io_run ops h) ! p)"
proof (induction ops arbitrary: h)
  case (Cons x xs)
  have "p < length (ih_heap (io_apply x h))" "ctx_le (ih_heap h ! p) (ih_heap (io_apply x h) ! p)" using io_apply_mono [OF Cons.prems] by auto
  then show ?case using Cons.IH [of "io_apply x h"] by (auto simp: io_run_def ctx_le_def)
qed (simp add: io_run_def ctx_le_def)

lemma io_states_mono: "p < length (ih_heap h) \<Longrightarrow> m \<le> n \<Longrightarrow> ctx_le (ih_heap (io_states h ops m) ! p) (ih_heap (io_states h ops n) ! p)"
proof (induction n)
  case (Suc n)
  have "p < length (ih_heap (io_states h ops n))" using io_run_mono [OF Suc.prems(1)] by (simp add: io_states_run)
  from io_run_mono [OF this, of "ops n"] Suc show ?case by (cases "m = Suc n") (auto simp: ctx_le_def le_Suc_eq)
qed (simp add: ctx_le_def)

subsection \<open>The wait\<close>

lemma start_loop_Some:
  assumes "start_loop ctx sel n = Some m"
  shows "n \<le> m \<and> start_breaks (ctx m) (sel m)"
proof (rule start_loop.raw_induct [where P = "\<lambda>ctx sel n m. n \<le> m \<and> start_breaks (ctx m) (sel m)", OF _ assms])
  fix loop ctx sel n m
  assume "\<And>ctx sel n m. loop ctx sel n = Some m \<Longrightarrow> n \<le> m \<and> start_breaks (ctx m) (sel m)"
    and "(if start_breaks (ctx n) (sel n) then Some n else loop ctx sel (Suc n)) = Some m"
  then show "n \<le> m \<and> start_breaks (ctx m) (sel m)" by (metis Suc_leD le_refl option.inject)
qed

lemma start_loop_breaks: "start_breaks (ctx (n + k)) (sel (n + k)) \<Longrightarrow> start_loop ctx sel n \<noteq> None"
proof (induction k arbitrary: n)
  case (Suc k)
  then show ?case using Suc.IH [of "Suc n"] by (simp add: start_loop.simps [of _ _ n])
qed (simp add: start_loop.simps)

lemma start_loop_None: "start_loop ctx sel 0 = None \<longleftrightarrow> (\<forall>n. \<not> start_breaks (ctx n) (sel n))"
  using start_loop_breaks [of ctx 0 _ sel] start_loop_Some [of ctx sel 0] by fastforce

text \<open>The answers a \<open>select\<close> can give in a round: a channel that is closed, or none after the whole time with both open.\<close>

definition select_ok :: "io_ctx \<Rightarrow> io_select \<Rightarrow> bool" where
  "select_ok c s = (case s of SelUser \<Rightarrow> ic_userCh c | SelAgent \<Rightarrow> ic_agentCh c | SelTimeout \<Rightarrow> \<not> ic_userCh c \<and> \<not> ic_agentCh c)"

definition both_attached :: "io_ctx \<Rightarrow> bool" where
  "both_attached c \<longleftrightarrow> ic_userIo c \<noteq> None \<and> ic_agentIo c \<noteq> None"

lemma both_mono: "ctx_le c c' \<Longrightarrow> both_attached c \<Longrightarrow> both_attached c'"
  by (auto simp: ctx_le_def both_attached_def)

lemma start_check_Inl: "start_check c = Inl e \<Longrightarrow> \<not> both_attached c"
  by (auto simp: start_check_def both_attached_def split: option.splits)

text \<open>In a state of the handlers the select of a round tells which sides are attached.\<close>

lemma hist_select:
  assumes "io_hist ops h" and "p < length (ih_heap h)" and "select_ok (ih_heap h ! p) s"
  shows "start_breaks (ih_heap h ! p) s \<longleftrightarrow> s = SelTimeout \<or> both_attached (ih_heap h ! p)"
    and "s \<noteq> SelTimeout \<longleftrightarrow> ic_userIo (ih_heap h ! p) \<noteq> None \<or> ic_agentIo (ih_heap h ! p) \<noteq> None"
  using assms by (cases s; fastforce simp: io_hist_def select_ok_def start_breaks_def both_attached_def)+



subsection \<open>Sessions\<close>

lemma run_append: "io_run ys (io_run xs h) = io_run (xs @ ys) h"
  by (simp add: io_run_def)

lemma UserConnected_run: "UserConnected sid u h = (h', None) \<Longrightarrow> h' = io_run [OpUser sid u] h"
  by (simp add: io_run_def)

lemma CloseStream_gone: "GetStream sid (CloseStream sid h) = Inl ''stream not found''"
  by (simp add: CloseStream_def GetStream_def Let_def map_of_delete split: option.split)

lemma StartStream_joins:
  assumes "StartStream sid ops sel (io_run past io_init) = Some (h', Inr (u, a))"
  shows "\<exists>n. h' = io_run (past @ concat (map ops [0..<n])) io_init \<and>
    OpUser sid u \<in> set (past @ concat (map ops [0..<n])) \<and> OpAgent sid a \<in> set (past @ concat (map ops [0..<n]))"
proof -
  define h where "h = io_run past io_init"
  obtain p n where p: "GetStream sid h = Inr p" and h': "h' = io_states h ops n" and c: "start_check (ih_heap h' ! p) = Inr (u, a)"
    using assms unfolding h_def [symmetric] StartStream_def Let_def by (auto split: sum.splits option.splits simp del: io_states.simps)
  have run: "h' = io_run (past @ concat (map ops [0..<n])) io_init" unfolding h' io_states_run h_def run_append ..
  have p': "p < length (ih_heap h)" "creates past ! p = sid" "length (ih_heap h) = length (creates past)"
    using io_hist_reach [of past] p by (auto simp: io_hist_def GetStream_def h_def split: option.splits)
  have "p < length (ih_heap h')" using io_run_mono [OF p'(1)] by (simp add: h' io_states_run)
  moreover have "creates (past @ concat (map ops [0..<n])) ! p = sid" using p' by (simp add: nth_append)
  moreover have "ic_userIo (ih_heap h' ! p) = Some u" "ic_agentIo (ih_heap h' ! p) = Some a"
    using c by (auto simp: start_check_def split: option.splits)
  ultimately have "OpUser sid u \<in> set (past @ concat (map ops [0..<n])) \<and> OpAgent sid a \<in> set (past @ concat (map ops [0..<n]))"
    using io_hist_reach [of "past @ concat (map ops [0..<n])"] unfolding run [symmetric] io_hist_def by blast
  with run show ?thesis by blast
qed

text \<open>C7: A terminal or file session only ever joins connections that were attached under its own identifier; and whenever it
  returns after the stream was found, the stream is gone and its own connection is closed.\<close>

theorem session_joins_own_connections:
  assumes "terminalStream sid env (io_run past io_init) = Some (h', r)" and "GetStream sid (io_run past io_init) = Inr p"
  shows "GetStream sid h' = Inl ''stream not found'' \<and> (\<forall>c. ie_conn env = Some c \<longrightarrow> c \<in> set (ih_closed h')) \<and>
    (\<forall>u a. r = Inr (u, a) \<longrightarrow> (\<exists>c n. ie_conn env = Some c \<and>
      (let ops = past @ ie_before env @ [OpUser sid c] @ concat (map (ie_rounds env) [0..<n]) in OpUser sid u \<in> set ops \<and> OpAgent sid a \<in> set ops)))"
proof (cases "ie_conn env")
  case None
  then show ?thesis using assms by (auto simp: terminalStream_def Let_def CloseStream_gone)
next
  case (Some c)
  define h1 where "h1 = io_run (past @ ie_before env) io_init"
  obtain h2 where j: "join_stream sid c env h1 = Some (h2, r)" and h': "h' = CloseStream sid (close_ws c h2)"
    using assms Some unfolding terminalStream_def by (auto simp: Let_def run_append h1_def split: option.splits)
  have "c \<in> set (ih_closed h')" by (auto simp: h' CloseStream_def close_ws_def Let_def split: option.split)
  moreover have "\<exists>n. let ops = past @ ie_before env @ [OpUser sid c] @ concat (map (ie_rounds env) [0..<n]) in OpUser sid u \<in> set ops \<and> OpAgent sid a \<in> set ops"
    if joined: "r = Inr (u, a)" for u a
  proof -
    obtain h3 h4 where u: "UserConnected sid c h1 = (h3, None)" and s: "StartStream sid (ie_rounds env) (ie_select env) h3 = Some (h4, Inr (u, a))"
      using j joined unfolding join_stream_def by (auto split: prod.splits option.splits sum.splits)
    have "h3 = io_run (past @ ie_before env @ [OpUser sid c]) io_init"
      using UserConnected_run [OF u] by (simp add: h1_def run_append)
    with StartStream_joins s show ?thesis by (fastforce simp: Let_def)
  qed
  ultimately show ?thesis using Some by (auto simp: h' CloseStream_gone)
qed

theorem session_joins_own_connections_witness:
  "\<exists>h'. terminalStream ''s'' \<lparr>ie_conn = Some 2, ie_before = [], ie_rounds = \<lambda>n. [OpAgent ''s'' 3], ie_select = \<lambda>n. SelUser, ie_copying = []\<rparr>
     (io_run [OpCreate ''s''] io_init) = Some (h', Inr (2, 3)) \<and> GetStream ''s'' h' = Inl ''stream not found'' \<and> 2 \<in> set (ih_closed h')"
proof -
  let ?env = "\<lparr>ie_conn = Some 2, ie_before = [], ie_rounds = \<lambda>n. [OpAgent ''s'' 3], ie_select = \<lambda>n. SelUser, ie_copying = []\<rparr>"
  have "\<exists>h'. terminalStream ''s'' ?env (io_run [OpCreate ''s''] io_init) = Some (h', Inr (2, 3))"
    by (simp add: terminalStream_def join_stream_def StartStream_def io_run_def io_init_def io_defs start_loop.simps start_breaks_def start_check_def)
  moreover have "GetStream ''s'' (io_run [OpCreate ''s''] io_init) = Inr 0" by (simp add: io_run_def io_init_def io_defs)
  ultimately show ?thesis using session_joins_own_connections [of "''s''" ?env "[OpCreate ''s'']"] by fastforce
qed

subsection \<open>What is left behind\<close>

text \<open>The NAT proxy removes its stream on every way out.\<close>

lemma ServeNAT_leaves_nothing:
  assumes "ServeNAT (Some s) (Some sid) marshalled sent env h = Some (h', r)" and "sv_Online s"
  shows "GetStream sid h' = Inl ''stream not found''"
  using assms by (auto simp: ServeNAT_def Let_def CloseStream_gone split: option.splits prod.splits sum.splits if_splits)

text \<open>A session whose task cannot be sent stays in the table: the browser gets an error and not its identifier.\<close>

lemma unsent_session_stays:
  assumes "sv_Online s" and "HasPermission auth (sv_UserID s)"
  shows "\<exists>p. create_session auth (Some s) (Some sid) False h = (CreateStream sid h, Inl ''send'') \<and> GetStream sid (CreateStream sid h) = Inr p"
  using assms by (simp add: create_session_def io_defs map_of_update)

text \<open>An agent that is replaced by a second one on the same stream is never let go: the stream closes only the last.\<close>

lemma replaced_agent_waits:
  assumes "GetStream sid h = Inr p" and "p < length (ih_heap h)" and "a \<noteq> b" and "ic_userIo (ih_heap h ! p) \<noteq> Some a" and "\<not> stream_returns a h"
  shows "\<not> stream_returns a (io_run [OpAgent sid a, OpAgent sid b, OpClose sid] h)"
  using assms by (auto simp: io_run_def io_defs stream_returns_def split: option.splits)

text \<open>The check of the first message of an agent refuses only what differs in the first three bytes of the mark and agrees in
  the fourth.\<close>

lemma magic_accepts_other_bytes:
  assumes "stream_magic_ok d" and "4 \<le> length d" and "d ! 3 = 0x05"
  shows "d ! 0 = 0xff \<or> d ! 1 = 0x05 \<or> d ! 2 = 0xff"
  using assms by (auto simp: stream_magic_ok_def)

lemma magic_zero: "stream_magic_ok (0 # 0 # 0 # 0 # rest)"
  by (simp add: stream_magic_ok_def)

end
