(* ===== verification/Service_Handlers.thy ===== *)
theory Service_Handlers
  imports Service_Tables Agent_Auth Tsdb_Query
begin

text \<open>
  The services of the dashboard: the handlers that create, edit, delete and show them
  (\<open>cmd/dashboard/controller/service.go\<close>), the load of all services at the start, and the dispatch of their tasks to
  agents (\<open>DispatchTask\<close> in \<open>cmd/dashboard/rpc/rpc.go\<close>).

  \<open>vs_rows\<close> is the table of services, \<open>vs_jobs\<close> the jobs of services in the scheduler. The answers of the scheduler are the
  argument \<open>adds\<close>: \<open>adds i spec\<close> is that of the i-th call in an operation, an error or the number of the job. The database
  refuses a statement when the flag for it is not set.
\<close>

subsection \<open>Forms and rows\<close>

record service_form =
  sf_Name :: string
  sf_Target :: string
  sf_Type :: uint8
  sf_Cover :: uint8
  sf_DisplayIndex :: int
  sf_Notify :: bool
  sf_Duration :: uint64
  sf_MinLatency :: float64
  sf_MaxLatency :: float64
  sf_LatencyNotify :: bool
  sf_EnableTriggerTask :: bool
  sf_EnableShowInService :: bool
  sf_FailTriggerTasks :: "uint64 list"
  sf_RecoverTriggerTasks :: "uint64 list"
  sf_SkipServers :: "(uint64, bool) gomap"
  sf_NotificationGroupID :: uint64

definition fill_service :: "service_form \<Rightarrow> service \<Rightarrow> service" where
  "fill_service f m = m\<lparr>sc_Name := sf_Name f, sc_Target := TrimSpace (sf_Target f), sc_Type := sf_Type f,
     sc_SkipServers := sf_SkipServers f, sc_Cover := sf_Cover f, sc_DisplayIndex := sf_DisplayIndex f, sc_Notify := sf_Notify f,
     sc_NotificationGroupID := sf_NotificationGroupID f, sc_Duration := sf_Duration f, sc_LatencyNotify := sf_LatencyNotify f,
     sc_MinLatency := sf_MinLatency f, sc_MaxLatency := sf_MaxLatency f, sc_EnableShowInService := sf_EnableShowInService f,
     sc_EnableTriggerTask := sf_EnableTriggerTask f, sc_RecoverTriggerTasks := sf_RecoverTriggerTasks f,
     sc_FailTriggerTasks := sf_FailTriggerTasks f\<rparr>"

definition zero_service :: service where
  "zero_service = \<lparr>sc_ID = 0, sc_UserID = 0, sc_Name = [], sc_Type = 0, sc_Target = [], sc_Duration = 0, sc_DisplayIndex = 0,
     sc_Notify = False, sc_NotificationGroupID = 0, sc_Cover = 0, sc_EnableTriggerTask = False, sc_EnableShowInService = False,
     sc_FailTriggerTasks = [], sc_RecoverTriggerTasks = [], sc_MinLatency = 0, sc_MaxLatency = 0, sc_LatencyNotify = False,
     sc_SkipServers = [], sc_CronJobID = 0\<rparr>"

record svc_state =
  vs_rows :: "service list"
  vs_sent :: sentinel
  vs_jobs :: "int list"

type_synonym add_jobs = "nat \<Rightarrow> string \<Rightarrow> string + int"

definition svc_row :: "uint64 \<Rightarrow> service list \<Rightarrow> service option" where
  "svc_row k rows = find (\<lambda>m. sc_ID m = k) rows"

subsection \<open>The start\<close>

text \<open>\<open>loadServiceHistory\<close> up to the statistics of the month: the first row the scheduler refuses ends the load.\<close>

fun load_services :: "add_jobs \<Rightarrow> nat \<Rightarrow> service list \<Rightarrow> sentinel \<times> int list \<Rightarrow> string + sentinel \<times> int list" where
  "load_services adds i [] acc = Inr acc"
| "load_services adds i (m # ms) (ss, jobs) = (case adds i (fst (CronSpec m)) of Inl e \<Rightarrow> Inl e
     | Inr j \<Rightarrow> load_services adds (Suc i) ms (load_service (m, j) ss, jobs @ [j]))"

definition start_services :: "add_jobs \<Rightarrow> service list \<Rightarrow> string + svc_state" where
  "start_services adds rows = (case load_services adds 0 rows (no_sentinel, []) of Inl e \<Rightarrow> Inl e
     | Inr (ss, jobs) \<Rightarrow> Inr \<lparr>vs_rows = rows, vs_sent = UpdateServiceList ss, vs_jobs = jobs\<rparr>)"

subsection \<open>Creating, editing and deleting\<close>

text \<open>\<open>Update\<close> of the sentinel with its jobs, then \<open>UpdateServiceList\<close>.\<close>

definition put_service :: "add_jobs \<Rightarrow> service \<Rightarrow> svc_state \<Rightarrow> svc_state \<times> go_error" where
  "put_service adds m v = (let job = adds 0 (fst (CronSpec m)) in case Service_Update job m (vs_sent v) of
       (Some e, _, _) \<Rightarrow> (v, Some e)
     | (None, old, ss) \<Rightarrow> (v\<lparr>vs_sent := UpdateServiceList ss,
         vs_jobs := filter (\<lambda>j. Some j \<noteq> old) (vs_jobs v) @ (case job of Inr j \<Rightarrow> [j] | Inl _ \<Rightarrow> [])\<rparr>, None))"

definition validateServers :: "user \<Rightarrow> (uint64, server) gomap \<Rightarrow> service \<Rightarrow> bool" where
  "validateServers u servers m = class_CheckPermission sv_UserID (Some u) (map fst (sc_SkipServers m)) servers"

definition createService :: "add_jobs \<Rightarrow> uint64 \<Rightarrow> bool \<Rightarrow> user \<Rightarrow> (uint64, server) gomap \<Rightarrow> service_form \<Rightarrow> svc_state \<Rightarrow> svc_state \<times> (string + uint64)" where
  "createService adds new saved u servers f v = (let m = fill_service f (zero_service\<lparr>sc_UserID := u_ID u\<rparr>) in
     if \<not> validateServers u servers m then (v, Inl ''permission denied'') else if \<not> saved then (v, Inl ''database error'')
     else let m1 = m\<lparr>sc_ID := new\<rparr> in case put_service adds m1 (v\<lparr>vs_rows := vs_rows v @ [m1]\<rparr>) of
       (v1, Some e) \<Rightarrow> (v1, Inl e) | (v1, None) \<Rightarrow> (v1, Inr new))"

definition updateService :: "add_jobs \<Rightarrow> bool \<Rightarrow> user \<Rightarrow> (uint64, server) gomap \<Rightarrow> string \<Rightarrow> service_form \<Rightarrow> svc_state \<Rightarrow> svc_state \<times> (string + unit)" where
  "updateService adds saved u servers strID f v = (case ParseUint strID of None \<Rightarrow> (v, Inl ''parse'')
     | Some k \<Rightarrow> case svc_row k (vs_rows v) of None \<Rightarrow> (v, Inl ''service id does not exist'')
     | Some m0 \<Rightarrow> if \<not> HasPermission (Some u) (sc_UserID m0) then (v, Inl ''permission denied'')
         else let m = fill_service f m0 in
           if \<not> validateServers u servers m then (v, Inl ''permission denied'') else if \<not> saved then (v, Inl ''database error'')
           else case put_service adds m (v\<lparr>vs_rows := map (\<lambda>r. if sc_ID r = k then m else r) (vs_rows v)\<rparr>) of
             (v1, Some e) \<Rightarrow> (v1, Inl e) | (v1, None) \<Rightarrow> (v1, Inr ()))"

definition batchDeleteService :: "bool \<Rightarrow> user \<Rightarrow> uint64 list \<Rightarrow> svc_state \<Rightarrow> (svc_state \<times> (string + unit)) go" where
  "batchDeleteService committed u ids v =
     (if \<not> Service_CheckPermission (Some u) ids (vs_sent v) then Ret (v, Inl ''permission denied'')
      else if \<not> committed then Ret (v, Inl ''database error'')
      else go_bind (Service_Delete ids (vs_sent v)) (\<lambda>(ss, gone). Ret (v\<lparr>vs_rows := filter (\<lambda>m. sc_ID m \<notin> set ids) (vs_rows v),
        vs_sent := UpdateServiceList ss, vs_jobs := filter (\<lambda>j. j \<notin> set gone) (vs_jobs v)\<rparr>, Inr ())))"

subsection \<open>Dispatching the tasks\<close>

definition ServiceCoverAll :: uint8 where "ServiceCoverAll = 0"
definition ServiceCoverIgnoreAll :: uint8 where "ServiceCoverIgnoreAll = 1"

record agent_task =
  at_Id :: uint64
  at_Type :: uint64
  at_Data :: string

definition PB :: "service \<Rightarrow> agent_task" where
  "PB m = \<lparr>at_Id = sc_ID m, at_Type = ucast (sc_Type m), at_Data = sc_Target m\<rparr>"

definition canSendTaskToServer :: "user_maps \<Rightarrow> service \<Rightarrow> server \<Rightarrow> bool" where
  "canSendTaskToServer users task s = (let role = (case map_of (um_info users) (sc_UserID task) of None \<Rightarrow> RoleMember | Some i \<Rightarrow> ui_Role i)
     in sc_UserID task = sv_UserID s \<or> IsAdmin role)"

text \<open>The tasks sent for one service, with the numbers of the servers.\<close>

definition dispatch_service :: "user_maps \<Rightarrow> (uint64, server) gomap \<Rightarrow> service \<Rightarrow> (uint64 \<times> agent_task) list" where
  "dispatch_service users servers m =
     (if sc_Cover m = ServiceCoverIgnoreAll
      then concat (map (\<lambda>(k, enabled). if \<not> enabled then [] else case map_of servers k of None \<Rightarrow> []
        | Some s \<Rightarrow> if sv_Online s \<and> canSendTaskToServer users m s then [(k, PB m)] else []) (sc_SkipServers m))
      else if sc_Cover m = ServiceCoverAll
      then concat (map (\<lambda>(k, s). if \<not> sv_Online s \<or> get_or False (sc_SkipServers m) k then []
        else if canSendTaskToServer users m s then [(k, PB m)] else []) servers)
      else [])"

definition DispatchTask :: "user_maps \<Rightarrow> (uint64, server) gomap \<Rightarrow> service option list \<Rightarrow> (uint64 \<times> agent_task) list" where
  "DispatchTask users servers bus = concat (map (\<lambda>t. case t of None \<Rightarrow> [] | Some m \<Rightarrow> dispatch_service users servers m) bus)"

definition TaskTypeKeepalive :: uint64 where "TaskTypeKeepalive = 7"

definition DispatchKeepalive :: "server list \<Rightarrow> (uint64 \<times> agent_task) list" where
  "DispatchKeepalive servers = map (\<lambda>s. (sv_ID s, \<lparr>at_Id = 0, at_Type = TaskTypeKeepalive, at_Data = []\<rparr>)) (filter sv_Online servers)"

subsection \<open>Showing services\<close>

text \<open>The servers that run some service. \<open>c\<close> is the user of the request, if any.\<close>

definition covers_listed :: "service \<Rightarrow> uint64 \<Rightarrow> bool" where
  "covers_listed m k = (if sc_Cover m = ServiceCoverAll then \<not> get_or False (sc_SkipServers m) k else get_or False (sc_SkipServers m) k)"

definition listServerWithServices :: "user option \<Rightarrow> service list \<Rightarrow> (uint64, server) gomap \<Rightarrow> uint64 list" where
  "listServerWithServices c services servers =
     (let ids = remdups (concat (map (\<lambda>m. if sc_Cover m = ServiceCoverAll then filter (\<lambda>k. \<not> get_or False (sc_SkipServers m) k) (map fst servers)
            else map fst (filter snd (sc_SkipServers m))) services))
      in filter (\<lambda>k. case map_of servers k of None \<Rightarrow> False | Some s \<Rightarrow> \<not> sv_HideForGuest s \<or> c \<noteq> None) ids)"

text \<open>The history of a service, in some order of its servers: the servers with their names and statistics. The database rows carry the number of the server.\<close>

record named_stats =
  ns_ServerID :: uint64
  ns_ServerName :: string
  ns_Stats :: history_summary

definition server_name :: "(uint64, server) gomap \<Rightarrow> uint64 \<Rightarrow> string" where
  "server_name servers k = (case map_of servers k of None \<Rightarrow> [] | Some s \<Rightarrow> sv_Name s)"

definition row_status :: "service_history \<Rightarrow> uint8" where
  "row_status r = (if 0 < sh_Down r \<and> sh_Up r = 0 then 0 else 1)"

definition row_summary :: "service_history list \<Rightarrow> history_summary" where
  "row_summary rs = (let up = sum_list (map sh_Up rs); down = sum_list (map sh_Down rs) in
     \<lparr>hs_AvgDelay = (if rs = [] then 0 else sum_list (map sh_AvgDelay rs) / of_nat (length rs)),
      hs_UpPercent = (if 0 < up + down then of_nat (unat up) / of_nat (unat (up + down)) * 100 else 0), hs_TotalUp = up, hs_TotalDown = down,
      hs_DataPoints = map (\<lambda>r. \<lparr>dp_Timestamp = sh_CreatedAt r div 1000000000 * 1000, dp_Delay = sh_AvgDelay r, dp_Status = row_status r\<rparr>) rs\<rparr>)"

definition queryServiceHistoryFromDB :: "int \<Rightarrow> (uint64 \<times> service_history) list \<Rightarrow> (uint64, server) gomap \<Rightarrow> uint64 \<Rightarrow> string \<Rightarrow> named_stats list" where
  "queryServiceHistoryFromDB now rows servers serviceID period =
     (let histories = filter (\<lambda>(k, r). sh_ServiceID r = serviceID \<and> k \<noteq> 0 \<and> now - Duration period \<le> sh_CreatedAt r) rows
      in map (\<lambda>k. \<lparr>ns_ServerID = k, ns_ServerName = server_name servers k,
           ns_Stats = row_summary (sort_key sh_CreatedAt (map snd (filter (\<lambda>h. fst h = k) histories)))\<rparr>) (remdups (map fst histories)))"

text \<open>\<open>tsdb\<close> is the answer of the time-series database, when it is enabled.\<close>

definition getServiceHistory :: "user option \<Rightarrow> (uint64, service) gomap \<Rightarrow> (uint64, server) gomap \<Rightarrow> int \<Rightarrow> (uint64 \<times> service_history) list \<Rightarrow>
    (uint64 \<Rightarrow> string \<Rightarrow> history_result option) option \<Rightarrow> string \<Rightarrow> string \<Rightarrow> string + string \<times> named_stats list" where
  "getServiceHistory c services servers now rows tsdb idStr periodStr = (case ParseUint idStr of None \<Rightarrow> Inl ''parse''
     | Some k \<Rightarrow> case map_of services k of None \<Rightarrow> Inl ''service not found''
     | Some m \<Rightarrow> case ParseQueryPeriod periodStr of Inl e \<Rightarrow> Inl e
     | Inr period \<Rightarrow> if c = None \<and> period \<noteq> Period1Day then Inl ''unauthorized: only 1d data available for guests''
         else case tsdb of None \<Rightarrow> Inr (sc_Name m, queryServiceHistoryFromDB now rows servers k period)
     | Some query \<Rightarrow> (case query k period of None \<Rightarrow> Inl ''query''
         | Some res \<Rightarrow> Inr (sc_Name m, map (\<lambda>x. \<lparr>ns_ServerID = sss_ServerID x, ns_ServerName = server_name servers (sss_ServerID x),
             ns_Stats = sss_Stats x\<rparr>) (hr_Servers res))))"

text \<open>The services of a server: their names and the times and delays of the points.\<close>

record service_infos =
  si_ServiceID :: uint64
  si_ServerID :: uint64
  si_ServiceName :: string
  si_ServerName :: string
  si_DisplayIndex :: int
  si_CreatedAt :: "int list"
  si_AvgDelay :: "float64 list"

definition queryServerServicesFromDB :: "int \<Rightarrow> (uint64 \<times> service_history) list \<Rightarrow> uint64 \<Rightarrow> string \<Rightarrow> string \<Rightarrow> service list \<Rightarrow> service_infos list" where
  "queryServerServicesFromDB now rows serverID name period services =
     (let histories = map snd (filter (\<lambda>(k, r). k = serverID \<and> now - Duration period \<le> sh_CreatedAt r) rows)
      in concat (map (\<lambda>m. let records = sort_key sh_CreatedAt (filter (\<lambda>r. sh_ServiceID r = sc_ID m) histories)
           in if \<not> covers_listed m serverID \<or> records = [] then []
              else [\<lparr>si_ServiceID = sc_ID m, si_ServerID = serverID, si_ServiceName = sc_Name m, si_ServerName = name,
                si_DisplayIndex = sc_DisplayIndex m, si_CreatedAt = map (\<lambda>r. sh_CreatedAt r div 60000000000 * 60000) records,
                si_AvgDelay = map sh_AvgDelay records\<rparr>]) services))"

definition listServerServices :: "user option \<Rightarrow> service list \<Rightarrow> (uint64, server) gomap \<Rightarrow> int \<Rightarrow> (uint64 \<times> service_history) list \<Rightarrow>
    (uint64 \<Rightarrow> string \<Rightarrow> (uint64, history_result) gomap option) option \<Rightarrow> string \<Rightarrow> string \<Rightarrow> string + service_infos list" where
  "listServerServices c services servers now rows tsdb idStr periodStr = (case ParseUint idStr of None \<Rightarrow> Inl ''parse''
     | Some k \<Rightarrow> case map_of servers k of None \<Rightarrow> Inl ''server not found''
     | Some s \<Rightarrow> if sv_HideForGuest s \<and> c = None then Inl ''unauthorized'' else case ParseQueryPeriod periodStr of Inl e \<Rightarrow> Inl e
     | Inr period \<Rightarrow> if c = None \<and> period \<noteq> Period1Day then Inl ''unauthorized: only 1d data available for guests''
         else case tsdb of None \<Rightarrow> Inr (queryServerServicesFromDB now rows k (sv_Name s) period services)
     | Some query \<Rightarrow> (case query k period of None \<Rightarrow> Inl ''query''
         | Some results \<Rightarrow> Inr (concat (map (\<lambda>m. if \<not> covers_listed m k then [] else case map_of results (sc_ID m) of None \<Rightarrow> []
             | Some r \<Rightarrow> (case hr_Servers r of [] \<Rightarrow> [] | x # _ \<Rightarrow> [\<lparr>si_ServiceID = sc_ID m, si_ServerID = k, si_ServiceName = sc_Name m,
                 si_ServerName = sv_Name s, si_DisplayIndex = sc_DisplayIndex m, si_CreatedAt = map dp_Timestamp (hs_DataPoints (sss_Stats x)),
                 si_AvgDelay = map dp_Delay (hs_DataPoints (sss_Stats x))\<rparr>])) services))))"

text \<open>The measurements of a server (\<open>controller/server.go\<close>).\<close>

definition serverMetricMap :: "(string \<times> string) list" where
  "serverMetricMap = [(''cpu'', ''nezha_server_cpu''), (''memory'', ''nezha_server_memory''), (''swap'', ''nezha_server_swap''),
     (''disk'', ''nezha_server_disk''), (''net_in_speed'', ''nezha_server_net_in_speed''), (''net_out_speed'', ''nezha_server_net_out_speed''),
     (''net_in_transfer'', ''nezha_server_net_in_transfer''), (''net_out_transfer'', ''nezha_server_net_out_transfer''),
     (''load1'', ''nezha_server_load1''), (''load5'', ''nezha_server_load5''), (''load15'', ''nezha_server_load15''),
     (''tcp_conn'', ''nezha_server_tcp_conn''), (''udp_conn'', ''nezha_server_udp_conn''), (''process_count'', ''nezha_server_process_count''),
     (''temperature'', ''nezha_server_temperature''), (''uptime'', ''nezha_server_uptime''), (''gpu'', ''nezha_server_gpu'')]"

definition getServerMetrics :: "user option \<Rightarrow> (uint64, server) gomap \<Rightarrow> (uint64 \<Rightarrow> string \<Rightarrow> string \<Rightarrow> (int \<times> float64) list option) option \<Rightarrow>
    string \<Rightarrow> string \<Rightarrow> string \<Rightarrow> string + uint64 \<times> string \<times> string \<times> (int \<times> float64) list" where
  "getServerMetrics c servers tsdb idStr metric periodStr = (case ParseUint idStr of None \<Rightarrow> Inl ''parse''
     | Some k \<Rightarrow> case map_of servers k of None \<Rightarrow> Inl ''server not found''
     | Some s \<Rightarrow> if sv_HideForGuest s \<and> c = None then Inl ''unauthorized''
         else case map_of serverMetricMap metric of None \<Rightarrow> Inl ''invalid metric name''
     | Some mt \<Rightarrow> case ParseQueryPeriod periodStr of Inl e \<Rightarrow> Inl e
     | Inr period \<Rightarrow> if c = None \<and> period \<noteq> Period1Day then Inl ''unauthorized: only 1d data available for guests''
         else case tsdb of None \<Rightarrow> Inr (k, sv_Name s, metric, [])
     | Some query \<Rightarrow> (case query k mt period of None \<Rightarrow> Inl ''query'' | Some points \<Rightarrow> Inr (k, sv_Name s, metric, points)))"

subsection \<open>The sentinel follows the table\<close>

text \<open>What the sentinel makes of a row, and the row in what it holds.\<close>

definition with_default :: "service \<Rightarrow> service" where
  "with_default m = (snd (CronSpec m))\<lparr>sc_CronJobID := 0\<rparr>"

definition no_job :: "service \<Rightarrow> service" where
  "no_job m = m\<lparr>sc_CronJobID := 0\<rparr>"

definition jobs_of :: "(uint64 \<rightharpoonup> service) \<Rightarrow> int set" where
  "jobs_of m = sc_CronJobID ` ran m"

definition jobs_apart :: "(uint64 \<rightharpoonup> service) \<Rightarrow> bool" where
  "jobs_apart m \<longleftrightarrow> (\<forall>k k' a b. m k = Some a \<and> m k' = Some b \<and> sc_CronJobID a = sc_CronJobID b \<longrightarrow> k = k')"

definition svc_ok :: "svc_state \<Rightarrow> bool" where
  "svc_ok v \<longleftrightarrow> distinct (map sc_ID (vs_rows v)) \<and>
     (\<forall>k. map_option no_job (map_of (ss_services (vs_sent v)) k) = map_option with_default (svc_row k (vs_rows v))) \<and>
     set (vs_jobs v) = jobs_of (map_of (ss_services (vs_sent v))) \<and> distinct (vs_jobs v) \<and> jobs_apart (map_of (ss_services (vs_sent v)))"

text \<open>A scheduler that takes every interval and gives numbers that are not in use.\<close>

definition adds_ok :: "int list \<Rightarrow> add_jobs \<Rightarrow> bool" where
  "adds_ok jobs adds \<longleftrightarrow> (\<forall>i spec. \<exists>j. adds i spec = Inr j \<and> j \<notin> set jobs) \<and>
     (\<forall>i i' s s' j. adds i s = Inr j \<and> adds i' s' = Inr j \<longrightarrow> i = i')"

inductive svc_reach :: "svc_state \<Rightarrow> bool" where
  vr_start: "distinct (map sc_ID rows) \<Longrightarrow> adds_ok [] adds \<Longrightarrow> start_services adds rows = Inr v \<Longrightarrow> svc_reach v"
| vr_create: "svc_reach v \<Longrightarrow> adds_ok (vs_jobs v) adds \<Longrightarrow> new \<notin> sc_ID ` set (vs_rows v) \<Longrightarrow>
    svc_reach (fst (createService adds new saved u servers f v))"
| vr_update: "svc_reach v \<Longrightarrow> adds_ok (vs_jobs v) adds \<Longrightarrow> svc_reach (fst (updateService adds saved u servers idStr f v))"
| vr_other: "svc_reach v \<Longrightarrow> ss_services t = ss_services (vs_sent v) \<Longrightarrow> svc_reach (v\<lparr>vs_sent := t\<rparr>)"
| vr_delete: "svc_reach v \<Longrightarrow> batchDeleteService committed u ids v = Ret (v', r) \<Longrightarrow> svc_reach v'"

lemma svc_row_id: "svc_row k rows = Some m \<Longrightarrow> sc_ID m = k \<and> m \<in> set rows"
  by (auto simp: svc_row_def find_Some_iff)

lemma CronSpec_ID [simp]: "sc_ID (snd (CronSpec m)) = sc_ID m"
  by (simp add: CronSpec_def Let_def)

lemma with_default_job [simp]: "with_default (m\<lparr>sc_CronJobID := j\<rparr>) = with_default m"
  by (simp add: with_default_def CronSpec_def Let_def)

lemma jobs_of_iff: "x \<in> jobs_of m \<longleftrightarrow> (\<exists>i a. m i = Some a \<and> sc_CronJobID a = x)"
  by (auto simp: jobs_of_def ran_def)

lemma jobs_of_update: "jobs_of (m(k \<mapsto> v)) = insert (sc_CronJobID v) (jobs_of (m(k := None)))"
  by (auto simp: set_eq_iff jobs_of_iff split: if_splits)

lemma jobs_of_remove: "jobs_apart m \<Longrightarrow> m k = Some old \<Longrightarrow> jobs_of (m(k := None)) = jobs_of m - {sc_CronJobID old}"
proof -
  assume apart: "jobs_apart m" "m k = Some old"
  have "x \<in> jobs_of (m(k := None)) \<longleftrightarrow> x \<in> jobs_of m \<and> x \<noteq> sc_CronJobID old" for x
  proof
    assume "x \<in> jobs_of (m(k := None))"
    then obtain i a where i: "i \<noteq> k" "m i = Some a" "sc_CronJobID a = x" by (auto simp: jobs_of_iff split: if_splits)
    then have "x \<noteq> sc_CronJobID old" using apart unfolding jobs_apart_def by blast
    then show "x \<in> jobs_of m \<and> x \<noteq> sc_CronJobID old" using i by (auto simp: jobs_of_iff)
  next
    assume "x \<in> jobs_of m \<and> x \<noteq> sc_CronJobID old"
    then obtain i a where "m i = Some a" "sc_CronJobID a = x" "a \<noteq> old" by (auto simp: jobs_of_iff)
    then show "x \<in> jobs_of (m(k := None))" using apart(2) unfolding jobs_of_iff by (metis fun_upd_apply option.inject)
  qed
  then show ?thesis by blast
qed

lemma jobs_of_absent: "m k = None \<Longrightarrow> m(k := None) = m"
  by auto

lemma jobs_apart_remove: "jobs_apart m \<Longrightarrow> jobs_apart (m(k := None))"
  unfolding jobs_apart_def by auto

lemma jobs_apart_update: "jobs_apart m \<Longrightarrow> sc_CronJobID v \<notin> jobs_of m \<Longrightarrow> jobs_apart (m(k \<mapsto> v))"
proof -
  assume "jobs_apart m" "sc_CronJobID v \<notin> jobs_of m"
  then have "i = i'" if "(m(k \<mapsto> v)) i = Some a" "(m(k \<mapsto> v)) i' = Some b" "sc_CronJobID a = sc_CronJobID b" for i i' a b
    using that unfolding jobs_apart_def jobs_of_iff by (cases "i = k"; cases "i' = k") (simp_all, blast+)
  then show ?thesis unfolding jobs_apart_def by blast
qed

lemma list_services [simp]: "ss_services (UpdateServiceList ss) = ss_services ss"
  by (simp add: UpdateServiceList_def)

text \<open>Giving a service a new job.\<close>

lemma put_service_ok:
  assumes "distinct (map sc_ID (vs_rows v))" and "svc_row (sc_ID m) (vs_rows v) = Some m"
    and "\<And>k. k \<noteq> sc_ID m \<Longrightarrow> map_option no_job (map_of (ss_services (vs_sent v)) k) = map_option with_default (svc_row k (vs_rows v))"
    and "set (vs_jobs v) = jobs_of (map_of (ss_services (vs_sent v)))" and "distinct (vs_jobs v)" and "jobs_apart (map_of (ss_services (vs_sent v)))"
    and "adds_ok (vs_jobs v) adds"
  shows "svc_ok (fst (put_service adds m v)) \<and> snd (put_service adds m v) = None"
proof -
  obtain j where j: "adds 0 (fst (CronSpec m)) = Inr j" "j \<notin> set (vs_jobs v)" using assms(7) unfolding adds_ok_def by blast
  define k where "k = sc_ID m"
  define M where "M = map_of (ss_services (vs_sent v))"
  define m' where "m' = (snd (CronSpec m))\<lparr>sc_CronJobID := j\<rparr>"
  have m': "sc_CronJobID m' = j" "no_job m' = with_default m" by (simp_all add: m'_def no_job_def with_default_def)
  have apart: "jobs_apart (M(k \<mapsto> m'))" using assms(4,6) j(2) m'(1) by (intro jobs_apart_update) (simp_all add: M_def)
  have same: "map_option no_job ((M(k \<mapsto> m')) i) = map_option with_default (svc_row i (vs_rows v))" for i
    using assms(2,3) m'(2) by (simp add: M_def k_def)
  define jobs where "jobs = filter (\<lambda>i. Some i \<noteq> map_option sc_CronJobID (M k)) (vs_jobs v) @ [j]"
  have "set jobs = jobs_of (M(k \<mapsto> m'))"
  proof (cases "M k")
    case None
    then show ?thesis using assms(4) m'(1) by (simp add: jobs_def jobs_of_update jobs_of_absent M_def)
  next
    case (Some old)
    then show ?thesis
      using assms(4) jobs_of_remove [OF assms(6), of k old] m'(1) by (auto simp: jobs_def jobs_of_update M_def)
  qed
  moreover have "distinct jobs" using assms(5) j(2) by (auto simp: jobs_def)
  moreover define ss where "ss = snd (snd (Service_Update (Inr j) m (vs_sent v)))"
  have ss: "put_service adds m v = (v\<lparr>vs_sent := UpdateServiceList ss, vs_jobs := jobs\<rparr>, None)" "map_of (ss_services ss) = M(k \<mapsto> m')"
    using j(1) by (cases "M k"; simp add: put_service_def ss_def Service_Update_def Let_def k_def M_def jobs_def map_of_update m'_def)+
  ultimately show ?thesis unfolding ss(1) svc_ok_def using assms(1) apart same ss(2) by simp
qed

lemma svc_row_append: "svc_row k (rows @ [m]) = (case svc_row k rows of Some r \<Rightarrow> Some r | None \<Rightarrow> if sc_ID m = k then Some m else None)"
  by (induction rows) (simp_all add: svc_row_def)

lemma svc_row_None: "svc_row k rows = None \<longleftrightarrow> k \<notin> sc_ID ` set rows"
  by (auto simp: svc_row_def find_None_iff)

lemma svc_row_replace:
  assumes "sc_ID m = k"
  shows "svc_row i (map (\<lambda>r. if sc_ID r = k then m else r) rows) = (if i = k \<and> svc_row k rows \<noteq> None then Some m else svc_row i rows)"
  using assms by (induction rows) (auto simp: svc_row_def)

lemma svc_row_filter: "svc_row i (filter (\<lambda>m. sc_ID m \<notin> set ids) rows) = (if i \<in> set ids then None else svc_row i rows)"
  by (induction rows) (auto simp: svc_row_def)

lemma fill_service_ids [simp]: "sc_ID (fill_service f m) = sc_ID m" "sc_UserID (fill_service f m) = sc_UserID m"
  by (simp_all add: fill_service_def)

lemma put_service_row:
  assumes "svc_ok v" and "distinct (map sc_ID rows)" and "svc_row (sc_ID m) rows = Some m"
    and "\<And>k. k \<noteq> sc_ID m \<Longrightarrow> svc_row k rows = svc_row k (vs_rows v)" and "adds_ok (vs_jobs v) adds"
  shows "svc_ok (fst (put_service adds m (v\<lparr>vs_rows := rows\<rparr>)))"
  using put_service_ok [of "v\<lparr>vs_rows := rows\<rparr>" m adds] assms unfolding svc_ok_def by simp

lemma createService_ok:
  assumes "svc_ok v" and "adds_ok (vs_jobs v) adds" and "new \<notin> sc_ID ` set (vs_rows v)"
  shows "svc_ok (fst (createService adds new saved u servers f v))"
proof -
  define m where "m = (fill_service f (zero_service\<lparr>sc_UserID := u_ID u\<rparr>))\<lparr>sc_ID := new\<rparr>"
  have "svc_ok (fst (put_service adds m (v\<lparr>vs_rows := vs_rows v @ [m]\<rparr>)))"
    using assms svc_row_None [of new "vs_rows v"]
    by (intro put_service_row) (auto simp: svc_ok_def m_def svc_row_append split: option.splits)
  then show ?thesis using assms(1) unfolding createService_def Let_def m_def by (auto split: prod.split option.split)
qed

lemma updateService_ok:
  assumes "svc_ok v" and "adds_ok (vs_jobs v) adds"
  shows "svc_ok (fst (updateService adds saved u servers idStr f v))"
proof (cases "ParseUint idStr")
  case (Some k)
  show ?thesis
  proof (cases "svc_row k (vs_rows v)")
    case (Some m0)
    define m where "m = fill_service f m0"
    have k: "sc_ID m = k" using svc_row_id [OF Some] by (simp add: m_def)
    have ids: "map sc_ID (map (\<lambda>r. if sc_ID r = k then m else r) (vs_rows v)) = map sc_ID (vs_rows v)" using k by simp
    have "svc_ok (fst (put_service adds m (v\<lparr>vs_rows := map (\<lambda>r. if sc_ID r = k then m else r) (vs_rows v)\<rparr>)))"
    proof (rule put_service_row [OF assms(1) _ _ _ assms(2)])
      show "distinct (map sc_ID (map (\<lambda>r. if sc_ID r = k then m else r) (vs_rows v)))" unfolding ids using assms(1) by (simp add: svc_ok_def)
    qed (use k Some in \<open>simp_all add: svc_row_replace [OF k]\<close>)
    then show ?thesis using assms(1) \<open>ParseUint idStr = Some k\<close> Some unfolding updateService_def Let_def m_def
      by (auto split: prod.split option.split)
  qed (use assms(1) Some in \<open>simp add: updateService_def\<close>)
qed (use assms(1) in \<open>simp add: updateService_def\<close>)

text \<open>The deletion of services.\<close>

lemma Service_Delete_services:
  assumes "go_foldM delete_service (ss, jobs) ids = Ret (ss', gone)" and "jobs_apart (map_of (ss_services ss))"
  shows "map_of (ss_services ss') = (\<lambda>k. if k \<in> set ids then None else map_of (ss_services ss) k) \<and>
    set gone = set jobs \<union> (jobs_of (map_of (ss_services ss)) - jobs_of (map_of (ss_services ss'))) \<and>
    jobs_apart (map_of (ss_services ss')) \<and> jobs_of (map_of (ss_services ss')) \<subseteq> jobs_of (map_of (ss_services ss))"
  using assms
proof (induction ids arbitrary: ss jobs)
  case (Cons k ks)
  obtain s where s: "map_of (ss_services ss) k = Some s" using Cons.prems(1) by (auto simp: delete_service_def Let_def go_bind_Ret_iff)
  obtain ss1 where ss1: "delete_service (ss, jobs) k = Ret (ss1, jobs @ [sc_CronJobID s])" "ss_services ss1 = AList.delete k (ss_services ss)"
    using s by (simp add: delete_service_def Let_def go_bind_Ret_iff)
  have services: "map_of (ss_services ss1) = (map_of (ss_services ss))(k := None)" using ss1(2) by (simp add: map_of_delete)
  have "jobs_apart (map_of (ss_services ss1))" unfolding services by (rule jobs_apart_remove [OF Cons.prems(2)])
  moreover have "go_foldM delete_service (ss1, jobs @ [sc_CronJobID s]) ks = Ret (ss', gone)" using Cons.prems(1) ss1(1) by simp
  ultimately have IH: "map_of (ss_services ss') = (\<lambda>i. if i \<in> set ks then None else map_of (ss_services ss1) i)"
    "set gone = set (jobs @ [sc_CronJobID s]) \<union> (jobs_of (map_of (ss_services ss1)) - jobs_of (map_of (ss_services ss')))"
    "jobs_apart (map_of (ss_services ss'))" "jobs_of (map_of (ss_services ss')) \<subseteq> jobs_of (map_of (ss_services ss1))"
    using Cons.IH by blast+
  have jobs: "jobs_of (map_of (ss_services ss1)) = jobs_of (map_of (ss_services ss)) - {sc_CronJobID s}"
    unfolding services by (rule jobs_of_remove [OF Cons.prems(2) s])
  have "sc_CronJobID s \<in> jobs_of (map_of (ss_services ss))" using s by (auto simp: jobs_of_iff)
  then have "set gone = set jobs \<union> (jobs_of (map_of (ss_services ss)) - jobs_of (map_of (ss_services ss')))"
    using IH(2,4) jobs by auto
  moreover have "map_of (ss_services ss') = (\<lambda>i. if i \<in> set (k # ks) then None else map_of (ss_services ss) i)"
    unfolding IH(1) services by auto
  ultimately show ?case using IH(3,4) jobs by blast
qed simp

lemma batchDeleteService_ok:
  assumes "svc_ok v" and "batchDeleteService committed u ids v = Ret (v', r)"
  shows "svc_ok v'"
proof (cases "Service_CheckPermission (Some u) ids (vs_sent v) \<and> committed")
  case True
  then obtain ss gone where d: "go_foldM delete_service (vs_sent v, []) ids = Ret (ss, gone)"
    and v': "v' = v\<lparr>vs_rows := filter (\<lambda>m. sc_ID m \<notin> set ids) (vs_rows v), vs_sent := UpdateServiceList ss, vs_jobs := filter (\<lambda>j. j \<notin> set gone) (vs_jobs v)\<rparr>"
    using assms(2) by (auto simp: batchDeleteService_def Service_Delete_def go_bind_Ret_iff)
  have apart: "jobs_apart (map_of (ss_services (vs_sent v)))" using assms(1) by (simp add: svc_ok_def)
  note del = Service_Delete_services [OF d apart]
  have "distinct (map sc_ID (filter (\<lambda>m. sc_ID m \<notin> set ids) (vs_rows v)))" using assms(1) by (simp add: svc_ok_def distinct_map_filter)
  moreover have "set (filter (\<lambda>j. j \<notin> set gone) (vs_jobs v)) = jobs_of (map_of (ss_services ss))" using assms(1) del by (auto simp: svc_ok_def)
  moreover have "map_option no_job (map_of (ss_services ss) k) = map_option with_default (svc_row k (filter (\<lambda>m. sc_ID m \<notin> set ids) (vs_rows v)))" for k
    using assms(1) del by (simp add: svc_ok_def svc_row_filter)
  moreover have "jobs_apart (map_of (ss_services ss))" using del by blast
  moreover have "distinct (filter (\<lambda>j. j \<notin> set gone) (vs_jobs v))" using assms(1) by (simp add: svc_ok_def)
  ultimately show ?thesis unfolding v' svc_ok_def by simp
qed (use assms in \<open>auto simp: batchDeleteService_def split: if_splits\<close>)

text \<open>The start.\<close>

lemma load_row_ok:
  assumes "svc_ok \<lparr>vs_rows = rows, vs_sent = ss, vs_jobs = jobs\<rparr>" and "sc_ID m \<notin> sc_ID ` set rows" and "j \<notin> set jobs"
  shows "svc_ok \<lparr>vs_rows = rows @ [m], vs_sent = load_service (m, j) ss, vs_jobs = jobs @ [j]\<rparr>"
proof -
  define m' where "m' = (snd (CronSpec m))\<lparr>sc_CronJobID := j\<rparr>"
  have services: "map_of (ss_services (load_service (m, j) ss)) = (map_of (ss_services ss))(sc_ID m \<mapsto> m')"
    by (simp add: load_service_def Let_def m'_def map_of_update)
  have ok: "map_option no_job (map_of (ss_services ss) k) = map_option with_default (svc_row k rows)" "set jobs = jobs_of (map_of (ss_services ss))"
    "jobs_apart (map_of (ss_services ss))" "distinct jobs" "distinct (map sc_ID rows)" for k
    using assms(1) by (simp_all add: svc_ok_def)
  have none: "svc_row (sc_ID m) rows = None" using assms(2) by (simp add: svc_row_None)
  then have absent: "map_of (ss_services ss) (sc_ID m) = None" using ok(1) [of "sc_ID m"] by simp
  have "map_option no_job (((map_of (ss_services ss))(sc_ID m \<mapsto> m')) k) = map_option with_default (svc_row k (rows @ [m]))" for k
    using ok(1) [of k] none by (auto simp: svc_row_append m'_def no_job_def with_default_def split: option.split)
  moreover have "jobs_apart ((map_of (ss_services ss))(sc_ID m \<mapsto> m'))" using ok(2,3) assms(3) by (intro jobs_apart_update) (simp_all add: m'_def)
  moreover have "set (jobs @ [j]) = jobs_of ((map_of (ss_services ss))(sc_ID m \<mapsto> m'))"
    using ok(2) by (simp add: jobs_of_update jobs_of_absent [where m = "map_of (ss_services ss)", OF absent] m'_def)
  ultimately show ?thesis using assms(2,3) ok(4,5) unfolding svc_ok_def by (simp add: services)
qed

lemma load_services_ok:
  assumes "load_services adds i ms (ss, jobs) = Inr (ss', jobs')" and "svc_ok \<lparr>vs_rows = rows, vs_sent = ss, vs_jobs = jobs\<rparr>"
    and "distinct (map sc_ID (rows @ ms))" and "\<forall>j \<in> set jobs. \<exists>k < i. \<exists>s. adds k s = Inr j" and "adds_ok [] adds"
  shows "svc_ok \<lparr>vs_rows = rows @ ms, vs_sent = ss', vs_jobs = jobs'\<rparr>"
  using assms(1-4)
proof (induction ms arbitrary: i ss jobs rows)
  case (Cons m ms)
  obtain j where j: "adds i (fst (CronSpec m)) = Inr j" using assms(5) unfolding adds_ok_def by blast
  have "j \<notin> set jobs" using Cons.prems(4) j assms(5) unfolding adds_ok_def by (metis less_irrefl)
  then have "svc_ok \<lparr>vs_rows = rows @ [m], vs_sent = load_service (m, j) ss, vs_jobs = jobs @ [j]\<rparr>"
    using Cons.prems(2,3) by (intro load_row_ok) auto
  moreover have "\<forall>j' \<in> set (jobs @ [j]). \<exists>k < Suc i. \<exists>s. adds k s = Inr j'" using Cons.prems(4) j by (fastforce simp: less_Suc_eq)
  moreover have "load_services adds (Suc i) ms (load_service (m, j) ss, jobs @ [j]) = Inr (ss', jobs')" using Cons.prems(1) j by simp
  ultimately show ?case using Cons.IH [of "Suc i" "load_service (m, j) ss" "jobs @ [j]" "rows @ [m]"] Cons.prems(3) by simp
qed simp

lemma start_services_ok:
  assumes "start_services adds rows = Inr v" and "distinct (map sc_ID rows)" and "adds_ok [] adds"
  shows "svc_ok v"
proof -
  obtain ss jobs where l: "load_services adds 0 rows (no_sentinel, []) = Inr (ss, jobs)" and v: "v = \<lparr>vs_rows = rows, vs_sent = UpdateServiceList ss, vs_jobs = jobs\<rparr>"
    using assms(1) by (auto simp: start_services_def split: sum.splits prod.splits)
  have "svc_ok \<lparr>vs_rows = [], vs_sent = no_sentinel, vs_jobs = []\<rparr>"
    by (simp add: svc_ok_def no_sentinel_def svc_row_def jobs_of_def jobs_apart_def)
  from load_services_ok [OF l this] have "svc_ok \<lparr>vs_rows = rows, vs_sent = ss, vs_jobs = jobs\<rparr>" using assms(2,3) by simp
  then show ?thesis by (simp add: v svc_ok_def)
qed

lemma svc_reach_ok: "svc_reach v \<Longrightarrow> svc_ok v"
proof (induction rule: svc_reach.induct)
  case (vr_other v t)
  then show ?case by (simp add: svc_ok_def)
qed (blast intro: start_services_ok createService_ok updateService_ok batchDeleteService_ok)+


subsection \<open>An interval the scheduler refuses\<close>

lemma load_services_fails:
  "m \<in> set ms \<Longrightarrow> (\<And>i. \<exists>e. adds i (fst (CronSpec m)) = Inl e) \<Longrightarrow> \<exists>e. load_services adds i ms acc = Inl e"
proof (induction ms arbitrary: i acc)
  case (Cons x xs)
  show ?case
  proof (cases "x = m")
    case True
    then show ?thesis using Cons.prems(2) [of i] by (cases acc) auto
  next
    case False
    then show ?thesis using Cons by (cases acc) (auto split: sum.split)
  qed
qed simp

text \<open>C39: A service with an interval that the scheduler refuses is stored all the same: its creation reports the error and the
  running sentinel stays as it is, but from then on no start of the dashboard gets past the load of the services.\<close>

theorem refused_interval_blocks_start:
  assumes "validateServers u servers (fill_service f zero_service)" and "spec = ''@every '' @ show_uint (if sf_Duration f = 0 then 30 else sf_Duration f) @ ''s''"
    and "adds 0 spec = Inl e" and "\<And>i. \<exists>e'. adds' i spec = Inl e'"
  shows "\<exists>v'. createService adds new True u servers f v = (v', Inl e) \<and> vs_sent v' = vs_sent v \<and> new \<in> sc_ID ` set (vs_rows v') \<and>
    (\<forall>rows. set (vs_rows v') \<subseteq> set rows \<longrightarrow> (\<exists>e'. start_services adds' rows = Inl e'))"
proof -
  define m where "m = (fill_service f (zero_service\<lparr>sc_UserID := u_ID u\<rparr>))\<lparr>sc_ID := new\<rparr>"
  have spec: "fst (CronSpec m) = spec" by (simp add: CronSpec_def Let_def m_def fill_service_def assms(2))
  have "validateServers u servers (fill_service f (zero_service\<lparr>sc_UserID := u_ID u\<rparr>))"
    using assms(1) by (simp add: validateServers_def fill_service_def)
  then have "createService adds new True u servers f v = (v\<lparr>vs_rows := vs_rows v @ [m]\<rparr>, Inl e)"
    using assms(3) spec by (simp add: createService_def Let_def m_def [symmetric] put_service_def Service_Update_def)
  moreover have "\<exists>e'. start_services adds' rows = Inl e'" if "set (vs_rows v @ [m]) \<subseteq> set rows" for rows
    using load_services_fails [of m rows adds' 0 "(no_sentinel, [])"] that assms(4) spec by (auto simp: start_services_def)
  ultimately show ?thesis by (auto simp: m_def)
qed

subsection \<open>Which agents run a service\<close>

lemma distinct_concat_keys:
  assumes "distinct (map fst xs)" and "\<And>x. x \<in> set xs \<Longrightarrow> g x = [] \<or> (\<exists>t. g x = [(fst x, t)])"
  shows "distinct (map fst (concat (map g xs))) \<and> fst ` set (concat (map g xs)) \<subseteq> fst ` set xs"
  using assms
proof (induction xs)
  case (Cons x xs)
  define c where "c = concat (map g xs)"
  have c: "distinct (map fst c)" "fst ` set c \<subseteq> fst ` set xs" "concat (map g (x # xs)) = g x @ c" using Cons unfolding c_def by simp_all
  moreover have "g x = [] \<or> (\<exists>t. g x = [(fst x, t)])" using Cons.prems(2) by simp
  moreover have "fst x \<notin> fst ` set c" using Cons.prems(1) c(2) by auto
  ultimately show ?case unfolding c(3) by force
qed simp

lemma distinct_if: "distinct (map f xs) \<Longrightarrow> distinct (map f ys) \<Longrightarrow> distinct (map f (if a then xs else if b then ys else []))"
  by simp

lemma canSend_iff: "canSendTaskToServer users m s \<longleftrightarrow>
    sc_UserID m = sv_UserID s \<or> (\<exists>i. map_of (um_info users) (sc_UserID m) = Some i \<and> ui_Role i = RoleAdmin)"
  by (auto simp: canSendTaskToServer_def IsAdmin_def RoleAdmin_def RoleMember_def Let_def split: option.split)

lemma get_or_False: "get_or False m k \<longleftrightarrow> map_of m k = Some True"
  by (auto simp: get_or_def split: option.split)

text \<open>C8: The task of a service goes once to each connected server the service covers whose owner is the owner of the service, or to
  all it covers when the owner is an administrator, and to no other server; and each is listed as a server with services.\<close>

theorem service_tasks_respect_owner:
  assumes "gomap_ok servers" and "gomap_ok (sc_SkipServers m)"
  shows "distinct (map fst (DispatchTask users servers [Some m])) \<and>
    (\<forall>k t. (k, t) \<in> set (DispatchTask users servers [Some m]) \<longleftrightarrow> t = PB m \<and> (\<exists>s. map_of servers k = Some s \<and> sv_Online s \<and>
      (sc_Cover m = ServiceCoverAll \<and> map_of (sc_SkipServers m) k \<noteq> Some True \<or> sc_Cover m = ServiceCoverIgnoreAll \<and> map_of (sc_SkipServers m) k = Some True) \<and>
      (sc_UserID m = sv_UserID s \<or> (\<exists>i. map_of (um_info users) (sc_UserID m) = Some i \<and> ui_Role i = RoleAdmin)))) \<and>
    (\<forall>c. fst ` set (DispatchTask users servers [Some m]) \<subseteq> set (listServerWithServices (Some c) [m] servers))"
proof -
  have task: "DispatchTask users servers [Some m] = dispatch_service users servers m" by (simp add: DispatchTask_def)
  have "distinct (map fst (dispatch_service users servers m))"
  proof -
    have "distinct (map fst (concat (map (\<lambda>(k, enabled). if \<not> enabled then [] else case map_of servers k of None \<Rightarrow> []
        | Some s \<Rightarrow> if sv_Online s \<and> canSendTaskToServer users m s then [(k, PB m)] else []) (sc_SkipServers m))))"
      using assms(2) by (intro conjunct1 [OF distinct_concat_keys]) (auto simp: gomap_ok_def split: option.split)
    moreover have "distinct (map fst (concat (map (\<lambda>(k, s). if \<not> sv_Online s \<or> get_or False (sc_SkipServers m) k then []
        else if canSendTaskToServer users m s then [(k, PB m)] else []) servers)))"
      using assms(1) by (intro conjunct1 [OF distinct_concat_keys]) (auto simp: gomap_ok_def split: if_splits)
    ultimately show ?thesis unfolding dispatch_service_def by (rule distinct_if)
  qed
  moreover have mem: "(k, t) \<in> set (dispatch_service users servers m) \<longleftrightarrow> t = PB m \<and> (\<exists>s. map_of servers k = Some s \<and> sv_Online s \<and>
      (sc_Cover m = ServiceCoverAll \<and> map_of (sc_SkipServers m) k \<noteq> Some True \<or> sc_Cover m = ServiceCoverIgnoreAll \<and> map_of (sc_SkipServers m) k = Some True) \<and>
      canSendTaskToServer users m s)" for k t
  proof (cases "sc_Cover m = ServiceCoverIgnoreAll")
    case True
    define g where "g = (\<lambda>(k, enabled). if \<not> enabled then [] else case map_of servers k of None \<Rightarrow> []
        | Some s \<Rightarrow> if sv_Online s \<and> canSendTaskToServer users m s then [(k, PB m)] else [])"
    have one: "(k, t) \<in> set (g x) \<longleftrightarrow> x = (k, True) \<and> t = PB m \<and> (\<exists>s. map_of servers k = Some s \<and> sv_Online s \<and> canSendTaskToServer users m s)" for x
      by (cases x; cases "map_of servers (fst x)") (auto simp: g_def split: if_splits)
    have "(k, t) \<in> set (dispatch_service users servers m) \<longleftrightarrow> (\<exists>x \<in> set (sc_SkipServers m). (k, t) \<in> set (g x))"
      using True by (simp add: dispatch_service_def g_def)
    then show ?thesis unfolding one using gomap_ok_lookup [OF assms(2), of k True] True by (auto simp: ServiceCoverAll_def ServiceCoverIgnoreAll_def)
  next
    case False
    then show ?thesis using gomap_ok_lookup [OF assms(1), of k]
      by (auto simp: dispatch_service_def get_or_False split: if_splits)
  qed
  moreover have "fst ` set (dispatch_service users servers m) \<subseteq> set (listServerWithServices (Some c) [m] servers)" for c
  proof
    fix k assume "k \<in> fst ` set (dispatch_service users servers m)"
    then obtain s where s: "map_of servers k = Some s"
      "sc_Cover m = ServiceCoverAll \<and> map_of (sc_SkipServers m) k \<noteq> Some True \<or> sc_Cover m = ServiceCoverIgnoreAll \<and> map_of (sc_SkipServers m) k = Some True"
      unfolding mem [abs_def] by (auto simp: mem)
    then show "k \<in> set (listServerWithServices (Some c) [m] servers)"
      using map_of_SomeD [OF s(1)] map_of_SomeD [of "sc_SkipServers m" k True]
      by (auto simp: listServerWithServices_def get_or_False ServiceCoverAll_def ServiceCoverIgnoreAll_def image_iff) force+
  qed
  ultimately show ?thesis unfolding task canSend_iff by blast
qed

subsection \<open>What guests see\<close>

text \<open>C40: A server that is hidden from guests is left out of their list of servers, and its services and measurements are refused
  to them; but the history of a service shows a guest its number, its name and its measurements.\<close>

theorem hidden_server_shows_in_history:
  assumes "map_of servers k = Some s" and "sv_HideForGuest s" and "ParseUint idStr = Some k" and "k \<noteq> 0"
    and "(k, h) \<in> set rows" and "sh_ServiceID h = sid" and "now - Duration Period1Day \<le> sh_CreatedAt h"
    and "map_of services sid = Some m" and "ParseUint sidStr = Some sid"
  shows "k \<notin> set (listServerWithServices None listed servers) \<and>
    listServerServices None listed servers now rows tsdb idStr period = Inl ''unauthorized'' \<and>
    getServerMetrics None servers metrics idStr metric period = Inl ''unauthorized'' \<and>
    (\<exists>shown st. getServiceHistory None services servers now rows None sidStr ''1d'' = Inr (sc_Name m, shown) \<and>
      \<lparr>ns_ServerID = k, ns_ServerName = sv_Name s, ns_Stats = st\<rparr> \<in> set shown \<and> hs_DataPoints st \<noteq> [])"
proof -
  have "k \<notin> set (listServerWithServices None listed servers)" using assms(1,2) by (simp add: listServerWithServices_def Let_def)
  moreover have "listServerServices None listed servers now rows tsdb idStr period = Inl ''unauthorized''"
    using assms(1-3) by (simp add: listServerServices_def)
  moreover have "getServerMetrics None servers metrics idStr metric period = Inl ''unauthorized''"
    using assms(1-3) by (simp add: getServerMetrics_def)
  moreover have "getServiceHistory None services servers now rows None sidStr ''1d'' = Inr (sc_Name m, queryServiceHistoryFromDB now rows servers sid Period1Day)"
    using assms(8,9) by (simp add: getServiceHistory_def ParseQueryPeriod_def)
  moreover have "\<exists>st. \<lparr>ns_ServerID = k, ns_ServerName = sv_Name s, ns_Stats = st\<rparr> \<in> set (queryServiceHistoryFromDB now rows servers sid Period1Day) \<and> hs_DataPoints st \<noteq> []"
  proof -
    define hs where "hs = filter (\<lambda>(k, r). sh_ServiceID r = sid \<and> k \<noteq> 0 \<and> now - Duration Period1Day \<le> sh_CreatedAt r) rows"
    have h: "(k, h) \<in> set hs" using assms(4-7) by (simp add: hs_def)
    define st where "st = row_summary (sort_key sh_CreatedAt (map snd (filter (\<lambda>h. fst h = k) hs)))"
    have "(k, h) \<in> set (filter (\<lambda>h. fst h = k) hs)" using h by simp
    then have "h \<in> set (sort_key sh_CreatedAt (map snd (filter (\<lambda>h. fst h = k) hs)))" by force
    then have "sort_key sh_CreatedAt (map snd (filter (\<lambda>h. fst h = k) hs)) \<noteq> []" by (metis empty_iff list.set(1))
    then have "hs_DataPoints st \<noteq> []" by (simp add: st_def row_summary_def Let_def)
    moreover have "\<lparr>ns_ServerID = k, ns_ServerName = sv_Name s, ns_Stats = st\<rparr> \<in> set (queryServiceHistoryFromDB now rows servers sid Period1Day)"
      using h assms(1) unfolding queryServiceHistoryFromDB_def Let_def hs_def [symmetric] by (force simp: server_name_def st_def image_iff)
    ultimately show ?thesis by blast
  qed
  ultimately show ?thesis by blast
qed

subsection \<open>Examples\<close>

definition some_svc_form :: service_form where
  "some_svc_form = \<lparr>sf_Name = ''web'', sf_Target = '' example.org '', sf_Type = 1, sf_Cover = 0, sf_DisplayIndex = 0, sf_Notify = False,
     sf_Duration = 18446744073709551615, sf_MinLatency = 0, sf_MaxLatency = 0, sf_LatencyNotify = False, sf_EnableTriggerTask = False,
     sf_EnableShowInService = False, sf_FailTriggerTasks = [], sf_RecoverTriggerTasks = [], sf_SkipServers = [], sf_NotificationGroupID = 0\<rparr>"

definition some_hidden :: server where
  "some_hidden = (init_server 1 9 ''a'' ''u'')\<lparr>sv_Online := True, sv_HideForGuest := True\<rparr>"

definition some_owner :: user where
  "some_owner = \<lparr>u_ID = 9, u_Username = ''o'', u_Role = RoleMember, u_AgentSecret = [], u_RejectPassword = False\<rparr>"

definition no_services :: svc_state where
  "no_services = \<lparr>vs_rows = [], vs_sent = UpdateServiceList no_sentinel, vs_jobs = []\<rparr>"

lemma some_start: "start_services adds [] = Inr no_services"
  by (simp add: start_services_def no_services_def)

lemma some_valid: "validateServers u servers (fill_service some_svc_form m)"
  by (simp add: validateServers_def fill_service_def some_svc_form_def class_CheckPermission_def)


theorem refused_interval_blocks_start_witness:
  "\<exists>v'. createService (\<lambda>_ _. Inl ''bad'') 3 True some_owner [] some_svc_form no_services = (v', Inl ''bad'') \<and>
     (\<exists>e. start_services (\<lambda>_ _. Inl ''bad'') (vs_rows v') = Inl e)"
  using refused_interval_blocks_start [of some_owner "[]" some_svc_form _ "\<lambda>_ _. Inl ''bad''" "''bad''" "\<lambda>_ _. Inl ''bad''" 3 no_services, OF some_valid refl]
  by fastforce

theorem service_tasks_respect_owner_witness:
  "DispatchTask \<lparr>um_info = [], um_secret = []\<rparr> [(1, some_hidden)] [Some (fill_service some_svc_form (zero_service\<lparr>sc_UserID := 9\<rparr>))] =
     [(1, PB (fill_service some_svc_form (zero_service\<lparr>sc_UserID := 9\<rparr>)))] \<and>
   1 \<in> set (listServerWithServices (Some some_owner) [fill_service some_svc_form (zero_service\<lparr>sc_UserID := 9\<rparr>)] [(1, some_hidden)])"
proof -
  let ?m = "fill_service some_svc_form (zero_service\<lparr>sc_UserID := 9\<rparr>)"
  have "DispatchTask \<lparr>um_info = [], um_secret = []\<rparr> [(1, some_hidden)] [Some ?m] = [(1, PB ?m)]"
    by (simp add: DispatchTask_def dispatch_service_def fill_service_def some_svc_form_def zero_service_def ServiceCoverAll_def ServiceCoverIgnoreAll_def
      some_hidden_def init_server_def canSendTaskToServer_def get_or_def)
  moreover have "gomap_ok [(1 :: uint64, some_hidden)]" "gomap_ok (sc_SkipServers ?m)" by (simp_all add: gomap_ok_def fill_service_def some_svc_form_def)
  ultimately show ?thesis using service_tasks_respect_owner [of "[(1, some_hidden)]" ?m "\<lparr>um_info = [], um_secret = []\<rparr>"] by fastforce
qed

definition some_record :: service_history where
  "some_record = \<lparr>sh_ServiceID = 3, sh_CreatedAt = 10, sh_AvgDelay = 1, sh_Up = 1, sh_Down = 0\<rparr>"

theorem hidden_server_shows_in_history_witness:
  "listServerServices None [zero_service] [(1, some_hidden)] 20 [(1, some_record)] None ''1'' ''1d'' = Inl ''unauthorized'' \<and>
   (\<exists>shown st. getServiceHistory None [(3, zero_service)] [(1, some_hidden)] 20 [(1, some_record)] None ''3'' ''1d'' = Inr ([], shown) \<and>
     \<lparr>ns_ServerID = 1, ns_ServerName = ''a'', ns_Stats = st\<rparr> \<in> set shown)"
proof -
  have parse: "ParseUint ''1'' = Some 1" "ParseUint ''3'' = Some 3" by (simp_all add: ParseUint_def digit_val_def)
  have host: "sv_Name some_hidden = ''a''" "sv_HideForGuest some_hidden" by (simp_all add: some_hidden_def init_server_def)
  show ?thesis
    using hidden_server_shows_in_history [of "[(1, some_hidden)]" 1 some_hidden "''1''" some_record "[(1, some_record)]" 3 20 "[(3, zero_service)]" zero_service "''3''"
      "[zero_service]" None "''1d''" None "''cpu''"] parse host
    by (simp add: some_record_def Duration_def Period1Day_def hour_def Period7Days_def Period30Days_def) (metis zero_service_def service.simps(3) parse)
qed

end
