(* ===== verification/Spec2Isabelle.thy ===== *)
theory Spec2Isabelle
  imports Prelude Waf Port_Pool Udp_Wire Tunnel_Server Udp_Relay Tunnel_System Tunnel_Traffic Alert_Time Server_Model Alert_Rule Notify Alert_Sentinel Alert_Properties Service_Sentinel Service_Worker Service_Properties Service_Tables Service_Totals Service_Locks Tsdb_Store Tsdb_Query Tsdb_Properties Registry Server_Registry Server_Search Cron_Tasks Traffic Agent_Auth Config_Access Config_Assign Signed_Token Idx_Dispatch Io_Stream Service_Handlers
begin

text \<open>
  A verification development for the dashboard server of this repository (Go): agents report over gRPC, the dashboard keeps
  their state, watches services and alert rules, notifies, blocks addresses, stores measurements and relays tunnels.

  Parts and theories.

  \<^item> \<open>Prelude\<close>: machine words, exact rationals for floats, the outcome type \<open>go\<close> of code that may panic or hang, Go maps
    as association lists, strings and numbers, the helpers of \<open>pkg/utils\<close>.
  \<^item> \<open>Waf\<close>: the web application firewall (\<open>model/waf.go\<close>) with its table, the interceptors of \<open>cmd/dashboard/rpc\<close> and
    the online users (\<open>service/singleton/online_user.go\<close>).
  \<^item> \<open>Port_Pool\<close>, \<open>Udp_Wire\<close>, \<open>Tunnel_Server\<close>, \<open>Udp_Relay\<close>, \<open>Tunnel_System\<close>, \<open>Tunnel_Traffic\<close>: the tunnel server of
    \<open>internal/xtpro\<close>: public ports, the framing and encryption of UDP messages, sessions, proxied connections, the relay of
    datagrams, and all of them as one machine whose steps are its handlers.
  \<^item> \<open>Alert_Time\<close>, \<open>Server_Model\<close>, \<open>Alert_Rule\<close>, \<open>Alert_Sentinel\<close>, \<open>Alert_Properties\<close>: alert rules (\<open>model/rule.go\<close>,
    \<open>model/alertrule.go\<close>) and the sentinel that evaluates them (\<open>service/singleton/alertsentinel.go\<close>).
  \<^item> \<open>Notify\<close>: the registry of notifiers and groups and the spacing of repeated notifications
    (\<open>service/singleton/notification.go\<close>).
  \<^item> \<open>Service_Sentinel\<close>, \<open>Service_Worker\<close>, \<open>Service_Properties\<close>, \<open>Service_Tables\<close>, \<open>Service_Totals\<close>, \<open>Service_Locks\<close>:
    the service sentinel (\<open>service/singleton/servicesentinel.go\<close>): its tables and loads, its worker, what a report does, the
    alignment of the tables over all operations, the totals of the month, and its locks as a machine of threads.
  \<^item> \<open>Tsdb_Store\<close>, \<open>Tsdb_Query\<close>, \<open>Tsdb_Properties\<close>: the time-series database wrapper (\<open>pkg/tsdb\<close>).
  \<^item> \<open>Registry\<close>, \<open>Server_Registry\<close>, \<open>Server_Search\<close>: the registries of \<open>service/singleton\<close>: the generic class with its
    sorted copy, NAT and DDNS profiles, the servers with their index of UUIDs, and the ranked search of servers.
  \<^item> \<open>Cron_Tasks\<close>: scheduled and triggered tasks (\<open>service/singleton/crontask.go\<close>, \<open>controller/cron.go\<close>).
  \<^item> \<open>Traffic\<close>: reports of state and host information, the hourly records of traffic and their removal
    (\<open>service/rpc/nezha.go\<close>, \<open>service/singleton/singleton.go\<close>).
  \<^item> \<open>Agent_Auth\<close>: users and their secrets (\<open>service/singleton/user.go\<close>), the authentication of agents and the
    registration of servers (\<open>service/rpc/auth.go\<close>).
  \<^item> \<open>Config_Access\<close>: templates, the configurations bound to them, the rights of users to both and the raw configuration
    (\<open>controller/template*.go\<close>, \<open>controller/config*.go\<close>, \<open>controller/raw_config.go\<close>).
  \<^item> \<open>Config_Assign\<close>: the assignment of configurations to servers, groups and tags
    (\<open>controller/config_assignment.go\<close>) and the choice of the one that takes effect.
  \<^item> \<open>Signed_Token\<close>, \<open>Idx_Dispatch\<close>: signed tokens (\<open>pkg/utils/signed_token.go\<close>); the boot scripts of IDX nodes from
    their dispatch over the script a node fetches to its result (\<open>service/rpc/nezha.go\<close>, \<open>controller/idx_*.go\<close>).
  \<^item> \<open>Io_Stream\<close>: the bridge between an agent and a browser (\<open>service/rpc/io_stream.go\<close>), with the terminal, the file
    manager and the NAT proxy that use it.
  \<^item> \<open>Service_Handlers\<close>: the handlers of services (\<open>controller/service.go\<close>), their load at the start and the dispatch of
    their tasks to agents (\<open>cmd/dashboard/rpc/rpc.go\<close>).

  How state and operations correspond. A Go struct is a record with a short prefix, a method a definition of the same name
  (prefixed where two types share it) that takes the state and returns it, with the error or the outcome in front. A map to
  pointers is a map; a read through a nil pointer, an index out of range and a write to a nil map are \<open>Panic\<close>; a loop that
  never ends is \<open>Hang\<close>. A goroutine a handler starts, a database write or a notification is an event in a returned list.
  Steps of different handlers interleave as sequences of operations or as steps of a relation; the locks themselves are
  modelled where their order matters (\<open>Service_Locks\<close>).

  What the groups of lemmas show. Invariants with the induction over reachable states: the partition and the exclusive use
  of public ports, the byte totals, one rendezvous per proxied connection, the primary key of the firewall, the alignment of
  the tables of the service sentinel, the excess of its totals, one script for each boot of a node. Functional behaviour: the window of a block and its
  escalation, the evaluation of alert conditions against a reference, the status of a window of results, the average of
  pings, the variables of templates and the rank of assignments, the delivery of datagrams both ways. Round trips: UDP messages, encryption, rows of measurements, signed tokens. Refinement: the
  buffered database against a log; the table of streams and the registries against a finite map with a sorted list of it. Equivalence: downsampling against grouping. Liveness and deadlock: programs that take
  locks in the documented order always progress, and the one method that does not can block for good. Errors: panics that
  are characterised exactly. The findings of the manifest name the theorems behind them.

  Bounds and termination. Every definition is total; recursion is structural, or has a measure (the cycle of a transfer rule
  in \<open>Alert_Time\<close>, where the missing bound of the source is a \<open>Hang\<close>); only the wait of a stream is a partial function,
  whose \<open>None\<close> is a wait that never ends. No fuel is used.

  Abstractions. \<open>float64\<close> and \<open>float32\<close> are exact rationals. White space and letter case are those of ASCII. A map is
  iterated in the order of its list, one of the orders Go may take; theorems that need it assume only distinct keys. Times
  are nanoseconds (milliseconds in points), zones a fixed offset. Outside the repository, and so arguments: the parser of
  addresses, the cipher and its random bytes, the cache of mutes, the localiser, the parser and printer of certificate dates,
  the clock, the database and the search of the storage engine.

  Not modelled: the HTTP controllers apart from those of the parts above, OAuth2 and JWT, the websocket of the statistics,
  the HTTP interface and the database of the tunnel server, DDNS and GeoIP providers, translations, the
  assets and the generated protocol code: they are input and output around the parts above or calls into libraries.
\<close>

end
